(* ===== verification/Prelude_TS.thy ===== *)
theory Prelude_TS
  imports Complex_Main "HOL-Library.AList" "HOL-Library.List_Lexorder" "HOL-Library.Char_ord"
begin

text \<open>
  Shared vocabulary of the development: the few facts of TypeScript / JavaScript that the modelled
  sources rely on, and the generic list and map lemmas that the components share.

  \<^item> strings are \<open>string\<close>; \<open><\<close> on them is the lexicographic order the source uses on \<open>HH:mm\<close>
    times (all modelled strings are ASCII, so code-unit order and character order agree);
  \<^item> \<open>null\<close> and \<open>undefined\<close> are \<open>None\<close>; \<open>truthy\<close> is the JavaScript test \<open>if (s)\<close> of an optional
    string, false on the empty string too;
  \<^item> template literals print integers with \<open>int_str\<close> and fixed-point numbers with \<open>to_fixed2\<close>;
  \<^item> a \<open>Map\<close> iterated in insertion order is an association list updated by \<open>AList.update\<close>, which
    keeps the position of an existing key and appends a new one;
  \<^item> numbers that the code divides are exact rationals (binary rounding of doubles is not modelled).
\<close>

named_theorems key_inj \<open>injectivity of the string keys the code builds\<close>

section \<open>Optional strings\<close>

definition truthy :: "string option \<Rightarrow> bool" where
  "truthy s = (case s of None \<Rightarrow> False | Some t \<Rightarrow> t \<noteq> [])"

lemma truthy_simps [simp]: "\<not> truthy None" "truthy (Some t) = (t \<noteq> [])"
  by (simp_all add: truthy_def)

lemma truthyE: assumes "truthy s" obtains t where "s = Some t" "t \<noteq> []"
  using assms by (auto simp: truthy_def split: option.splits)

section \<open>Printing integers\<close>

definition digit_char :: "nat \<Rightarrow> char" where
  "digit_char n = ''0123456789'' ! n"

fun nat_str :: "nat \<Rightarrow> string" where
  "nat_str n = (if n < 10 then [digit_char n] else nat_str (n div 10) @ [digit_char (n mod 10)])"

declare nat_str.simps [simp del]

definition int_str :: "int \<Rightarrow> string" where
  "int_str i = (if i < 0 then ''-'' @ nat_str (nat (- i)) else nat_str (nat i))"

lemma lt_10_cases: "n < 10 \<longleftrightarrow> n \<in> {0,1,2,3,4,5,6,7,8,9::nat}"
  by auto

lemma digit_char_in: "n < 10 \<Longrightarrow> digit_char n \<in> set ''0123456789''"
  unfolding digit_char_def by (rule nth_mem) simp

lemma digit_char_inj: "m < 10 \<Longrightarrow> n < 10 \<Longrightarrow> digit_char m = digit_char n \<longleftrightarrow> m = n"
proof -
  have "distinct ''0123456789''" by simp
  then show "m < 10 \<Longrightarrow> n < 10 \<Longrightarrow> digit_char m = digit_char n \<longleftrightarrow> m = n"
    unfolding digit_char_def by (subst nth_eq_iff_index_eq) simp_all
qed

lemma nat_str_nonempty [simp]: "nat_str n \<noteq> []" "[] \<noteq> nat_str n"
proof -
  show "nat_str n \<noteq> []" by (subst nat_str.simps) simp
  then show "[] \<noteq> nat_str n" by metis
qed

lemma nat_str_digits: "set (nat_str n) \<subseteq> set ''0123456789''"
proof (induction n rule: nat_str.induct)
  case (1 n)
  show ?case
  proof (cases "n < 10")
    case True
    then show ?thesis using digit_char_in by (subst nat_str.simps) simp
  next
    case False
    then have "set (nat_str (n div 10)) \<subseteq> set ''0123456789''" by (rule "1.IH")
    with False digit_char_in[of "n mod 10"] show ?thesis by (subst nat_str.simps) auto
  qed
qed

lemma nat_str_inj: "nat_str m = nat_str n \<Longrightarrow> m = n"
proof (induction m arbitrary: n rule: nat_str.induct)
  case (1 m)
  consider "m < 10" "n < 10" | "m < 10" "\<not> n < 10" | "\<not> m < 10" "n < 10" | "\<not> m < 10" "\<not> n < 10"
    by blast
  then show ?case
  proof cases
    case 1
    with "1.prems" show ?thesis by (simp add: nat_str.simps [of m] nat_str.simps [of n] digit_char_inj)
  next
    case 2
    with "1.prems" show ?thesis by (simp add: nat_str.simps [of m] nat_str.simps [of n])
  next
    case 3
    with "1.prems" show ?thesis by (simp add: nat_str.simps [of m] nat_str.simps [of n])
  next
    case 4
    with "1.prems" have eq: "nat_str (m div 10) = nat_str (n div 10)" "digit_char (m mod 10) = digit_char (n mod 10)"
      by (simp_all add: nat_str.simps [of m] nat_str.simps [of n])
    from "1.IH"[OF 4(1) eq(1)] eq(2) have "m div 10 = n div 10" "m mod 10 = n mod 10"
      by (simp_all add: digit_char_inj)
    then show ?thesis by (metis div_mult_mod_eq)
  qed
qed

lemma nat_str_no_char: "c \<notin> set ''0123456789'' \<Longrightarrow> c \<notin> set (nat_str n)"
  using nat_str_digits by (rule contra_subsetD)

lemma nat_str_no_dash [simp]: "nat_str n \<noteq> CHR ''-'' # xs" "CHR ''-'' # xs \<noteq> nat_str n"
proof -
  have "CHR ''-'' \<notin> set (nat_str n)" by (rule nat_str_no_char) simp
  then show "nat_str n \<noteq> CHR ''-'' # xs" "CHR ''-'' # xs \<noteq> nat_str n" by (metis list.set_intros(1))+
qed

lemma int_str_no_sep [simp]: "CHR '':'' \<notin> set (int_str i)" "CHR ''|'' \<notin> set (int_str i)"
  by (simp_all add: int_str_def nat_str_no_char)

lemma int_str_inj [key_inj, simp]: "int_str i = int_str j \<longleftrightarrow> i = j"
proof
  assume "int_str i = int_str j"
  then show "i = j"
    by (simp add: int_str_def split: if_splits) (drule nat_str_inj, simp)+
qed simp

section \<open>Separated string keys\<close>

lemma append_sep_inj:
  "c \<notin> set ys \<Longrightarrow> c \<notin> set ys' \<Longrightarrow> xs @ c # ys = xs' @ c # ys' \<longleftrightarrow> xs = xs' \<and> ys = ys'"
  by (auto simp: append_eq_append_conv2 append_eq_Cons_conv Cons_eq_append_conv)

definition key2 :: "string \<Rightarrow> int \<Rightarrow> string" where
  \<comment> \<open>the template \<open>${s}:${i}\<close>\<close>
  "key2 s i = s @ '':'' @ int_str i"

definition key3 :: "string \<Rightarrow> int \<Rightarrow> int \<Rightarrow> string" where
  \<comment> \<open>the template \<open>${s}:${i}:${j}\<close>\<close>
  "key3 s i j = s @ '':'' @ int_str i @ '':'' @ int_str j"

lemma key2_inj [key_inj]: "key2 s i = key2 t j \<longleftrightarrow> s = t \<and> i = j"
  by (simp add: key2_def append_sep_inj)

lemma key3_inj [key_inj]: "key3 s i j = key3 t k l \<longleftrightarrow> s = t \<and> i = k \<and> j = l"
proof -
  have "key3 s i j = key2 s i @ CHR '':'' # int_str j" "key3 t k l = key2 t k @ CHR '':'' # int_str l"
    by (simp_all add: key3_def key2_def)
  then show ?thesis by (simp add: append_sep_inj key2_inj)
qed

definition int_key2 :: "int \<Rightarrow> int \<Rightarrow> string" where
  \<comment> \<open>the template \<open>${i}:${j}\<close>\<close>
  "int_key2 i j = int_str i @ '':'' @ int_str j"

lemma int_key2_inj [key_inj]: "int_key2 i j = int_key2 k l \<longleftrightarrow> i = k \<and> j = l"
  by (simp add: int_key2_def append_sep_inj)

definition sorted_join :: "string \<Rightarrow> string \<Rightarrow> string" where
  \<comment> \<open>\<open>[a, b].sort().join('|')\<close>\<close>
  "sorted_join a b = (if a \<le> b then a @ ''|'' @ b else b @ ''|'' @ a)"

lemma sorted_join_commute: "sorted_join a b = sorted_join b a"
  by (auto simp: sorted_join_def)

section \<open>Insertion-ordered maps\<close>

definition map_get :: "('k \<times> 'v) list \<Rightarrow> 'k \<Rightarrow> 'v \<Rightarrow> 'v" where
  \<comment> \<open>\<open>m.get(k) ?? d\<close>\<close>
  "map_get m k d = (case map_of m k of None \<Rightarrow> d | Some v \<Rightarrow> v)"

lemma set_AList_update: "set (AList.update k v m) \<subseteq> insert (k, v) (set m)"
  by (induction m) auto

definition group_add :: "'k \<Rightarrow> 'a \<Rightarrow> ('k \<times> 'a list) list \<Rightarrow> ('k \<times> 'a list) list" where
  "group_add k a m = AList.update k (map_get m k [] @ [a]) m"

fun group_by :: "('a \<Rightarrow> 'k option) \<Rightarrow> 'a list \<Rightarrow> ('k \<times> 'a list) list \<Rightarrow> ('k \<times> 'a list) list" where
  "group_by kf [] m = m"
| "group_by kf (a # as) m =
     group_by kf as (case kf a of None \<Rightarrow> m | Some k \<Rightarrow> group_add k a m)"

lemma distinct_group_by: "distinct (map fst m) \<Longrightarrow> distinct (map fst (group_by kf as m))"
  by (induction kf as m rule: group_by.induct)
    (auto simp: group_add_def distinct_update split: option.splits)

lemma map_of_group_by:
  "map_get (group_by kf as m) k [] = map_get m k [] @ filter (\<lambda>a. kf a = Some k) as"
  by (induction kf as m rule: group_by.induct)
    (auto simp: group_add_def map_get_def update_conv' split: option.splits)

lemma group_by_nonempty:
  "\<forall>g \<in> set m. snd g \<noteq> [] \<Longrightarrow> g \<in> set (group_by kf as m) \<Longrightarrow> snd g \<noteq> []"
proof (induction kf as m rule: group_by.induct)
  case (2 kf a as m)
  have "\<forall>g \<in> set (case kf a of None \<Rightarrow> m | Some k \<Rightarrow> group_add k a m). snd g \<noteq> []"
    using "2.prems"(1) by (auto simp: group_add_def split: option.splits dest!: set_AList_update [THEN subsetD])
  from "2.IH" [OF this] "2.prems"(2) show ?case by simp
qed auto

text \<open>The groups of a fresh map: one per key, each the filter of the input by that key.\<close>

lemma in_group_by_iff:
  "(k, g) \<in> set (group_by kf as []) \<longleftrightarrow> g = filter (\<lambda>a. kf a = Some k) as \<and> g \<noteq> []"
proof -
  let ?m = "group_by kf as []"
  have d: "distinct (map fst ?m)" by (rule distinct_group_by) simp
  have get: "map_get ?m k [] = filter (\<lambda>a. kf a = Some k) as"
    using map_of_group_by [of kf as "[]" k] by (simp add: map_get_def)
  show ?thesis
  proof
    assume mem: "(k, g) \<in> set ?m"
    with d have "map_of ?m k = Some g" by (simp add: map_of_is_SomeI)
    with get have "g = filter (\<lambda>a. kf a = Some k) as" by (simp add: map_get_def)
    with group_by_nonempty [OF _ mem] show "g = filter (\<lambda>a. kf a = Some k) as \<and> g \<noteq> []" by simp
  next
    assume g: "g = filter (\<lambda>a. kf a = Some k) as \<and> g \<noteq> []"
    with get have "map_of ?m k = Some g" by (auto simp: map_get_def split: option.splits)
    then show "(k, g) \<in> set ?m" by (rule map_of_SomeD)
  qed
qed

fun count_by :: "('a \<Rightarrow> 'k option) \<Rightarrow> 'a list \<Rightarrow> ('k \<times> nat) list \<Rightarrow> ('k \<times> nat) list" where
  \<comment> \<open>\<open>m.set(k, (m.get(k) ?? 0) + 1)\<close> over a list\<close>
  "count_by kf [] m = m"
| "count_by kf (a # as) m =
     count_by kf as (case kf a of None \<Rightarrow> m | Some k \<Rightarrow> AList.update k (map_get m k 0 + 1) m)"

lemma sum_update_count:
  "sum_list (map snd (AList.update k (Suc (map_get m k 0)) m)) = Suc (sum_list (map snd m))"
  by (induction m) (auto simp: map_get_def)

lemma sum_count_by:
  "sum_list (map snd (count_by kf as m)) = sum_list (map snd m) + length (filter (\<lambda>a. kf a \<noteq> None) as)"
proof (induction as arbitrary: m)
  case (Cons a as)
  show ?case
  proof (cases "kf a")
    case (Some k)
    have "sum_list (map snd (count_by kf (a # as) m)) =
          sum_list (map snd (count_by kf as (AList.update k (Suc (map_get m k 0)) m)))"
      by (simp add: Some)
    also have "\<dots> = Suc (sum_list (map snd m)) + length (filter (\<lambda>a. kf a \<noteq> None) as)"
      unfolding Cons.IH sum_update_count ..
    finally show ?thesis by (simp add: Some)
  qed (simp add: Cons.IH)
qed simp

lemma values_AList_update: "set (map snd (AList.update k v m)) \<subseteq> insert v (set (map snd m))"
  by (induction m) auto

lemma count_by_pos:
  "0 \<notin> set (map snd m) \<Longrightarrow> 0 \<notin> set (map snd (count_by kf as m))"
proof (induction as arbitrary: m)
  case (Cons a as)
  show ?case
  proof (cases "kf a")
    case (Some k)
    have "0 \<notin> set (map snd (AList.update k (map_get m k 0 + 1) m))"
      using values_AList_update [of k "map_get m k 0 + 1" m] Cons.prems by auto
    from Cons.IH [OF this] show ?thesis by (simp add: Some)
  qed (use Cons in simp)
qed simp

section \<open>Sums of squares\<close>

lemma sum_sq_dev:
  "sum_list (map (\<lambda>c. (of_nat c - m) ^ 2) cs) =
   of_nat (sum_list (map (\<lambda>c. c ^ 2) cs)) - 2 * m * of_nat (sum_list cs) + of_nat (length cs) * (m :: rat) ^ 2"
  by (induction cs) (simp_all add: power2_eq_square algebra_simps)

lemma sum_sq_le_sq_sum: "sum_list (map (\<lambda>c. c ^ 2) cs) \<le> sum_list cs ^ (2 :: nat)" for cs :: "nat list"
  by (induction cs) (simp_all add: power2_eq_square algebra_simps)

section \<open>Pairs of a list, in the order of the nested loops \<open>i < j\<close>\<close>

fun pairs_of :: "'a list \<Rightarrow> ('a \<times> 'a) list" where
  "pairs_of [] = []"
| "pairs_of (x # xs) = map (Pair x) xs @ pairs_of xs"

lemma set_pairs_of: "set (pairs_of xs) = {(xs ! i, xs ! j) | i j. i < j \<and> j < length xs}"
proof (induction xs)
  case (Cons x xs)
  have "{((x # xs) ! i, (x # xs) ! j) | i j. i < j \<and> j < length (x # xs)} =
        Pair x ` set xs \<union> {(xs ! i, xs ! j) | i j. i < j \<and> j < length xs}" (is "?L = ?R")
  proof
    show "?L \<subseteq> ?R"
    proof
      fix p assume "p \<in> ?L"
      then obtain i j where p: "p = ((x # xs) ! i, (x # xs) ! j)" "i < j" "j < Suc (length xs)" by auto
      then obtain j' where j: "j = Suc j'" "j' < length xs" by (cases j) auto
      show "p \<in> ?R"
        using p j by (cases i) auto
    qed
    show "?R \<subseteq> ?L"
    proof
      fix p assume "p \<in> ?R"
      then consider y where "y \<in> set xs" "p = (x, y)"
        | i j where "i < j" "j < length xs" "p = (xs ! i, xs ! j)" by auto
      then show "p \<in> ?L"
      proof cases
        case (1 y)
        then obtain j where "j < length xs" "y = xs ! j" by (auto simp: in_set_conv_nth)
        with 1 have "p = ((x # xs) ! 0, (x # xs) ! Suc j) \<and> 0 < Suc j \<and> Suc j < length (x # xs)" by simp
        then show ?thesis by blast
      next
        case (2 i j)
        then have "p = ((x # xs) ! Suc i, (x # xs) ! Suc j) \<and> Suc i < Suc j \<and> Suc j < length (x # xs)" by simp
        then show ?thesis by blast
      qed
    qed
  qed
  with Cons.IH show ?case by simp
qed simp

lemma pairs_of_memD: "(a, b) \<in> set (pairs_of xs) \<Longrightarrow> a \<in> set xs \<and> b \<in> set xs"
  by (induction xs) auto

text \<open>Two positions of a list agree on a filter exactly when they are a pair of the filtered list.\<close>

lemma pairs_of_filter: "pairs_of (filter P xs) = filter (\<lambda>(a, b). P a \<and> P b) (pairs_of xs)"
  by (induction xs) (auto simp: filter_map comp_def)

section \<open>Maps from loops\<close>

lemma absorb_conj: "(x \<longleftrightarrow> p \<or> d \<and> l) \<Longrightarrow> (l \<longleftrightarrow> k) \<Longrightarrow> (k \<Longrightarrow> d) \<Longrightarrow> (x \<longleftrightarrow> p \<or> k)"
  by blast

lemma iff_via_not: "(x \<longleftrightarrow> y) \<Longrightarrow> (z \<longleftrightarrow> \<not> y) \<Longrightarrow> (x \<longleftrightarrow> \<not> z)"
  by blast

lemma length_filter_pos: "(0 < length (filter P xs)) = (\<exists>x \<in> set xs. P x)"
  by (auto simp: filter_empty_conv)

lemma length_filter_update:
  assumes "distinct (map k xs)" "a \<in> set xs"
  shows "int (length (filter P (map (\<lambda>b. if k b = k a then f b else b) xs))) =
         int (length (filter P xs)) - of_bool (P a) + of_bool (P (f a))"
  using assms
proof (induction xs)
  case (Cons x xs)
  show ?case
  proof (cases "x = a")
    case True
    with Cons.prems(1) have "k b \<noteq> k a" if "b \<in> set xs" for b using that by (auto simp: image_iff)
    then have "map (\<lambda>b. if k b = k a then f b else b) xs = xs" by (intro map_idI) auto
    with True show ?thesis by simp
  next
    case False
    with Cons.prems have "k x \<noteq> k a" by force
    with False Cons show ?thesis by simp
  qed
qed simp

lemma concat_map_Nil_iff: "concat (map f xs) = [] \<longleftrightarrow> (\<forall>x \<in> set xs. f x = [])"
  by (auto simp: concat_eq_Nil_conv)

lemma find_some_append: "List.find P xs = Some x \<Longrightarrow> List.find P (xs @ ys) = Some x"
  by (induction xs) auto

lemma find_Some_in: "List.find P xs = Some x \<Longrightarrow> x \<in> set xs \<and> P x"
  by (auto simp: find_Some_iff in_set_conv_nth)

section \<open>Rounding and fixed-point printing\<close>

definition js_round :: "rat \<Rightarrow> int" where
  \<comment> \<open>\<open>Math.round\<close>: the nearest integer, halves upwards\<close>
  "js_round x = \<lfloor>x + 1 / 2\<rfloor>"

lemma js_round_mono: "x \<le> y \<Longrightarrow> js_round x \<le> js_round y"
  by (simp add: js_round_def floor_mono)

lemma js_round_of_int [simp]: "js_round (of_int i) = i"
  by (simp add: js_round_def) linarith

fun isqrt :: "nat \<Rightarrow> nat" where
  \<comment> \<open>integer square root, used to print a standard deviation\<close>
  "isqrt n = (if n = 0 then 0
              else let r = 2 * isqrt (n div 4) in if (r + 1) ^ 2 \<le> n then r + 1 else r)"

declare isqrt.simps [simp del]

definition pad2 :: "nat \<Rightarrow> string" where
  "pad2 n = (if n < 10 then ''0'' @ nat_str n else nat_str n)"

definition hundredths_str :: "nat \<Rightarrow> string" where
  "hundredths_str n = nat_str (n div 100) @ ''.'' @ pad2 (n mod 100)"

definition to_fixed2 :: "rat \<Rightarrow> string" where
  \<comment> \<open>\<open>x.toFixed(2)\<close> for a non-negative \<open>x\<close>: nearest hundredth, ties upwards\<close>
  "to_fixed2 x = hundredths_str (nat \<lfloor>100 * x + 1 / 2\<rfloor>)"

definition sqrt_to_fixed2 :: "rat \<Rightarrow> string" where
  \<comment> \<open>\<open>Math.sqrt(x).toFixed(2)\<close>: \<open>\<lfloor>100 s + 1/2\<rfloor> = (\<lfloor>200 s\<rfloor> + 1) div 2\<close>\<close>
  "sqrt_to_fixed2 x = hundredths_str ((isqrt (nat \<lfloor>40000 * x\<rfloor>) + 1) div 2)"

lemma isqrt_bounds: "isqrt n ^ 2 \<le> n \<and> n < (isqrt n + 1) ^ 2"
proof (induction n rule: isqrt.induct)
  case (1 n)
  show ?case
  proof (cases "n = 0")
    case True
    then show ?thesis by (simp add: isqrt.simps)
  next
    case False
    define r where "r = isqrt (n div 4)"
    from "1.IH" [OF False] have r: "r ^ 2 \<le> n div 4" "n div 4 < (r + 1) ^ 2" by (simp_all add: r_def)
    from r(1) have lo: "(2 * r) ^ 2 \<le> n" by (simp add: power2_eq_square)
    from r(2) have "n div 4 + 1 \<le> (r + 1) ^ 2" by simp
    then have hi: "n < (2 * r + 2) ^ 2" by (simp add: power2_eq_square algebra_simps)
    have "isqrt n = (if (2 * r + 1) ^ 2 \<le> n then 2 * r + 1 else 2 * r)"
      using False by (subst isqrt.simps) (simp add: Let_def r_def)
    with lo hi show ?thesis by (auto simp: not_le)
  qed
qed

end
