(* ===== verification/Timetable_Types.thy ===== *)
theory Timetable_Types
  imports Prelude_TS
begin

text \<open>
  The data of the timetable solver and of its validator
  (\<open>packages/shared/src/scheduler/types-v2.ts\<close>), field by field, and the small lookup helpers of
  \<open>packages/shared/src/scheduler/validation.ts\<close>: the period grid of a year group, the slot at a
  weekday and period, and the classroom breaks next to a period. Weekdays, period orders, counts and
  limits are \<open>int\<close>; identifiers and \<open>HH:mm\<close> times are \<open>string\<close>; nullable fields are options.
  Field names carry a prefix per record because the interfaces share field names.
\<close>

section \<open>Input\<close>

datatype period_type = Teaching | Break_supervision | Assembly | Lunch_duty | Free_period

datatype supervision_mode = Mode_none | Yard | Classroom_previous | Classroom_next

record period_slot =
  ps_weekday :: int
  ps_period_order :: int
  ps_start_time :: string
  ps_end_time :: string
  ps_period_type :: period_type
  ps_supervision_mode :: supervision_mode
  ps_break_group_id :: "string option"

record section_input =
  sec_class_id :: string
  sec_class_name :: string
  sec_student_count :: "int option"

record year_group_input =
  yg_id :: string
  yg_name :: string
  yg_sections :: "section_input list"
  yg_period_grid :: "period_slot list"

record curriculum_entry =
  cur_year_group_id :: string
  cur_subject_id :: string
  cur_subject_name :: string
  cur_min_periods_per_week :: int
  cur_max_periods_per_day :: int
  cur_preferred_periods_per_week :: "int option"
  cur_requires_double_period :: bool
  cur_double_period_count :: "int option"
  cur_required_room_type :: "string option"
  cur_preferred_room_id :: "string option"
  cur_class_id :: "string option"

record teacher_competency =
  comp_subject_id :: string
  comp_year_group_id :: string
  comp_class_id :: "string option"

record availability_window =
  av_weekday :: int
  av_from :: string
  av_to :: string

datatype preference_type = Pref_subject | Pref_class | Pref_time_slot

datatype pref_priority = Low | Medium | High

text \<open>
  \<open>preference_payload\<close> is \<open>unknown\<close> in the interface and is cast to the shape of a time slot by the
  only reader in the modelled code; the record is that shape, an absent member being \<open>None\<close>.
\<close>

record slot_payload =
  pay_weekday :: "int option"
  pay_period_order :: "int option"
  pay_preferred :: "bool option"

record teacher_preference =
  pref_id :: string
  pref_type :: preference_type
  pref_payload :: slot_payload
  pref_prio :: pref_priority

record teacher_input =
  tch_id :: string
  tch_name :: string
  tch_competencies :: "teacher_competency list"
  tch_availability :: "availability_window list"
  tch_preferences :: "teacher_preference list"
  tch_max_periods_per_week :: "int option"
  tch_max_periods_per_day :: "int option"
  tch_max_supervision_duties_per_week :: "int option"

record break_group_input =
  bg_id :: string
  bg_name :: string
  bg_year_group_ids :: "string list"
  bg_required_supervisor_count :: int

record room_info =
  room_id :: string
  room_type :: string
  room_capacity :: "int option"
  room_is_exclusive :: bool

record room_closure =
  rc_room_id :: string
  rc_date_from :: string
  rc_date_to :: string

record pinned_entry =
  pin_schedule_id :: string
  pin_class_id :: string
  pin_subject_id :: "string option"
  pin_year_group_id :: "string option"
  pin_room_id :: "string option"
  pin_teacher_staff_id :: "string option"
  pin_weekday :: int
  pin_period_order :: int

record student_overlap =
  ov_class_id_a :: string
  ov_class_id_b :: string

record preference_weights =
  pw_low :: rat
  pw_medium :: rat
  pw_high :: rat

record global_soft_weights =
  gw_even_subject_spread :: rat
  gw_minimise_teacher_gaps :: rat
  gw_room_consistency :: rat
  gw_workload_balance :: rat
  gw_break_duty_balance :: rat

record solver_settings =
  set_max_solver_duration_seconds :: rat
  set_preference_weights :: preference_weights
  set_global_soft_weights :: global_soft_weights
  set_solver_seed :: "int option"
  set_num_search_workers :: "int option"

record class_room_override =
  cro_class_id :: string
  cro_subject_id :: "string option"
  cro_preferred_room_id :: "string option"
  cro_required_room_type :: "string option"

record class_subject_override_audit =
  csa_class_id :: string
  csa_subject_id :: string
  csa_baseline_periods :: "int option"
  csa_override_periods :: int

record solver_input =
  inp_year_groups :: "year_group_input list"
  inp_curriculum :: "curriculum_entry list"
  inp_teachers :: "teacher_input list"
  inp_rooms :: "room_info list"
  inp_room_closures :: "room_closure list"
  inp_break_groups :: "break_group_input list"
  inp_pinned_entries :: "pinned_entry list"
  inp_student_overlaps :: "student_overlap list"
  inp_class_room_overrides :: "class_room_override list option"
  inp_overrides_applied :: "class_subject_override_audit list option"
  inp_settings :: solver_settings

section \<open>Output\<close>

record pref_satisfaction =
  sat_preference_id :: string
  sat_teacher_staff_id :: string
  sat_satisfied :: bool
  sat_weight :: rat

record assignment =
  asg_class_id :: string
  asg_subject_id :: "string option"
  asg_year_group_id :: string
  asg_room_id :: "string option"
  asg_teacher :: "string option"
  asg_weekday :: int
  asg_period_order :: int
  asg_start_time :: string
  asg_end_time :: string
  asg_is_pinned :: bool
  asg_break_group_id :: "string option"
  asg_is_supervision :: bool
  asg_preference_satisfaction :: "pref_satisfaction list"

datatype tier = Tier1 | Tier2 | Tier3

record cell =
  cell_year_group_id :: string
  cell_weekday :: int
  cell_period_order :: int

record related_entities =
  rel_teacher_staff_id :: "string option"
  rel_teacher_name :: "string option"
  rel_subject_id :: "string option"
  rel_subject_name :: "string option"
  rel_class_id :: "string option"
  rel_room_id :: "string option"
  rel_break_group_id :: "string option"

definition no_related :: related_entities where
  "no_related = \<lparr>rel_teacher_staff_id = None, rel_teacher_name = None, rel_subject_id = None,
     rel_subject_name = None, rel_class_id = None, rel_room_id = None, rel_break_group_id = None\<rparr>"

record violation =
  v_tier :: tier
  v_category :: string
  v_message :: string
  v_cells :: "cell list"
  v_related :: "related_entities option"

record tier_summary =
  sum_tier1 :: nat
  sum_tier2 :: nat
  sum_tier3 :: nat

record validation_result =
  res_violations :: "violation list"
  res_health_score :: int
  res_summary :: tier_summary
  res_cell_violations :: "(string \<times> violation list) list"

section \<open>Helpers of the validator\<close>

text \<open>\<open>Array.prototype.sort\<close> with a numeric comparator is stable, and so is \<open>sort_key\<close>.\<close>

definition sorted_day_slots :: "period_slot list \<Rightarrow> int \<Rightarrow> period_slot list" where
  "sorted_day_slots grid w = sort_key ps_period_order (filter (\<lambda>p. ps_weekday p = w) grid)"

fun find_index :: "('a \<Rightarrow> bool) \<Rightarrow> 'a list \<Rightarrow> nat option" where
  \<comment> \<open>\<open>findIndex\<close>, with \<open>None\<close> for \<open>-1\<close>\<close>
  "find_index P [] = None"
| "find_index P (x # xs) = (if P x then Some 0 else map_option Suc (find_index P xs))"

definition nth_opt :: "'a list \<Rightarrow> nat \<Rightarrow> 'a option" where
  \<comment> \<open>an out-of-range array read is \<open>undefined\<close>\<close>
  "nth_opt xs i = (if i < length xs then Some (xs ! i) else None)"

definition prev_opt :: "'a list \<Rightarrow> nat \<Rightarrow> 'a option" where
  \<comment> \<open>\<open>xs[i - 1]\<close>, \<open>undefined\<close> at \<open>i = 0\<close>\<close>
  "prev_opt xs i = (if i = 0 then None else nth_opt xs (i - 1))"

datatype direction = Before | After

definition findAdjacentBreaks :: "period_slot list \<Rightarrow> int \<Rightarrow> int \<Rightarrow> (period_slot \<times> direction) list" where
  "findAdjacentBreaks grid w po =
     (let daySlots = sorted_day_slots grid w
      in case find_index (\<lambda>s. ps_period_order s = po) daySlots of
           None \<Rightarrow> []
         | Some i \<Rightarrow>
             (case nth_opt daySlots (i + 1) of
                Some s \<Rightarrow> if ps_supervision_mode s = Classroom_previous then [(s, After)] else []
              | None \<Rightarrow> []) @
             (case prev_opt daySlots i of
                Some s \<Rightarrow> if ps_supervision_mode s = Classroom_next then [(s, Before)] else []
              | None \<Rightarrow> []))"

definition getYearGroupGrid :: "solver_input \<Rightarrow> string \<Rightarrow> period_slot list" where
  "getYearGroupGrid inp ygid =
     (case List.find (\<lambda>y. yg_id y = ygid) (inp_year_groups inp) of
        None \<Rightarrow> [] | Some yg \<Rightarrow> yg_period_grid yg)"

definition getSlot :: "period_slot list \<Rightarrow> int \<Rightarrow> int \<Rightarrow> period_slot option" where
  "getSlot grid w po = List.find (\<lambda>p. ps_weekday p = w \<and> ps_period_order p = po) grid"

definition cellKey :: "string \<Rightarrow> int \<Rightarrow> int \<Rightarrow> string" where
  "cellKey ygid w po = key3 ygid w po"

definition makeViolation ::
  "tier \<Rightarrow> string \<Rightarrow> string \<Rightarrow> cell list \<Rightarrow> related_entities option \<Rightarrow> violation" where
  "makeViolation t cat msg cells related =
     \<lparr>v_tier = t, v_category = cat, v_message = msg, v_cells = cells, v_related = related\<rparr>"

definition asg_cell :: "assignment \<Rightarrow> cell" where
  \<comment> \<open>the object literal \<open>{year_group_id, weekday, period_order}\<close> the checks build from an entry\<close>
  "asg_cell a = \<lparr>cell_year_group_id = asg_year_group_id a, cell_weekday = asg_weekday a,
                 cell_period_order = asg_period_order a\<rparr>"

definition asg_slot :: "solver_input \<Rightarrow> assignment \<Rightarrow> period_slot option" where
  \<comment> \<open>\<open>getSlot(getYearGroupGrid(input, a.year_group_id), a.weekday, a.period_order)\<close>\<close>
  "asg_slot inp a = getSlot (getYearGroupGrid inp (asg_year_group_id a)) (asg_weekday a) (asg_period_order a)"

definition find_year_group :: "solver_input \<Rightarrow> string \<Rightarrow> year_group_input option" where
  "find_year_group inp ygid = List.find (\<lambda>y. yg_id y = ygid) (inp_year_groups inp)"

definition find_teacher :: "solver_input \<Rightarrow> string option \<Rightarrow> teacher_input option" where
  "find_teacher inp tid = List.find (\<lambda>t. Some (tch_id t) = tid) (inp_teachers inp)"

definition find_room :: "solver_input \<Rightarrow> string option \<Rightarrow> room_info option" where
  "find_room inp rid = List.find (\<lambda>r. Some (room_id r) = rid) (inp_rooms inp)"

definition nullish :: "string option \<Rightarrow> string \<Rightarrow> string" where
  \<comment> \<open>\<open>s ?? d\<close>\<close>
  "nullish s d = (case s of None \<Rightarrow> d | Some t \<Rightarrow> t)"

lemma find_index_Some:
  "find_index P xs = Some i \<Longrightarrow> i < length xs \<and> P (xs ! i) \<and> (\<forall>j < i. \<not> P (xs ! j))"
proof (induction xs arbitrary: i)
  case (Cons x xs)
  then show ?case
    by (auto split: if_splits simp: nth_Cons split: nat.splits)
qed simp

lemma find_index_None: "find_index P xs = None \<longleftrightarrow> (\<forall>x \<in> set xs. \<not> P x)"
  by (induction xs) auto

lemma makeViolation_simps [simp]:
  "v_tier (makeViolation t c m cs r) = t" "v_category (makeViolation t c m cs r) = c"
  "v_cells (makeViolation t c m cs r) = cs" "v_related (makeViolation t c m cs r) = r"
  "v_message (makeViolation t c m cs r) = m"
  by (simp_all add: makeViolation_def)

lemma asg_cell_simps [simp]:
  "cell_year_group_id (asg_cell a) = asg_year_group_id a" "cell_weekday (asg_cell a) = asg_weekday a"
  "cell_period_order (asg_cell a) = asg_period_order a"
  by (simp_all add: asg_cell_def)

end
