(* ===== verification/Timetable_Clashes.thy ===== *)
theory Timetable_Clashes
  imports Timetable_Types
begin

text \<open>
  The three checks of \<open>validation.ts\<close> that look for two entries of one timetable at the same time:
  \<open>checkTier1TeacherDoubleBooking\<close>, \<open>checkTier2RoomDoubleBooking\<close> and \<open>checkTier2StudentOverlap\<close>.
  All three run over pairs of entries, compare the two slots' times, and push at most one violation
  per unordered pair of cells, remembered in a set \<open>flagged\<close> of string keys. The loop is \<open>scan_pairs\<close>;
  what it returns is proved once in the locale \<open>clash_scan\<close>, whose law is that the grouping key
  separates exactly the entries that use the same resource on the same day.
\<close>

section \<open>The scan with a flagged set\<close>

fun scan_pairs ::
  "('p \<Rightarrow> bool) \<Rightarrow> ('p \<Rightarrow> string) \<Rightarrow> ('p \<Rightarrow> 'v) \<Rightarrow> 'p list \<Rightarrow> string list \<times> 'v list \<Rightarrow> string list \<times> 'v list" where
  "scan_pairs hit pk mk [] st = st"
| "scan_pairs hit pk mk (p # ps) (flagged, vs) =
     scan_pairs hit pk mk ps
       (if hit p \<and> pk p \<notin> set flagged then (pk p # flagged, vs @ [mk p]) else (flagged, vs))"

fun first_hits :: "('p \<Rightarrow> bool) \<Rightarrow> ('p \<Rightarrow> string) \<Rightarrow> string list \<Rightarrow> 'p list \<Rightarrow> 'p list" where
  \<comment> \<open>the pairs for which the loop pushes\<close>
  "first_hits hit pk fl [] = []"
| "first_hits hit pk fl (p # ps) =
     (if hit p \<and> pk p \<notin> set fl then p # first_hits hit pk (pk p # fl) ps else first_hits hit pk fl ps)"

lemma scan_pairs_eq:
  "snd (scan_pairs hit pk mk ps (fl, vs)) = vs @ map mk (first_hits hit pk fl ps)"
  by (induction ps arbitrary: fl vs) auto

lemma first_hits_sub: "p \<in> set (first_hits hit pk fl ps) \<Longrightarrow> p \<in> set ps \<and> hit p \<and> pk p \<notin> set fl"
proof (induction ps arbitrary: fl)
  case (Cons r ps)
  then show ?case by (cases "hit r \<and> pk r \<notin> set fl") (fastforce split: if_splits)+
qed simp

lemma first_hits_cover:
  "p \<in> set ps \<Longrightarrow> hit p \<Longrightarrow> pk p \<notin> set fl \<Longrightarrow> \<exists>q \<in> set (first_hits hit pk fl ps). pk q = pk p"
proof (induction ps arbitrary: fl)
  case (Cons r ps)
  show ?case
  proof (cases "hit r \<and> pk r \<notin> set fl")
    case True
    then show ?thesis using Cons by (cases "pk p = pk r") auto
  next
    case False
    with Cons.prems have "p \<in> set ps" by auto
    with Cons.IH [of fl] Cons.prems False show ?thesis by auto
  qed
qed simp

lemma first_hits_distinct: "distinct (map pk (first_hits hit pk fl ps))"
proof (induction ps arbitrary: fl)
  case (Cons r ps)
  have "pk r \<notin> pk ` set (first_hits hit pk (pk r # fl) ps)"
    using first_hits_sub [of _ hit pk "pk r # fl" ps] by force
  with Cons show ?case by simp
qed simp

lemma first_hits_Nil_iff: "first_hits hit pk [] ps = [] \<longleftrightarrow> (\<forall>p \<in> set ps. \<not> hit p)"
  using first_hits_sub [of _ hit pk "[]" ps] first_hits_cover [of _ ps hit pk "[]"]
  by (metis empty_iff list.set(1) list.set_intros(1) neq_Nil_conv)

section \<open>Interface: entries grouped by resource and day\<close>

definition grouped_pairs :: "('a \<Rightarrow> string option) \<Rightarrow> 'a list \<Rightarrow> ('a \<times> 'a) list" where
  "grouped_pairs kf xs = concat (map (\<lambda>(k, day). pairs_of day) (group_by kf xs []))"

lemma grouped_pairs_iff:
  "(a, b) \<in> set (grouped_pairs kf xs) \<longleftrightarrow>
   (\<exists>i j. i < j \<and> j < length xs \<and> a = xs ! i \<and> b = xs ! j \<and> kf a \<noteq> None \<and> kf a = kf b)"
proof -
  have "(a, b) \<in> set (grouped_pairs kf xs) \<longleftrightarrow>
        (\<exists>k. (a, b) \<in> set (pairs_of (filter (\<lambda>c. kf c = Some k) xs)))"
  proof
    assume "(a, b) \<in> set (grouped_pairs kf xs)"
    then obtain k g where "(k, g) \<in> set (group_by kf xs [])" "(a, b) \<in> set (pairs_of g)"
      by (auto simp: grouped_pairs_def)
    then show "\<exists>k. (a, b) \<in> set (pairs_of (filter (\<lambda>c. kf c = Some k) xs))"
      by (auto simp: in_group_by_iff)
  next
    assume "\<exists>k. (a, b) \<in> set (pairs_of (filter (\<lambda>c. kf c = Some k) xs))"
    then obtain k where k: "(a, b) \<in> set (pairs_of (filter (\<lambda>c. kf c = Some k) xs))" by blast
    then have "(k, filter (\<lambda>c. kf c = Some k) xs) \<in> set (group_by kf xs [])"
      by (auto simp: in_group_by_iff)
    with k show "(a, b) \<in> set (grouped_pairs kf xs)"
      unfolding grouped_pairs_def by force
  qed
  also have "\<dots> \<longleftrightarrow> (a, b) \<in> set (pairs_of xs) \<and> kf a \<noteq> None \<and> kf a = kf b"
    by (auto simp: pairs_of_filter)
  finally show ?thesis by (auto simp: set_pairs_of)
qed

locale clash_scan =
  fixes kf :: "'a \<Rightarrow> string option"
    and same :: "'a \<Rightarrow> 'a \<Rightarrow> bool"
    and hit :: "'a \<times> 'a \<Rightarrow> bool"
    and pk :: "'a \<times> 'a \<Rightarrow> string"
    and mk :: "'a \<times> 'a \<Rightarrow> 'v"
  assumes key_same: "kf a \<noteq> None \<and> kf a = kf b \<longleftrightarrow> same a b"
begin

definition clash :: "'a \<Rightarrow> 'a \<Rightarrow> bool" where
  "clash a b \<longleftrightarrow> same a b \<and> hit (a, b)"

definition report :: "'a list \<Rightarrow> 'v list" where
  "report xs = snd (scan_pairs hit pk mk (grouped_pairs kf xs) ([], []))"

lemma candidate_iff:
  "(a, b) \<in> set (grouped_pairs kf xs) \<longleftrightarrow>
   (\<exists>i j. i < j \<and> j < length xs \<and> a = xs ! i \<and> b = xs ! j \<and> same a b)"
  by (metis grouped_pairs_iff key_same)

lemma report_eq: "report xs = map mk (first_hits hit pk [] (grouped_pairs kf xs))"
  by (simp add: report_def scan_pairs_eq)

lemma report_empty_iff:
  "report xs = [] \<longleftrightarrow> (\<forall>i j. i < j \<longrightarrow> j < length xs \<longrightarrow> \<not> clash (xs ! i) (xs ! j))"
  unfolding report_eq map_is_Nil_conv first_hits_Nil_iff clash_def
  by (metis candidate_iff old.prod.exhaust)

lemma report_sound:
  assumes "v \<in> set (report xs)"
  shows "\<exists>i j. i < j \<and> j < length xs \<and> clash (xs ! i) (xs ! j) \<and> v = mk (xs ! i, xs ! j)"
proof -
  from assms obtain a b where ab: "(a, b) \<in> set (first_hits hit pk [] (grouped_pairs kf xs))" "v = mk (a, b)"
    by (auto simp: report_eq)
  then have "(a, b) \<in> set (grouped_pairs kf xs)" "hit (a, b)" by (auto dest: first_hits_sub)
  with ab(2) show ?thesis unfolding candidate_iff clash_def by metis
qed

lemma report_cover:
  assumes "i < j" "j < length xs" "clash (xs ! i) (xs ! j)"
  shows "\<exists>k l. k < l \<and> l < length xs \<and> clash (xs ! k) (xs ! l) \<and>
           pk (xs ! k, xs ! l) = pk (xs ! i, xs ! j) \<and> mk (xs ! k, xs ! l) \<in> set (report xs)"
proof -
  have "(xs ! i, xs ! j) \<in> set (grouped_pairs kf xs)" "hit (xs ! i, xs ! j)"
    using assms by (auto simp: candidate_iff clash_def)
  with first_hits_cover [of "(xs ! i, xs ! j)" "grouped_pairs kf xs" hit pk "[]"]
  obtain a b where ab: "(a, b) \<in> set (first_hits hit pk [] (grouped_pairs kf xs))" "pk (a, b) = pk (xs ! i, xs ! j)"
    by auto
  then have "(a, b) \<in> set (grouped_pairs kf xs)" "hit (a, b)" "mk (a, b) \<in> set (report xs)"
    by (auto dest: first_hits_sub simp: report_eq)
  with ab(2) show ?thesis unfolding candidate_iff clash_def by metis
qed

lemma length_report:
  "length (report xs) = card {pk (xs ! i, xs ! j) | i j. i < j \<and> j < length xs \<and> clash (xs ! i) (xs ! j)}"
proof -
  let ?fs = "first_hits hit pk [] (grouped_pairs kf xs)"
  have "length (report xs) = length (map pk ?fs)" by (simp add: report_eq)
  also have "\<dots> = card (set (map pk ?fs))"
    by (rule distinct_card [symmetric]) (rule first_hits_distinct)
  also have "set (map pk ?fs) = pk ` {p \<in> set (grouped_pairs kf xs). hit p}"
    using first_hits_sub [of _ hit pk "[]"] first_hits_cover [of _ _ hit pk "[]"] by (auto simp: image_iff) metis
  also have "\<dots> = {pk (xs ! i, xs ! j) | i j. i < j \<and> j < length xs \<and> clash (xs ! i) (xs ! j)}"
    unfolding clash_def by (auto simp: image_iff candidate_iff) blast+
  finally show ?thesis .
qed

end

section \<open>The model of the three checks\<close>

definition slots_overlap :: "period_slot \<Rightarrow> period_slot \<Rightarrow> bool" where
  "slots_overlap s t \<longleftrightarrow> ps_start_time s < ps_end_time t \<and> ps_start_time t < ps_end_time s"

definition entries_overlap :: "solver_input \<Rightarrow> assignment \<Rightarrow> assignment \<Rightarrow> bool" where
  \<comment> \<open>both slots exist in their year group's grid, and their times overlap\<close>
  "entries_overlap inp a b =
     (case asg_slot inp a of None \<Rightarrow> False
      | Some s \<Rightarrow> (case asg_slot inp b of None \<Rightarrow> False | Some t \<Rightarrow> slots_overlap s t))"

definition cell_pair_key :: "assignment \<times> assignment \<Rightarrow> string" where
  "cell_pair_key = (\<lambda>(a, b). sorted_join
     (key3 (asg_year_group_id a) (asg_weekday a) (asg_period_order a))
     (key3 (asg_year_group_id b) (asg_weekday b) (asg_period_order b)))"

definition day_key :: "string option \<Rightarrow> int \<Rightarrow> string option" where
  \<comment> \<open>\<open>if (!id) continue; const key = `${id}:${weekday}`\<close>\<close>
  "day_key s w = (if truthy s then Some (key2 (the s) w) else None)"

definition teacher_violation :: "solver_input \<Rightarrow> assignment \<times> assignment \<Rightarrow> violation" where
  "teacher_violation inp = (\<lambda>(a, b).
     let teacher = find_teacher inp (asg_teacher a);
         tname = map_option tch_name teacher;
         st = (case asg_slot inp a of Some s \<Rightarrow> ps_start_time s | None \<Rightarrow> []);
         en = (case asg_slot inp a of Some s \<Rightarrow> ps_end_time s | None \<Rightarrow> [])
     in makeViolation Tier1 ''teacher_double_booking''
          (nullish tname (nullish (asg_teacher a) ''null'') @ '' is double-booked at '' @ st @ ''-'' @ en @
           '' on weekday '' @ int_str (asg_weekday a))
          [asg_cell a, asg_cell b]
          (Some (no_related\<lparr>rel_teacher_staff_id := asg_teacher a, rel_teacher_name := tname\<rparr>)))"

definition checkTier1TeacherDoubleBooking :: "solver_input \<Rightarrow> assignment list \<Rightarrow> violation list" where
  "checkTier1TeacherDoubleBooking inp asgs =
     snd (scan_pairs (\<lambda>(a, b). entries_overlap inp a b) cell_pair_key (teacher_violation inp)
            (grouped_pairs (\<lambda>a. day_key (asg_teacher a) (asg_weekday a)) asgs) ([], []))"

definition room_hit :: "solver_input \<Rightarrow> assignment \<times> assignment \<Rightarrow> bool" where
  "room_hit inp = (\<lambda>(a, b).
     (case find_room inp (asg_room_id a) of
        None \<Rightarrow> False
      | Some r \<Rightarrow> room_is_exclusive r \<and> entries_overlap inp a b))"

definition room_violation :: "assignment \<times> assignment \<Rightarrow> violation" where
  "room_violation = (\<lambda>(a, b).
     makeViolation Tier2 ''room_double_booking''
       (''Room '' @ nullish (asg_room_id a) ''null'' @ '' is double-booked at weekday '' @
        int_str (asg_weekday a) @ '' period '' @ int_str (asg_period_order a))
       [asg_cell a, asg_cell b]
       (Some (no_related\<lparr>rel_room_id := asg_room_id a\<rparr>)))"

definition checkTier2RoomDoubleBooking :: "solver_input \<Rightarrow> assignment list \<Rightarrow> violation list" where
  "checkTier2RoomDoubleBooking inp asgs =
     snd (scan_pairs (room_hit inp) cell_pair_key room_violation
            (grouped_pairs (\<lambda>a. day_key (asg_room_id a) (asg_weekday a)) asgs) ([], []))"

definition class_entries :: "string \<Rightarrow> assignment list \<Rightarrow> assignment list" where
  "class_entries cid asgs = filter (\<lambda>a. asg_class_id a = cid \<and> \<not> asg_is_supervision a) asgs"

definition overlap_hit :: "solver_input \<Rightarrow> student_overlap \<times> assignment \<times> assignment \<Rightarrow> bool" where
  "overlap_hit inp = (\<lambda>(ov, a, b). asg_weekday a = asg_weekday b \<and> entries_overlap inp a b)"

definition class_pair_key :: "student_overlap \<times> assignment \<times> assignment \<Rightarrow> string" where
  "class_pair_key = (\<lambda>(ov, a, b). sorted_join
     (key3 (asg_class_id a) (asg_weekday a) (asg_period_order a))
     (key3 (asg_class_id b) (asg_weekday b) (asg_period_order b)))"

definition overlap_violation :: "student_overlap \<times> assignment \<times> assignment \<Rightarrow> violation" where
  "overlap_violation = (\<lambda>(ov, a, b).
     makeViolation Tier2 ''student_overlap''
       (''Classes '' @ ov_class_id_a ov @ '' and '' @ ov_class_id_b ov @
        '' share students and overlap at weekday '' @ int_str (asg_weekday a))
       [asg_cell a, asg_cell b]
       (Some (no_related\<lparr>rel_class_id := Some (ov_class_id_a ov)\<rparr>)))"

definition overlap_candidates ::
  "solver_input \<Rightarrow> assignment list \<Rightarrow> (student_overlap \<times> assignment \<times> assignment) list" where
  "overlap_candidates inp asgs =
     concat (map (\<lambda>ov. concat (map (\<lambda>a. map (\<lambda>b. (ov, a, b)) (class_entries (ov_class_id_b ov) asgs))
                                  (class_entries (ov_class_id_a ov) asgs)))
                 (inp_student_overlaps inp))"

definition checkTier2StudentOverlap :: "solver_input \<Rightarrow> assignment list \<Rightarrow> violation list" where
  "checkTier2StudentOverlap inp asgs =
     snd (scan_pairs (overlap_hit inp) class_pair_key overlap_violation (overlap_candidates inp asgs) ([], []))"

section \<open>What the checks decide\<close>

text \<open>The clashes themselves, in terms of the timetable and not of the scan.\<close>

definition same_resource_day :: "(assignment \<Rightarrow> string option) \<Rightarrow> assignment \<Rightarrow> assignment \<Rightarrow> bool" where
  "same_resource_day res a b \<longleftrightarrow> truthy (res a) \<and> res a = res b \<and> asg_weekday a = asg_weekday b"

definition teacher_clash :: "solver_input \<Rightarrow> assignment \<Rightarrow> assignment \<Rightarrow> bool" where
  "teacher_clash inp a b \<longleftrightarrow> same_resource_day asg_teacher a b \<and> entries_overlap inp a b"

definition room_clash :: "solver_input \<Rightarrow> assignment \<Rightarrow> assignment \<Rightarrow> bool" where
  "room_clash inp a b \<longleftrightarrow> same_resource_day asg_room_id a b \<and> entries_overlap inp a b \<and>
     (\<exists>r. find_room inp (asg_room_id a) = Some r \<and> room_is_exclusive r)"

lemma day_key_same:
  "day_key (res a) (asg_weekday a) \<noteq> None \<and>
   day_key (res a) (asg_weekday a) = day_key (res b) (asg_weekday b) \<longleftrightarrow> same_resource_day res a b"
  by (auto simp: day_key_def same_resource_day_def key2_inj truthy_def split: option.splits if_splits)

interpretation teacher_scan: clash_scan
  "\<lambda>a. day_key (asg_teacher a) (asg_weekday a)" "same_resource_day asg_teacher"
  "\<lambda>(a, b). entries_overlap inp a b" cell_pair_key "teacher_violation inp" for inp
  by unfold_locales (rule day_key_same)

interpretation room_scan: clash_scan
  "\<lambda>a. day_key (asg_room_id a) (asg_weekday a)" "same_resource_day asg_room_id"
  "room_hit inp" cell_pair_key room_violation for inp
  by unfold_locales (rule day_key_same)

lemma teacher_report: "checkTier1TeacherDoubleBooking inp asgs = teacher_scan.report inp asgs"
  by (simp add: checkTier1TeacherDoubleBooking_def teacher_scan.report_def)

lemma teacher_scan_clash: "teacher_scan.clash inp a b = teacher_clash inp a b"
  by (simp add: teacher_scan.clash_def teacher_clash_def)

lemma room_report: "checkTier2RoomDoubleBooking inp asgs = room_scan.report inp asgs"
  by (simp add: checkTier2RoomDoubleBooking_def room_scan.report_def)

lemma room_scan_clash: "room_scan.clash inp a b = room_clash inp a b"
  unfolding room_scan.clash_def by (auto simp: room_clash_def room_hit_def split: option.splits)

text \<open>The tier 1 check returns no violation exactly when no teacher is double-booked: no two entries
  of the timetable share a (non-empty) teacher and a weekday while their slots overlap in time. The
  grouping by string key and the \<open>flagged\<close> set lose no clash.\<close>

lemma tier1_empty_iff_no_double_booking:
  "checkTier1TeacherDoubleBooking inp asgs = [] \<longleftrightarrow>
   \<not> (\<exists>i j. i < j \<and> j < length asgs \<and> teacher_clash inp (asgs ! i) (asgs ! j))"
  unfolding teacher_report teacher_scan.report_empty_iff teacher_scan_clash by blast

text \<open>How many tier 1 violations are reported. One per unordered pair of timetable cells that some
  teacher clash occupies, so never one for the same pair of cells twice.\<close>

theorem tier1_count_is_cell_pairs:
  "length (checkTier1TeacherDoubleBooking inp asgs) =
   card {cell_pair_key (asgs ! i, asgs ! j) | i j.
         i < j \<and> j < length asgs \<and> teacher_clash inp (asgs ! i) (asgs ! j)}"
  unfolding teacher_report teacher_scan.length_report teacher_scan_clash ..

text \<open>Every tier 1 violation names a real clash and carries the two cells of it.\<close>

lemma tier1_sound:
  assumes "v \<in> set (checkTier1TeacherDoubleBooking inp asgs)"
  shows "\<exists>i j. i < j \<and> j < length asgs \<and> teacher_clash inp (asgs ! i) (asgs ! j) \<and>
           v = teacher_violation inp (asgs ! i, asgs ! j)"
  using teacher_scan.report_sound [of v inp asgs] assms
  unfolding teacher_report teacher_scan_clash by blast

text \<open>The room check returns no violation exactly when no exclusive room holds two entries of the
  same weekday whose slots overlap in time.\<close>

lemma room_check_empty_iff_no_clash:
  "checkTier2RoomDoubleBooking inp asgs = [] \<longleftrightarrow>
   \<not> (\<exists>i j. i < j \<and> j < length asgs \<and> room_clash inp (asgs ! i) (asgs ! j))"
  unfolding room_report room_scan.report_empty_iff room_scan_clash by blast

text \<open>The student-overlap check returns no violation exactly when no declared pair of classes with
  shared students has two teaching entries of one weekday whose slots overlap.\<close>

lemma student_overlap_empty_iff:
  "checkTier2StudentOverlap inp asgs = [] \<longleftrightarrow>
   \<not> (\<exists>ov a b. ov \<in> set (inp_student_overlaps inp) \<and> a \<in> set asgs \<and> b \<in> set asgs \<and>
        asg_class_id a = ov_class_id_a ov \<and> asg_class_id b = ov_class_id_b ov \<and>
        \<not> asg_is_supervision a \<and> \<not> asg_is_supervision b \<and>
        asg_weekday a = asg_weekday b \<and> entries_overlap inp a b)"
proof -
  have "checkTier2StudentOverlap inp asgs = [] \<longleftrightarrow>
        (\<forall>p \<in> set (overlap_candidates inp asgs). \<not> overlap_hit inp p)"
    by (simp add: checkTier2StudentOverlap_def scan_pairs_eq first_hits_Nil_iff)
  then show ?thesis
    by (fastforce simp: overlap_candidates_def class_entries_def overlap_hit_def)
qed

end
