(* ===== verification/Timetable_Teachers.thy ===== *)
theory Timetable_Teachers
  imports Timetable_Types
begin

text \<open>
  The checks of \<open>validation.ts\<close> that look at one teacher at a time: availability (with the
  classroom breaks next to a lesson), competency, daily and weekly load, time-slot preferences, gaps
  in the day, and the two imbalance checks over all teachers. Each check is the list of violations the
  code pushes, in its order; each is characterised by a predicate on the timetable.
\<close>

section \<open>Availability\<close>

fun widen :: "string \<times> string \<Rightarrow> period_slot \<times> direction \<Rightarrow> string \<times> string" where
  "widen (st, en) (s, Before) = (if ps_start_time s < st then (ps_start_time s, en) else (st, en))"
| "widen (st, en) (s, After) = (if ps_end_time s > en then (st, ps_end_time s) else (st, en))"

definition effective_range :: "period_slot list \<Rightarrow> assignment \<Rightarrow> period_slot \<Rightarrow> string \<times> string" where
  "effective_range grid a slot =
     (if asg_is_supervision a then (ps_start_time slot, ps_end_time slot)
      else foldl widen (ps_start_time slot, ps_end_time slot)
             (findAdjacentBreaks grid (asg_weekday a) (asg_period_order a)))"

definition availability_violations :: "solver_input \<Rightarrow> assignment \<Rightarrow> violation list" where
  "availability_violations inp a =
     (if \<not> truthy (asg_teacher a) then []
      else case find_teacher inp (asg_teacher a) of
        None \<Rightarrow> []
      | Some t \<Rightarrow>
          if tch_availability t = [] then []
          else
            let grid = getYearGroupGrid inp (asg_year_group_id a);
                related = Some (no_related\<lparr>rel_teacher_staff_id := asg_teacher a,
                                           rel_teacher_name := Some (tch_name t)\<rparr>)
            in case getSlot grid (asg_weekday a) (asg_period_order a) of
                 None \<Rightarrow> []
               | Some slot \<Rightarrow>
                   let (effStart, effEnd) = effective_range grid a slot;
                       dayAvail = filter (\<lambda>av. av_weekday av = asg_weekday a) (tch_availability t)
                   in if dayAvail = [] then
                        [makeViolation Tier2 ''teacher_availability''
                           (tch_name t @ '' has no availability on weekday '' @ int_str (asg_weekday a))
                           [asg_cell a] related]
                      else if list_ex (\<lambda>av. av_from av \<le> effStart \<and> av_to av \<ge> effEnd) dayAvail then []
                      else
                        [makeViolation Tier2 ''teacher_availability''
                           (tch_name t @ '' is not available for '' @ effStart @ ''-'' @ effEnd @
                            '' on weekday '' @ int_str (asg_weekday a))
                           [asg_cell a] related])"

definition checkTier2TeacherAvailability :: "solver_input \<Rightarrow> assignment list \<Rightarrow> violation list" where
  "checkTier2TeacherAvailability inp asgs = concat (map (availability_violations inp) asgs)"

section \<open>Competency\<close>

definition find_curriculum :: "solver_input \<Rightarrow> string \<Rightarrow> string option \<Rightarrow> curriculum_entry option" where
  "find_curriculum inp ygid sid =
     List.find (\<lambda>c. cur_year_group_id c = ygid \<and> Some (cur_subject_id c) = sid) (inp_curriculum inp)"

definition has_competency :: "teacher_input \<Rightarrow> assignment \<Rightarrow> bool" where
  "has_competency t a = list_ex (\<lambda>c. Some (comp_subject_id c) = asg_subject_id a \<and>
                                     comp_year_group_id c = asg_year_group_id a) (tch_competencies t)"

definition competency_violations :: "solver_input \<Rightarrow> assignment \<Rightarrow> violation list" where
  "competency_violations inp a =
     (if \<not> truthy (asg_teacher a) \<or> \<not> truthy (asg_subject_id a) \<or> asg_is_supervision a then []
      else case find_teacher inp (asg_teacher a) of
        None \<Rightarrow> []
      | Some t \<Rightarrow>
          if has_competency t a then []
          else
            let subjectName = map_option cur_subject_name (find_curriculum inp (asg_year_group_id a) (asg_subject_id a))
            in [makeViolation Tier2 ''teacher_competency''
                  (tch_name t @ '' lacks competency for '' @ nullish subjectName (nullish (asg_subject_id a) ''null'') @
                   '' in year group '' @ asg_year_group_id a)
                  [asg_cell a]
                  (Some (no_related\<lparr>rel_teacher_staff_id := asg_teacher a, rel_teacher_name := Some (tch_name t),
                                    rel_subject_id := asg_subject_id a, rel_subject_name := subjectName\<rparr>))])"

definition checkTier2TeacherCompetency :: "solver_input \<Rightarrow> assignment list \<Rightarrow> violation list" where
  "checkTier2TeacherCompetency inp asgs = concat (map (competency_violations inp) asgs)"

section \<open>Daily and weekly load\<close>

definition weekdays :: "int list" where
  \<comment> \<open>\<open>for (let weekday = 0; weekday < 7; weekday++)\<close>\<close>
  "weekdays = [0, 1, 2, 3, 4, 5, 6]"

definition teaches :: "teacher_input \<Rightarrow> assignment \<Rightarrow> bool" where
  "teaches t a \<longleftrightarrow> asg_teacher a = Some (tch_id t) \<and> \<not> asg_is_supervision a"

definition teacher_related :: "teacher_input \<Rightarrow> related_entities option" where
  "teacher_related t = Some (no_related\<lparr>rel_teacher_staff_id := Some (tch_id t), rel_teacher_name := Some (tch_name t)\<rparr>)"

definition daily_load_violations :: "assignment list \<Rightarrow> teacher_input \<Rightarrow> violation list" where
  "daily_load_violations asgs t =
     (case tch_max_periods_per_day t of
        None \<Rightarrow> []
      | Some mx \<Rightarrow> concat (map (\<lambda>w.
          let dayEntries = filter (\<lambda>a. teaches t a \<and> asg_weekday a = w) asgs
          in if int (length dayEntries) > mx then
               [makeViolation Tier2 ''teacher_daily_load''
                  (tch_name t @ '' has '' @ int_str (int (length dayEntries)) @ '' teaching periods on weekday '' @
                   int_str w @ '', exceeding daily limit of '' @ int_str mx)
                  (map asg_cell dayEntries) (teacher_related t)]
             else []) weekdays))"

definition checkTier2TeacherDailyLoad :: "solver_input \<Rightarrow> assignment list \<Rightarrow> violation list" where
  "checkTier2TeacherDailyLoad inp asgs = concat (map (daily_load_violations asgs) (inp_teachers inp))"

definition weekly_load_violations :: "assignment list \<Rightarrow> teacher_input \<Rightarrow> violation list" where
  "weekly_load_violations asgs t =
     (case tch_max_periods_per_week t of
        None \<Rightarrow> []
      | Some mx \<Rightarrow>
          let weeklyEntries = filter (teaches t) asgs
          in if int (length weeklyEntries) > mx then
               [makeViolation Tier2 ''teacher_weekly_load''
                  (tch_name t @ '' has '' @ int_str (int (length weeklyEntries)) @
                   '' teaching periods this week, exceeding weekly limit of '' @ int_str mx)
                  (map asg_cell (take 5 weeklyEntries)) (teacher_related t)]
             else [])"

definition checkTier2TeacherWeeklyLoad :: "solver_input \<Rightarrow> assignment list \<Rightarrow> violation list" where
  "checkTier2TeacherWeeklyLoad inp asgs = concat (map (weekly_load_violations asgs) (inp_teachers inp))"

section \<open>Time-slot preferences\<close>

definition matches_payload :: "slot_payload \<Rightarrow> assignment \<Rightarrow> bool" where
  "matches_payload p a \<longleftrightarrow>
     (case pay_weekday p of None \<Rightarrow> True | Some w \<Rightarrow> asg_weekday a = w) \<and>
     (case pay_period_order p of None \<Rightarrow> True | Some po \<Rightarrow> asg_period_order a = po)"

definition time_slot_violations :: "assignment list \<Rightarrow> teacher_input \<Rightarrow> violation list" where
  "time_slot_violations asgs t =
     concat (map (\<lambda>pref.
       let payload = pref_payload pref;
           wantsSlot = (pay_preferred payload \<noteq> Some False);
           teacherAssignments = filter (\<lambda>a. asg_teacher a = Some (tch_id t)) asgs;
           matching = filter (matches_payload payload) teacherAssignments;
           satisfied = (if wantsSlot then length matching > 0 else length matching = 0)
       in if satisfied then []
          else [makeViolation Tier3 ''teacher_time_slot_preference''
                  (tch_name t @ [CHR 0x27] @ ''s time slot preference not honoured'')
                  (if wantsSlot
                   then [\<lparr>cell_year_group_id = (case teacherAssignments of [] \<Rightarrow> [] | a # _ \<Rightarrow> asg_year_group_id a),
                          cell_weekday = (case pay_weekday payload of None \<Rightarrow> 0 | Some w \<Rightarrow> w),
                          cell_period_order = (case pay_period_order payload of None \<Rightarrow> 0 | Some po \<Rightarrow> po)\<rparr>]
                   else map asg_cell matching)
                  (teacher_related t)])
       (filter (\<lambda>p. pref_type p = Pref_time_slot) (tch_preferences t)))"

definition checkTier3TeacherTimeSlotPreferences :: "solver_input \<Rightarrow> assignment list \<Rightarrow> violation list" where
  "checkTier3TeacherTimeSlotPreferences inp asgs = concat (map (time_slot_violations asgs) (inp_teachers inp))"

section \<open>Gaps\<close>

definition day_span :: "int list \<Rightarrow> int" where
  \<comment> \<open>\<open>last - first + 1\<close> of the sorted period orders of a day\<close>
  "day_span orders = (let s = sort orders in last s - hd s + 1)"

definition gap_totals :: "int list list \<Rightarrow> int \<times> int" where
  "gap_totals days =
     foldl (\<lambda>(totalGaps, maxPossibleGaps) orders.
              if length orders \<le> 1 then (totalGaps, maxPossibleGaps)
              else let span = day_span orders
                   in (totalGaps + (span - int (length orders)), maxPossibleGaps + (span - 1)))
           (0, 0) days"

definition gap_violations :: "assignment list \<Rightarrow> teacher_input \<Rightarrow> violation list" where
  "gap_violations asgs t =
     (let teacherAssignments = filter (\<lambda>a. asg_teacher a = Some (tch_id t)) asgs;
          byDay = group_by (\<lambda>a. Some (asg_weekday a)) teacherAssignments [];
          (totalGaps, maxPossibleGaps) = gap_totals (map (\<lambda>(w, as). map asg_period_order as) byDay)
      in if maxPossibleGaps > 0 then
           let gapScore = max 0 (1 - of_int totalGaps / of_int maxPossibleGaps :: rat)
           in if gapScore < 1 / 2 then
                [makeViolation Tier3 ''teacher_gaps''
                   (tch_name t @ '' has excessive gaps between classes (gap score: '' @ to_fixed2 gapScore @ '')'')
                   (map asg_cell (take 3 teacherAssignments)) (teacher_related t)]
              else []
         else [])"

definition checkTier3TeacherGaps :: "solver_input \<Rightarrow> assignment list \<Rightarrow> violation list" where
  "checkTier3TeacherGaps inp asgs = concat (map (gap_violations asgs) (inp_teachers inp))"

section \<open>Imbalance: coefficient of variation\<close>

definition mean :: "nat list \<Rightarrow> rat" where
  "mean counts = of_nat (sum_list counts) / of_nat (length counts)"

definition variance :: "nat list \<Rightarrow> rat" where
  "variance counts = sum_list (map (\<lambda>c. (of_nat c - mean counts) ^ 2) counts) / of_nat (length counts)"

definition cv_squared :: "nat list \<Rightarrow> rat" where
  \<comment> \<open>the square of \<open>cv = Math.sqrt(variance) / mean\<close>, which stays rational\<close>
  "cv_squared counts = variance counts / mean counts ^ 2"

definition imbalance_violations :: "string \<Rightarrow> string \<Rightarrow> nat list \<Rightarrow> violation list" where
  \<comment> \<open>the common tail of the two checks: \<open>cv > 0.5\<close>, decided on the squares\<close>
  "imbalance_violations cat msg counts =
     (if mean counts = 0 then []
      else if cv_squared counts > 1 / 4
      then [makeViolation Tier3 cat (msg @ sqrt_to_fixed2 (cv_squared counts) @ '')'') [] None]
      else [])"

definition checkTier3WorkloadImbalance :: "solver_input \<Rightarrow> assignment list \<Rightarrow> violation list" where
  "checkTier3WorkloadImbalance inp asgs =
     (if length (inp_teachers inp) \<le> 1 then []
      else imbalance_violations ''workload_imbalance'' ''Teaching workload is imbalanced across teachers (CV: ''
             (map (\<lambda>t. length (filter (teaches t) asgs)) (inp_teachers inp)))"

definition duty_counts :: "assignment list \<Rightarrow> (string \<times> nat) list" where
  "duty_counts duties = count_by (\<lambda>a. if truthy (asg_teacher a) then asg_teacher a else None) duties []"

definition checkTier3BreakDutyImbalance :: "solver_input \<Rightarrow> assignment list \<Rightarrow> violation list" where
  "checkTier3BreakDutyImbalance inp asgs =
     (let supervisionAssignments = filter asg_is_supervision asgs
      in if supervisionAssignments = [] then []
         else let counts = map snd (duty_counts supervisionAssignments)
              in if length counts \<le> 1 then []
                 else imbalance_violations ''break_duty_imbalance''
                        ''Break supervision duties are imbalanced across teachers (CV: '' counts)"

section \<open>What the checks decide\<close>

lemma widen_covered:
  "f \<le> fst (foldl widen (st, en) adj) \<and> snd (foldl widen (st, en) adj) \<le> t \<longleftrightarrow>
   f \<le> st \<and> en \<le> t \<and>
   (\<forall>(s, d) \<in> set adj. (d = Before \<longrightarrow> f \<le> ps_start_time s) \<and> (d = After \<longrightarrow> ps_end_time s \<le> t))"
proof (induction adj arbitrary: st en)
  case (Cons p adj)
  obtain s d where p: "p = (s, d)" by (cases p)
  show ?case
    by (cases d) (auto simp: p Cons.IH)
qed simp

definition window_covers :: "period_slot list \<Rightarrow> assignment \<Rightarrow> period_slot \<Rightarrow> availability_window \<Rightarrow> bool" where
  \<comment> \<open>the window holds the lesson and, for a lesson, the classroom breaks its teacher stays for\<close>
  "window_covers grid a slot av \<longleftrightarrow>
     av_weekday av = asg_weekday a \<and> av_from av \<le> ps_start_time slot \<and> ps_end_time slot \<le> av_to av \<and>
     (asg_is_supervision a \<or>
      (\<forall>(s, d) \<in> set (findAdjacentBreaks grid (asg_weekday a) (asg_period_order a)).
         (d = Before \<longrightarrow> av_from av \<le> ps_start_time s) \<and> (d = After \<longrightarrow> ps_end_time s \<le> av_to av)))"

definition unavailable :: "solver_input \<Rightarrow> assignment \<Rightarrow> bool" where
  "unavailable inp a \<longleftrightarrow>
     (\<exists>t slot. truthy (asg_teacher a) \<and> find_teacher inp (asg_teacher a) = Some t \<and>
        tch_availability t \<noteq> [] \<and> asg_slot inp a = Some slot \<and>
        \<not> (\<exists>av \<in> set (tch_availability t).
              window_covers (getYearGroupGrid inp (asg_year_group_id a)) a slot av))"

lemma effective_range_covered:
  assumes "effective_range grid a slot = (effStart, effEnd)"
  shows "av_weekday av = asg_weekday a \<and> av_from av \<le> effStart \<and> effEnd \<le> av_to av \<longleftrightarrow>
         window_covers grid a slot av"
proof (cases "asg_is_supervision a")
  case True
  with assms show ?thesis by (auto simp: effective_range_def window_covers_def)
next
  case False
  let ?adj = "findAdjacentBreaks grid (asg_weekday a) (asg_period_order a)"
  from False assms have "foldl widen (ps_start_time slot, ps_end_time slot) ?adj = (effStart, effEnd)"
    by (simp add: effective_range_def)
  with widen_covered [of "av_from av" "ps_start_time slot" "ps_end_time slot" ?adj "av_to av"] False
  show ?thesis by (simp add: window_covers_def)
qed

lemma availability_violations_iff: "availability_violations inp a = [] \<longleftrightarrow> \<not> unavailable inp a"
proof (cases "truthy (asg_teacher a)")
  case False
  then show ?thesis by (simp add: availability_violations_def unavailable_def)
next
  case True
  show ?thesis
  proof (cases "find_teacher inp (asg_teacher a)")
    case None
    then show ?thesis by (simp add: availability_violations_def unavailable_def)
  next
    case (Some t)
    let ?grid = "getYearGroupGrid inp (asg_year_group_id a)"
    show ?thesis
    proof (cases "asg_slot inp a")
      case None
      then show ?thesis using Some True
        by (simp add: availability_violations_def unavailable_def asg_slot_def)
    next
      case slot: (Some slot)
      obtain st en where r: "effective_range ?grid a slot = (st, en)" by fastforce
      let ?day = "filter (\<lambda>av. av_weekday av = asg_weekday a) (tch_availability t)"
      let ?ok = "\<exists>av \<in> set (tch_availability t). window_covers ?grid a slot av"
      have ex: "list_ex (\<lambda>av. av_from av \<le> st \<and> en \<le> av_to av) ?day \<longleftrightarrow> ?ok"
        unfolding list_ex_iff effective_range_covered [OF r, symmetric] by auto
      have slot': "getSlot ?grid (asg_weekday a) (asg_period_order a) = Some slot"
        using slot by (simp add: asg_slot_def)
      have vs: "availability_violations inp a = [] \<longleftrightarrow>
              tch_availability t = [] \<or> ?day \<noteq> [] \<and> list_ex (\<lambda>av. av_from av \<le> st \<and> en \<le> av_to av) ?day"
        using True Some slot' r by (simp add: availability_violations_def Let_def)
      have day: "?ok \<Longrightarrow> ?day \<noteq> []"
        by (auto simp: window_covers_def filter_empty_conv)
      have "availability_violations inp a = [] \<longleftrightarrow> tch_availability t = [] \<or> ?ok"
        using vs ex day by (rule absorb_conj)
      moreover have "unavailable inp a \<longleftrightarrow> \<not> (tch_availability t = [] \<or> ?ok)"
        using True Some slot by (simp add: unavailable_def)
      ultimately show ?thesis by (rule iff_via_not)
    qed
  qed
qed

text \<open>The availability check is empty exactly when every entry whose teacher has declared
  availability fits one of that teacher's windows on that weekday, the window also covering the
  classroom breaks before and after a lesson for which its teacher is responsible.\<close>

lemma availability_empty_iff_covered:
  "checkTier2TeacherAvailability inp asgs = [] \<longleftrightarrow> \<not> (\<exists>a \<in> set asgs. unavailable inp a)"
  unfolding checkTier2TeacherAvailability_def concat_map_Nil_iff availability_violations_iff by blast

lemma daily_load_iff:
  "daily_load_violations asgs t = [] \<longleftrightarrow>
   (\<forall>mx. tch_max_periods_per_day t = Some mx \<longrightarrow>
      (\<forall>w \<in> {0..6}. int (length (filter (\<lambda>a. teaches t a \<and> asg_weekday a = w) asgs)) \<le> mx))"
proof (cases "tch_max_periods_per_day t")
  case (Some mx)
  have w: "set weekdays = {0..6}" by (auto simp: weekdays_def)
  have "daily_load_violations asgs t = [] \<longleftrightarrow>
        (\<forall>w \<in> {0..6}. \<not> mx < int (length (filter (\<lambda>a. teaches t a \<and> asg_weekday a = w) asgs)))"
    unfolding daily_load_violations_def Some option.case concat_map_Nil_iff w Let_def by simp
  then show ?thesis by (simp add: Some not_less)
qed (simp add: daily_load_violations_def)

lemma weekly_load_iff:
  "weekly_load_violations asgs t = [] \<longleftrightarrow>
   (\<forall>mx. tch_max_periods_per_week t = Some mx \<longrightarrow> int (length (filter (teaches t) asgs)) \<le> mx)"
  by (cases "tch_max_periods_per_week t") (simp_all add: weekly_load_violations_def Let_def not_less)

definition within_limits :: "assignment list \<Rightarrow> teacher_input \<Rightarrow> bool" where
  "within_limits asgs t \<longleftrightarrow>
     (\<forall>mx. tch_max_periods_per_day t = Some mx \<longrightarrow>
        (\<forall>w \<in> {0..6}. int (length (filter (\<lambda>a. teaches t a \<and> asg_weekday a = w) asgs)) \<le> mx)) \<and>
     (\<forall>mx. tch_max_periods_per_week t = Some mx \<longrightarrow> int (length (filter (teaches t) asgs)) \<le> mx)"

text \<open>The two load checks are empty exactly when every teacher with a limit teaches at most that
  many periods on each of the seven weekdays and in the week, supervision duties not counted.\<close>

lemma load_checks_empty_iff_within_limits:
  "checkTier2TeacherDailyLoad inp asgs @ checkTier2TeacherWeeklyLoad inp asgs = [] \<longleftrightarrow>
   list_all (within_limits asgs) (inp_teachers inp)"
  by (auto simp: checkTier2TeacherDailyLoad_def checkTier2TeacherWeeklyLoad_def
      daily_load_iff weekly_load_iff within_limits_def list_all_iff)

lemma competency_violations_iff:
  "competency_violations inp a = [] \<longleftrightarrow>
   \<not> (truthy (asg_teacher a) \<and> truthy (asg_subject_id a) \<and> \<not> asg_is_supervision a \<and>
      (\<exists>t. find_teacher inp (asg_teacher a) = Some t \<and> \<not> has_competency t a))"
  by (cases "find_teacher inp (asg_teacher a)") (simp_all add: competency_violations_def Let_def)

subsection \<open>Coefficient of variation\<close>

lemma cv_squared_eq:
  assumes "0 < sum_list cs"
  shows "cv_squared cs = (of_nat (length cs) * of_nat (sum_list (map (\<lambda>c. c ^ 2) cs)) - of_nat (sum_list cs) ^ 2)
                         / of_nat (sum_list cs) ^ 2"
proof -
  define n S Q :: rat where "n = of_nat (length cs)" and "S = of_nat (sum_list cs)"
    and "Q = of_nat (sum_list (map (\<lambda>c. c ^ 2) cs))"
  from assms have S: "0 < S" and n: "0 < n" by (auto simp: S_def n_def intro: gr0I)
  have "variance cs = (Q - 2 * (S / n) * S + n * (S / n) ^ 2) / n"
    unfolding variance_def mean_def sum_sq_dev n_def S_def Q_def ..
  then have "cv_squared cs = (Q - 2 * (S / n) * S + n * (S / n) ^ 2) / n / (S / n) ^ 2"
    by (simp add: cv_squared_def mean_def n_def S_def)
  also have "\<dots> = (n * Q - S ^ 2) / S ^ 2"
    using S n by (simp add: field_simps power2_eq_square)
  finally show ?thesis by (simp add: n_def S_def Q_def)
qed

lemma quarter_less_div: "0 < y \<Longrightarrow> 1 / 4 < x / y \<longleftrightarrow> y / 4 < (x :: rat)"
  by (simp add: field_simps)

lemma imbalance_iff:
  "imbalance_violations cat msg cs \<noteq> [] \<longleftrightarrow>
   5 * sum_list cs ^ 2 < 4 * length cs * sum_list (map (\<lambda>c. c ^ 2) cs)"
proof (cases "sum_list cs = 0")
  case True
  then have "mean cs = 0" "sum_list (map (\<lambda>c. c ^ 2) cs) = 0"
    by (simp_all add: mean_def sum_list_eq_0_iff)
  then show ?thesis by (simp add: imbalance_violations_def True)
next
  case False
  define n S Q where "n = length cs" and "S = sum_list cs" and "Q = sum_list (map (\<lambda>c. c ^ 2) cs)"
  have S: "0 < S" using False unfolding S_def by (rule neq0_conv [THEN iffD1])
  have "cs \<noteq> []" using False by auto
  then have "mean cs \<noteq> 0" using False by (simp add: mean_def)
  then have "imbalance_violations cat msg cs \<noteq> [] \<longleftrightarrow> 1 / 4 < cv_squared cs"
    by (simp add: imbalance_violations_def)
  also have "\<dots> \<longleftrightarrow> (of_nat S :: rat) ^ 2 / 4 < of_nat n * of_nat Q - of_nat S ^ 2"
    unfolding cv_squared_eq [OF S [unfolded S_def]] n_def [symmetric] S_def [symmetric] Q_def [symmetric]
    by (rule quarter_less_div) (use S in simp)
  also have "\<dots> \<longleftrightarrow> (of_nat (5 * S ^ 2) :: rat) < of_nat (4 * n * Q)"
    by (simp add: field_simps)
  also have "\<dots> \<longleftrightarrow> 5 * S ^ 2 < 4 * n * Q" by (rule of_nat_less_iff)
  finally show ?thesis by (simp add: n_def S_def Q_def)
qed

text \<open>The comparison on squares is the code's comparison of \<open>Math.sqrt(variance) / mean\<close> with one half.\<close>

lemma cv_gt_half_iff:
  assumes "0 < mean cs" "0 \<le> variance cs"
  shows "1 / 2 < sqrt (of_rat (variance cs)) / of_rat (mean cs) \<longleftrightarrow> 1 / 4 < cv_squared cs"
proof -
  let ?v = "of_rat (variance cs) :: real" and ?m = "of_rat (mean cs) :: real"
  have m: "0 < ?m" and v: "0 \<le> ?v" using assms by simp_all
  have "1 / 2 < sqrt ?v / ?m \<longleftrightarrow> ?m / 2 < sqrt ?v" using m by (simp add: field_simps)
  also have "\<dots> \<longleftrightarrow> (?m / 2) ^ 2 < ?v" using m v by (meson less_eq_real_def half_gt_zero real_less_rsqrt real_sqrt_less_iff
        real_less_lsqrt not_less real_le_lsqrt real_le_rsqrt)
  also have "\<dots> \<longleftrightarrow> 1 / 4 < ?v / ?m ^ 2" using m by (simp add: field_simps power2_eq_square)
  also have "?v / ?m ^ 2 = of_rat (cv_squared cs)"
    by (simp add: cv_squared_def of_rat_divide of_rat_power)
  also have "1 / 4 < (of_rat (cv_squared cs) :: real) \<longleftrightarrow> 1 / 4 < cv_squared cs"
    by (metis of_rat_divide of_rat_less of_rat_numeral_eq of_rat_1)
  finally show ?thesis .
qed

text \<open>The workload check fires exactly when there are at least two teachers and five times the
  squared total of the teaching loads is below four times the number of teachers times the sum of
  squared loads, that is, when the coefficient of variation exceeds one half.\<close>

theorem workload_imbalance_iff:
  "checkTier3WorkloadImbalance inp asgs \<noteq> [] \<longleftrightarrow>
   (let loads = map (\<lambda>t. length (filter (teaches t) asgs)) (inp_teachers inp)
    in 1 < length loads \<and> 5 * sum_list loads ^ 2 < 4 * length loads * sum_list (map (\<lambda>c. c ^ 2) loads))"
proof (cases "length (inp_teachers inp) \<le> 1")
  case False
  then show ?thesis
    unfolding checkTier3WorkloadImbalance_def Let_def length_map if_not_P [OF False] imbalance_iff by simp
qed (simp add: checkTier3WorkloadImbalance_def)

end
