(* ===== verification/Timetable_Curriculum.thy ===== *)
theory Timetable_Curriculum
  imports Timetable_Teachers
begin

text \<open>
  The checks of \<open>validation.ts\<close> that run over the curriculum, class section by class section: minimum
  weekly frequency, maximum per day, longest consecutive run, isolated single periods, room type,
  preferred frequency, spread over the week, and preferred room.
\<close>

section \<open>Entries of a subject in a class\<close>

definition is_entry :: "section_input \<Rightarrow> curriculum_entry \<Rightarrow> assignment \<Rightarrow> bool" where
  "is_entry sec cur a \<longleftrightarrow> asg_class_id a = sec_class_id sec \<and>
     asg_subject_id a = Some (cur_subject_id cur) \<and> \<not> asg_is_supervision a"

definition day_entries :: "section_input \<Rightarrow> curriculum_entry \<Rightarrow> int \<Rightarrow> assignment list \<Rightarrow> assignment list" where
  "day_entries sec cur w asgs = filter (\<lambda>a. is_entry sec cur a \<and> asg_weekday a = w) asgs"

definition for_sections ::
  "solver_input \<Rightarrow> curriculum_entry \<Rightarrow> (year_group_input \<Rightarrow> section_input \<Rightarrow> violation list) \<Rightarrow> violation list" where
  \<comment> \<open>the year group of the entry, skipped when it does not exist, then its sections\<close>
  "for_sections inp cur f =
     (case find_year_group inp (cur_year_group_id cur) of
        None \<Rightarrow> [] | Some yg \<Rightarrow> concat (map (f yg) (yg_sections yg)))"

definition subject_related :: "curriculum_entry \<Rightarrow> section_input \<Rightarrow> related_entities" where
  "subject_related cur sec = no_related\<lparr>rel_subject_id := Some (cur_subject_id cur),
     rel_subject_name := Some (cur_subject_name cur), rel_class_id := Some (sec_class_id sec)\<rparr>"

definition subject_for_class :: "curriculum_entry \<Rightarrow> section_input \<Rightarrow> string" where
  "subject_for_class cur sec = cur_subject_name cur @ '' for '' @ sec_class_name sec"

section \<open>Weekly and daily frequency\<close>

definition min_frequency_violations :: "assignment list \<Rightarrow> curriculum_entry \<Rightarrow> section_input \<Rightarrow> violation list" where
  "min_frequency_violations asgs cur sec =
     (let entries = filter (is_entry sec cur) asgs; count = int (length entries)
      in if count < cur_min_periods_per_week cur then
           let cells = map asg_cell entries
           in [makeViolation Tier2 ''subject_min_frequency''
                 (subject_for_class cur sec @ '' has '' @ int_str count @ ''/'' @
                  int_str (cur_min_periods_per_week cur) @ '' required periods'')
                 (if length cells > 0 then cells
                  else [\<lparr>cell_year_group_id = cur_year_group_id cur, cell_weekday = 0, cell_period_order = 0\<rparr>])
                 (Some (subject_related cur sec))]
         else [])"

definition checkTier2SubjectMinFrequency :: "solver_input \<Rightarrow> assignment list \<Rightarrow> violation list" where
  "checkTier2SubjectMinFrequency inp asgs =
     concat (map (\<lambda>cur. for_sections inp cur (\<lambda>yg. min_frequency_violations asgs cur)) (inp_curriculum inp))"

definition max_per_day_violations :: "assignment list \<Rightarrow> curriculum_entry \<Rightarrow> section_input \<Rightarrow> int \<Rightarrow> violation list" where
  "max_per_day_violations asgs cur sec w =
     (let dayEntries = day_entries sec cur w asgs
      in if int (length dayEntries) > cur_max_periods_per_day cur then
           [makeViolation Tier2 ''subject_max_per_day''
              (subject_for_class cur sec @ '' has '' @ int_str (int (length dayEntries)) @ '' periods on weekday '' @
               int_str w @ '', exceeding max of '' @ int_str (cur_max_periods_per_day cur))
              (map asg_cell dayEntries) (Some (subject_related cur sec))]
         else [])"

definition checkTier2SubjectMaxPerDay :: "solver_input \<Rightarrow> assignment list \<Rightarrow> violation list" where
  "checkTier2SubjectMaxPerDay inp asgs =
     concat (map (\<lambda>cur. for_sections inp cur (\<lambda>yg sec.
       concat (map (max_per_day_violations asgs cur sec) weekdays))) (inp_curriculum inp))"

section \<open>Consecutive periods\<close>

definition adjacent_in :: "int list \<Rightarrow> int \<Rightarrow> int \<Rightarrow> bool" where
  \<comment> \<open>\<open>prevIdx !== -1 && currIdx !== -1 && currIdx === prevIdx + 1\<close>\<close>
  "adjacent_in slots p c =
     (case find_index (\<lambda>x. x = p) slots of
        None \<Rightarrow> False
      | Some i \<Rightarrow> (case find_index (\<lambda>x. x = c) slots of None \<Rightarrow> False | Some j \<Rightarrow> j = i + 1))"

fun run_loop :: "int list \<Rightarrow> int \<Rightarrow> int list \<Rightarrow> nat \<times> nat \<Rightarrow> nat \<times> nat" where
  \<comment> \<open>the loop over \<open>i = 1 ..\<close> with \<open>dayEntries[i - 1]\<close> carried along\<close>
  "run_loop slots prev [] st = st"
| "run_loop slots prev (c # cs) (maxRun, currentRun) =
     run_loop slots c cs
       (if adjacent_in slots prev c
        then (if currentRun + 1 > maxRun then currentRun + 1 else maxRun, currentRun + 1)
        else (maxRun, 1))"

definition max_run :: "int list \<Rightarrow> int list \<Rightarrow> nat" where
  "max_run slots orders = (case orders of [] \<Rightarrow> 1 | p # cs \<Rightarrow> fst (run_loop slots p cs (1, 1)))"

definition teaching_orders :: "period_slot list \<Rightarrow> int \<Rightarrow> int list" where
  "teaching_orders grid w =
     sort (map ps_period_order (filter (\<lambda>p. ps_weekday p = w \<and> ps_period_type p = Teaching) grid))"

definition sorted_orders :: "section_input \<Rightarrow> curriculum_entry \<Rightarrow> int \<Rightarrow> assignment list \<Rightarrow> int list" where
  "sorted_orders sec cur w asgs = sort (map asg_period_order (day_entries sec cur w asgs))"

definition cell_at :: "string \<Rightarrow> int \<Rightarrow> int \<Rightarrow> cell" where
  "cell_at ygid w po = \<lparr>cell_year_group_id = ygid, cell_weekday = w, cell_period_order = po\<rparr>"

definition max_consecutive_violations ::
  "assignment list \<Rightarrow> curriculum_entry \<Rightarrow> year_group_input \<Rightarrow> section_input \<Rightarrow> int \<Rightarrow> violation list" where
  "max_consecutive_violations asgs cur yg sec w =
     (let maxConsecutive = cur_max_periods_per_day cur;
          dayEntries = sorted_orders sec cur w asgs
      in if int (length dayEntries) \<le> maxConsecutive then []
         else
           let maxRun = max_run (teaching_orders (yg_period_grid yg) w) dayEntries
           in if int maxRun > maxConsecutive then
                [makeViolation Tier2 ''max_consecutive_exceeded''
                   (subject_for_class cur sec @ '' has '' @ int_str (int maxRun) @ '' consecutive periods on weekday '' @
                    int_str w @ '', exceeding max of '' @ int_str maxConsecutive)
                   (map (cell_at (cur_year_group_id cur) w) dayEntries) (Some (subject_related cur sec))]
              else [])"

definition checkTier2MaxConsecutive :: "solver_input \<Rightarrow> assignment list \<Rightarrow> violation list" where
  "checkTier2MaxConsecutive inp asgs =
     concat (map (\<lambda>cur. for_sections inp cur (\<lambda>yg sec.
       concat (map (max_consecutive_violations asgs cur yg sec) weekdays))) (inp_curriculum inp))"

fun slot_sequences :: "period_slot list \<Rightarrow> int list \<Rightarrow> int list list" where
  \<comment> \<open>the loop over \<open>daySlots\<close> with \<open>currentSeq\<close>; the closing flush is the first equation\<close>
  "slot_sequences [] cur = (if cur \<noteq> [] then [cur] else [])"
| "slot_sequences (s # ss) cur =
     (if ps_period_type s = Teaching then slot_sequences ss (cur @ [ps_period_order s])
      else if ps_supervision_mode s = Classroom_previous \<or> ps_supervision_mode s = Classroom_next
      then slot_sequences ss cur
      else if cur \<noteq> [] then cur # slot_sequences ss [] else slot_sequences ss cur)"

definition pair_in_sequence :: "int list \<Rightarrow> int \<Rightarrow> int list \<Rightarrow> bool" where
  "pair_in_sequence orders po sq =
     (case find_index (\<lambda>x. x = po) sq of
        None \<Rightarrow> False
      | Some idx \<Rightarrow> idx > 0 \<and> sq ! (idx - 1) \<in> set orders \<or>
                     idx + 1 < length sq \<and> sq ! (idx + 1) \<in> set orders)"

definition has_adjacent_pair :: "int list list \<Rightarrow> int list \<Rightarrow> int \<Rightarrow> bool" where
  "has_adjacent_pair seqs orders po = list_ex (pair_in_sequence orders po) seqs"

definition min_consecutive_violations ::
  "assignment list \<Rightarrow> curriculum_entry \<Rightarrow> year_group_input \<Rightarrow> section_input \<Rightarrow> int \<Rightarrow> violation list" where
  "min_consecutive_violations asgs cur yg sec w =
     (let dayEntries = sorted_orders sec cur w asgs
      in if length dayEntries < 2 then []
         else
           let seqs = slot_sequences (sorted_day_slots (yg_period_grid yg) w) []
           in case List.find (\<lambda>po. \<not> has_adjacent_pair seqs dayEntries po) dayEntries of
                None \<Rightarrow> []
              | Some po \<Rightarrow>
                  [makeViolation Tier2 ''min_consecutive_violated''
                     (subject_for_class cur sec @ '' has an isolated period at weekday '' @ int_str w @ '' period '' @
                      int_str po @ '', violating double-period requirement'')
                     [cell_at (cur_year_group_id cur) w po] (Some (subject_related cur sec))])"

definition checkTier2MinConsecutive :: "solver_input \<Rightarrow> assignment list \<Rightarrow> violation list" where
  "checkTier2MinConsecutive inp asgs =
     concat (map (\<lambda>cur. if \<not> cur_requires_double_period cur then []
       else for_sections inp cur (\<lambda>yg sec.
         concat (map (min_consecutive_violations asgs cur yg sec) weekdays))) (inp_curriculum inp))"

section \<open>Rooms\<close>

definition room_type_violations :: "solver_input \<Rightarrow> assignment \<Rightarrow> violation list" where
  "room_type_violations inp a =
     (if \<not> truthy (asg_room_id a) \<or> \<not> truthy (asg_subject_id a) \<or> asg_is_supervision a then []
      else case find_curriculum inp (asg_year_group_id a) (asg_subject_id a) of
        None \<Rightarrow> []
      | Some cur \<Rightarrow>
          if \<not> truthy (cur_required_room_type cur) then []
          else case find_room inp (asg_room_id a) of
            None \<Rightarrow> []
          | Some room \<Rightarrow>
              if Some (room_type room) \<noteq> cur_required_room_type cur then
                [makeViolation Tier2 ''room_type_mismatch''
                   (cur_subject_name cur @ '' requires a '' @ nullish (cur_required_room_type cur) ''null'' @
                    '' but is assigned to '' @ room_type room @ '' ('' @ nullish (asg_room_id a) ''null'' @ '')'')
                   [asg_cell a]
                   (Some (no_related\<lparr>rel_room_id := asg_room_id a, rel_subject_id := asg_subject_id a,
                                     rel_subject_name := Some (cur_subject_name cur)\<rparr>))]
              else [])"

definition checkTier2RoomTypeMismatch :: "solver_input \<Rightarrow> assignment list \<Rightarrow> violation list" where
  "checkTier2RoomTypeMismatch inp asgs = concat (map (room_type_violations inp) asgs)"

definition room_preferred_violations :: "assignment list \<Rightarrow> curriculum_entry \<Rightarrow> section_input \<Rightarrow> violation list" where
  "room_preferred_violations asgs cur sec =
     concat (map (\<lambda>a.
       if asg_room_id a \<noteq> None \<and> asg_room_id a \<noteq> cur_preferred_room_id cur then
         [makeViolation Tier3 ''room_not_preferred''
            (subject_for_class cur sec @ '' is not in preferred room '' @ nullish (cur_preferred_room_id cur) ''null'')
            [asg_cell a]
            (Some ((subject_related cur sec)\<lparr>rel_room_id := asg_room_id a\<rparr>))]
       else []) (filter (is_entry sec cur) asgs))"

definition checkTier3RoomNotPreferred :: "solver_input \<Rightarrow> assignment list \<Rightarrow> violation list" where
  "checkTier3RoomNotPreferred inp asgs =
     concat (map (\<lambda>cur. if \<not> truthy (cur_preferred_room_id cur) then []
       else for_sections inp cur (\<lambda>yg. room_preferred_violations asgs cur)) (inp_curriculum inp))"

section \<open>Preferred frequency and spread\<close>

definition preferred_frequency_violations ::
  "assignment list \<Rightarrow> curriculum_entry \<Rightarrow> int \<Rightarrow> section_input \<Rightarrow> violation list" where
  "preferred_frequency_violations asgs cur preferred sec =
     (let count = int (length (filter (is_entry sec cur) asgs))
      in if count \<ge> cur_min_periods_per_week cur \<and> count < preferred then
           [makeViolation Tier3 ''subject_preferred_frequency''
              (subject_for_class cur sec @ '' has '' @ int_str count @ '' periods, below preferred '' @ int_str preferred)
              [cell_at (cur_year_group_id cur) 0 0] (Some (subject_related cur sec))]
         else [])"

definition checkTier3SubjectPreferredFrequency :: "solver_input \<Rightarrow> assignment list \<Rightarrow> violation list" where
  "checkTier3SubjectPreferredFrequency inp asgs =
     concat (map (\<lambda>cur. case cur_preferred_periods_per_week cur of
         None \<Rightarrow> []
       | Some preferred \<Rightarrow>
           if preferred \<le> cur_min_periods_per_week cur then []
           else for_sections inp cur (\<lambda>yg. preferred_frequency_violations asgs cur preferred)) (inp_curriculum inp))"

definition spread_score :: "assignment list \<Rightarrow> rat" where
  "spread_score entries =
     (let counts = map snd (count_by (\<lambda>a. Some (asg_weekday a)) entries []);
          n = of_nat (length entries); k = of_nat (length counts);
          mn = n / k;
          vr = sum_list (map (\<lambda>c. (of_nat c - mn) ^ 2) counts) / k;
          maxVariance = n ^ 2
      in if maxVariance = 0 then 1 else max 0 (1 - vr / maxVariance))"

definition spread_threshold :: rat where "spread_threshold = 1 / 2"

definition spread_violations :: "assignment list \<Rightarrow> curriculum_entry \<Rightarrow> section_input \<Rightarrow> violation list" where
  "spread_violations asgs cur sec =
     (let entries = filter (is_entry sec cur) asgs
      in if length entries \<le> 1 then []
         else if spread_score entries < spread_threshold then
           [makeViolation Tier3 ''even_subject_spread''
              (subject_for_class cur sec @ '' is clustered (spread score: '' @ to_fixed2 (spread_score entries) @ '')'')
              (map asg_cell entries) (Some (subject_related cur sec))]
         else [])"

definition checkTier3EvenSubjectSpread :: "solver_input \<Rightarrow> assignment list \<Rightarrow> violation list" where
  "checkTier3EvenSubjectSpread inp asgs =
     concat (map (\<lambda>cur. for_sections inp cur (\<lambda>yg. spread_violations asgs cur)) (inp_curriculum inp))"

section \<open>What the checks decide\<close>

lemma for_sections_Nil_iff:
  "for_sections inp cur f = [] \<longleftrightarrow>
   \<not> (\<exists>yg. find_year_group inp (cur_year_group_id cur) = Some yg \<and> (\<exists>sec \<in> set (yg_sections yg). f yg sec \<noteq> []))"
  by (auto simp: for_sections_def concat_map_Nil_iff split: option.splits)

lemma weekdays_set: "set weekdays = {0..6}"
  by (auto simp: weekdays_def)

definition applies_to :: "solver_input \<Rightarrow> curriculum_entry \<Rightarrow> section_input \<Rightarrow> bool" where
  \<comment> \<open>the checks apply an entry to every section of its year group\<close>
  "applies_to inp cur sec \<longleftrightarrow> cur \<in> set (inp_curriculum inp) \<and>
     (\<exists>yg. find_year_group inp (cur_year_group_id cur) = Some yg \<and> sec \<in> set (yg_sections yg))"

lemma min_frequency_Nil_iff:
  "min_frequency_violations asgs cur sec = [] \<longleftrightarrow>
   cur_min_periods_per_week cur \<le> int (length (filter (is_entry sec cur) asgs))"
  by (simp add: min_frequency_violations_def Let_def not_less)

lemma max_per_day_Nil_iff:
  "max_per_day_violations asgs cur sec w = [] \<longleftrightarrow>
   int (length (day_entries sec cur w asgs)) \<le> cur_max_periods_per_day cur"
  by (simp add: max_per_day_violations_def Let_def not_less)

text \<open>The minimum-frequency check is empty exactly when every curriculum entry reaches its weekly
  minimum in every section of its year group.\<close>

lemma min_frequency_empty_iff:
  "checkTier2SubjectMinFrequency inp asgs = [] \<longleftrightarrow>
   \<not> (\<exists>cur sec. applies_to inp cur sec \<and>
        int (length (filter (is_entry sec cur) asgs)) < cur_min_periods_per_week cur)"
  by (auto simp: checkTier2SubjectMinFrequency_def concat_map_Nil_iff for_sections_Nil_iff
      min_frequency_Nil_iff applies_to_def not_le)

lemma max_per_day_empty_iff:
  "checkTier2SubjectMaxPerDay inp asgs = [] \<longleftrightarrow>
   \<not> (\<exists>cur sec w. applies_to inp cur sec \<and> w \<in> {0..6} \<and>
        cur_max_periods_per_day cur < int (length (day_entries sec cur w asgs)))"
  unfolding checkTier2SubjectMaxPerDay_def concat_map_Nil_iff for_sections_Nil_iff
    max_per_day_Nil_iff applies_to_def weekdays_set not_le [symmetric] by blast

subsection \<open>Longest run\<close>

fun split_runs :: "int list \<Rightarrow> int list \<Rightarrow> int list list" where
  \<comment> \<open>the day's periods cut into maximal runs of neighbouring teaching slots\<close>
  "split_runs slots [] = []"
| "split_runs slots [p] = [[p]]"
| "split_runs slots (p # c # cs) =
     (if adjacent_in slots p c
      then (case split_runs slots (c # cs) of [] \<Rightarrow> [[p]] | r # rs \<Rightarrow> (p # r) # rs)
      else [p] # split_runs slots (c # cs))"

definition longest_run :: "int list \<Rightarrow> int list \<Rightarrow> nat" where
  "longest_run slots orders = foldr max (map length (split_runs slots orders)) 0"

lemma concat_split_runs: "concat (split_runs slots orders) = orders"
  by (induction slots orders rule: split_runs.induct) (auto split: list.splits)

lemma split_runs_nonempty: "[] \<notin> set (split_runs slots orders)"
  by (induction slots orders rule: split_runs.induct) (auto split: list.splits)

lemma split_runs_Cons: "\<exists>r rs. split_runs slots (p # cs) = (p # r) # rs"
proof (cases cs)
  case (Cons c ds)
  then show ?thesis by (cases "split_runs slots (c # ds)") auto
qed simp

lemma split_runs_chain:
  "r \<in> set (split_runs slots orders) \<Longrightarrow> Suc k < length r \<Longrightarrow> adjacent_in slots (r ! k) (r ! Suc k)"
proof (induction slots orders arbitrary: r k rule: split_runs.induct)
  case (3 slots p c cs)
  obtain q rs where q: "split_runs slots (c # cs) = (c # q) # rs" using split_runs_Cons by blast
  show ?case
  proof (cases "adjacent_in slots p c")
    case True
    from "3.prems"(1) True q consider "r = p # c # q" | "r \<in> set rs" by auto
    then show ?thesis
    proof cases
      case 1
      with True "3.IH"(1) [OF True, of "c # q" "k - 1"] "3.prems"(2) q show ?thesis by (cases k) auto
    next
      case 2
      with "3.IH"(1) [OF True, of r k] "3.prems"(2) q show ?thesis by simp
    qed
  next
    case False
    with "3.prems" "3.IH"(2) [OF False, of r k] show ?thesis by auto
  qed
qed auto

lemma run_loop_eq:
  assumes "1 \<le> c" "c \<le> mx" "split_runs slots (p # cs) = r # rs"
  shows "fst (run_loop slots p cs (mx, c)) = max mx (max (c - 1 + length r) (foldr max (map length rs) 0))"
  using assms
proof (induction cs arbitrary: p mx c r rs)
  case (Cons x xs)
  obtain q qs where q: "split_runs slots (x # xs) = (x # q) # qs" using split_runs_Cons by blast
  show ?case
  proof (cases "adjacent_in slots p x")
    case True
    with Cons.prems(3) q have r: "r = p # x # q" "rs = qs" by auto
    have "fst (run_loop slots p (x # xs) (mx, c)) = fst (run_loop slots x xs (max mx (c + 1), c + 1))"
      using True by (simp add: max_def)
    also have "\<dots> = max (max mx (c + 1)) (max (c + 1 - 1 + length (x # q)) (foldr max (map length qs) 0))"
      by (rule Cons.IH) (use Cons.prems q in auto)
    also have "\<dots> = max mx (max (c - 1 + length r) (foldr max (map length rs) 0))"
      using Cons.prems(1) by (simp add: r max_def)
    finally show ?thesis .
  next
    case False
    with Cons.prems(3) q have r: "r = [p]" "rs = (x # q) # qs" by auto
    have "fst (run_loop slots p (x # xs) (mx, c)) = fst (run_loop slots x xs (mx, 1))"
      using False by simp
    also have "\<dots> = max mx (max (1 - 1 + length (x # q)) (foldr max (map length qs) 0))"
      by (rule Cons.IH) (use Cons.prems q in auto)
    also have "\<dots> = max mx (max (c - 1 + length r) (foldr max (map length rs) 0))"
      using Cons.prems(1,2) by (simp add: r max_def)
    finally show ?thesis .
  qed
qed auto

lemma max_run_longest: "max_run slots (p # cs) = longest_run slots (p # cs)"
proof -
  obtain r rs where r: "split_runs slots (p # cs) = (p # r) # rs" using split_runs_Cons by blast
  show ?thesis
    using run_loop_eq [OF _ _ r, of 1 1] by (simp add: max_run_def longest_run_def r max_def)
qed

lemma longest_run_le_length: "longest_run slots orders \<le> length orders"
proof -
  have "foldr max (map length xss) 0 \<le> length (concat xss)" for xss :: "int list list"
    by (induction xss) auto
  from this [of "split_runs slots orders"] show ?thesis
    by (simp add: longest_run_def concat_split_runs)
qed

text \<open>C9: a class day is reported by the consecutive-periods check exactly when its longest run of the
  subject in neighbouring teaching slots is longer than the entry's daily maximum.\<close>

theorem max_consecutive_iff_longest_run:
  "max_consecutive_violations asgs cur yg sec w \<noteq> [] \<longleftrightarrow>
   cur_max_periods_per_day cur <
     int (longest_run (teaching_orders (yg_period_grid yg) w) (sorted_orders sec cur w asgs))"
proof (cases "sorted_orders sec cur w asgs")
  case Nil
  then show ?thesis by (auto simp: max_consecutive_violations_def max_run_def longest_run_def Let_def)
next
  case (Cons p cs)
  have "longest_run (teaching_orders (yg_period_grid yg) w) (p # cs) \<le> length (p # cs)"
    by (rule longest_run_le_length)
  then show ?thesis
    unfolding max_consecutive_violations_def Let_def Cons max_run_longest by simp
qed

lemma length_concat_map_le:
  "(\<And>x. x \<in> set xs \<Longrightarrow> length (f x) \<le> length (g x)) \<Longrightarrow> length (concat (map f xs)) \<le> length (concat (map g xs))"
  by (induction xs) (simp_all add: add_mono)

lemma max_consecutive_le_max_per_day:
  "length (max_consecutive_violations asgs cur yg sec w) \<le> length (max_per_day_violations asgs cur sec w)"
  by (simp add: max_consecutive_violations_def max_per_day_violations_def Let_def sorted_orders_def)

text \<open>The consecutive-periods check reports nothing that the maximum-per-day check does not report
  as well: each of its violations comes on top of a maximum-per-day violation for the same entry,
  section and weekday.\<close>

theorem max_consecutive_subsumed:
  "length (checkTier2MaxConsecutive inp asgs) \<le> length (checkTier2SubjectMaxPerDay inp asgs)"
  unfolding checkTier2MaxConsecutive_def checkTier2SubjectMaxPerDay_def
proof (rule length_concat_map_le)
  fix cur
  show "length (for_sections inp cur (\<lambda>yg sec. concat (map (max_consecutive_violations asgs cur yg sec) weekdays)))
      \<le> length (for_sections inp cur (\<lambda>yg sec. concat (map (max_per_day_violations asgs cur sec) weekdays)))"
    by (cases "find_year_group inp (cur_year_group_id cur)")
      (auto simp only: for_sections_def option.case intro!: length_concat_map_le max_consecutive_le_max_per_day)
qed

subsection \<open>Spread over the week\<close>

lemma spread_score_ge:
  assumes "entries \<noteq> []"
  shows "3 / 4 \<le> spread_score entries"
proof -
  define counts where "counts = map snd (count_by (\<lambda>a. Some (asg_weekday a)) entries [])"
  define n k Q :: rat where "n = of_nat (length entries)" and "k = of_nat (length counts)"
    and "Q = of_nat (sum_list (map (\<lambda>c. c ^ 2) counts))"
  define vr where "vr = sum_list (map (\<lambda>c. (of_nat c - n / k) ^ 2) counts) / k"
  have S: "sum_list counts = length entries"
    using sum_count_by [of "\<lambda>a. Some (asg_weekday a)" entries "[]"] by (simp add: counts_def)
  have n: "0 < n" using assms by (simp add: n_def)
  have "counts \<noteq> []" using S assms by auto
  then have k: "1 \<le> k" by (cases counts) (simp_all add: k_def)
  have "Q \<le> n ^ 2"
    using sum_sq_le_sq_sum [of counts] unfolding Q_def n_def S [symmetric]
    by (metis of_nat_le_iff of_nat_power)
  have "vr = (Q - 2 * (n / k) * n + k * (n / k) ^ 2) / k"
    unfolding vr_def sum_sq_dev S by (simp add: Q_def n_def k_def)
  also have "\<dots> = (k * Q - n ^ 2) / k ^ 2"
    using k by (simp add: field_simps power2_eq_square)
  also have "\<dots> \<le> (k * n ^ 2 - n ^ 2) / k ^ 2"
    using \<open>Q \<le> n ^ 2\<close> k by (intro divide_right_mono) (simp_all add: mult_left_mono)
  also have "\<dots> = n ^ 2 * ((k - 1) / k ^ 2)" by (simp add: algebra_simps)
  also have "\<dots> \<le> n ^ 2 * (1 / 4)"
  proof (rule mult_left_mono)
    have "0 \<le> (k - 2) ^ 2" by simp
    then have "4 * (k - 1) \<le> k ^ 2" by (simp add: power2_eq_square algebra_simps)
    with k show "(k - 1) / k ^ 2 \<le> 1 / 4" by (simp add: field_simps)
  qed simp
  finally have "vr / n ^ 2 \<le> 1 / 4" using n by (simp add: field_simps)
  then have "3 / 4 \<le> 1 - vr / n ^ 2" by simp
  moreover have "spread_score entries = max 0 (1 - vr / n ^ 2)"
    using n by (simp add: spread_score_def Let_def vr_def n_def k_def counts_def)
  ultimately show ?thesis by simp
qed

lemma spread_empty: "checkTier3EvenSubjectSpread inp asgs = []"
proof -
  have "spread_violations asgs cur sec = []" for cur sec
    using spread_score_ge [of "filter (is_entry sec cur) asgs"]
    by (fastforce simp: spread_violations_def spread_threshold_def Let_def)
  then show ?thesis
    by (simp add: checkTier3EvenSubjectSpread_def for_sections_def concat_map_Nil_iff split: option.splits)
qed

text \<open>C14: the spread check can never report anything. The variance is taken over the days that have at
  least one period and divided by the squared number of periods, so the score of any non-empty set of
  entries is at least three quarters, above the threshold, and the check returns no violation for any
  timetable; a subject taught only on one day scores one.\<close>

theorem even_spread_never_fires:
  "3 / 4 \<le> spread_score (e # es) \<and> spread_violations asgs cur sec = [] \<and>
   checkTier3EvenSubjectSpread inp asgs = []"
proof (intro conjI)
  show "3 / 4 \<le> spread_score (e # es)" by (rule spread_score_ge) simp
  show "spread_violations asgs cur sec = []"
    using spread_score_ge [of "filter (is_entry sec cur) asgs"]
    by (fastforce simp: spread_violations_def spread_threshold_def Let_def)
qed (rule spread_empty)

subsection \<open>Teaching sequences of a day\<close>

definition is_classroom_break :: "period_slot \<Rightarrow> bool" where
  "is_classroom_break s \<longleftrightarrow> ps_period_type s \<noteq> Teaching \<and>
     (ps_supervision_mode s = Classroom_previous \<or> ps_supervision_mode s = Classroom_next)"

lemma slot_sequences_concat:
  "concat (slot_sequences ss cur) = cur @ map ps_period_order (filter (\<lambda>s. ps_period_type s = Teaching) ss)"
  by (induction ss cur rule: slot_sequences.induct) auto

lemma slot_sequences_nonempty: "[] \<notin> set (slot_sequences ss cur)"
  by (induction ss cur rule: slot_sequences.induct) auto

lemma slot_sequences_skip_breaks:
  "slot_sequences (filter (\<lambda>s. \<not> is_classroom_break s) ss) cur = slot_sequences ss cur"
  by (induction ss cur rule: slot_sequences.induct) (auto simp: is_classroom_break_def)


lemma min_consecutive_Nil_iff:
  "min_consecutive_violations asgs cur yg sec w = [] \<longleftrightarrow>
   length (sorted_orders sec cur w asgs) < 2 \<or>
   list_all (has_adjacent_pair (slot_sequences (sorted_day_slots (yg_period_grid yg) w) [])
               (sorted_orders sec cur w asgs)) (sorted_orders sec cur w asgs)"
proof -
  let ?os = "sorted_orders sec cur w asgs"
  let ?ok = "has_adjacent_pair (slot_sequences (sorted_day_slots (yg_period_grid yg) w) []) ?os"
  show ?thesis
  proof (cases "List.find (\<lambda>po. \<not> ?ok po) ?os")
    case None
    then have "list_all ?ok ?os" by (auto simp: find_None_iff list_all_iff)
    then show ?thesis by (simp add: min_consecutive_violations_def Let_def None)
  next
    case (Some po)
    then have "\<not> list_all ?ok ?os" using find_Some_in [OF Some] by (auto simp: list_all_iff)
    then show ?thesis by (simp add: min_consecutive_violations_def Let_def Some)
  qed
qed

text \<open>A curriculum entry that names one class is still checked against the other sections of its
  year group: the minimum-frequency check does not read \<open>class_id\<close> at all.\<close>

theorem min_frequency_ignores_class_id:
  "min_frequency_violations asgs (cur\<lparr>cur_class_id := c\<rparr>) sec = min_frequency_violations asgs cur sec"
proof -
  have "is_entry sec (cur\<lparr>cur_class_id := c\<rparr>) = is_entry sec cur" by (simp add: is_entry_def fun_eq_iff)
  then show ?thesis
    by (simp add: min_frequency_violations_def subject_for_class_def subject_related_def Let_def cong: if_cong)
qed

end
