(* ===== verification/Timetable_Breaks.thy ===== *)
theory Timetable_Breaks
  imports Timetable_Types
begin

text \<open>
  The two checks of \<open>validation.ts\<close> about breaks: enough supervisors on every yard break of a break
  group, and a teacher in the lesson next to every classroom break.
\<close>

section \<open>Yard breaks\<close>

definition add_if_absent :: "'k \<Rightarrow> 'v \<Rightarrow> ('k \<times> 'v) list \<Rightarrow> ('k \<times> 'v) list" where
  \<comment> \<open>\<open>if (!m.has(k)) m.set(k, v)\<close>\<close>
  "add_if_absent k v m = (if k \<in> fst ` set m then m else m @ [(k, v)])"

definition is_yard_slot :: "break_group_input \<Rightarrow> period_slot \<Rightarrow> bool" where
  "is_yard_slot bg s \<longleftrightarrow> ps_supervision_mode s = Yard \<and> ps_break_group_id s = Some (bg_id bg)"

definition grid_slots :: "solver_input \<Rightarrow> (string \<times> period_slot) list" where
  "grid_slots inp = concat (map (\<lambda>yg. map (Pair (yg_id yg)) (yg_period_grid yg)) (inp_year_groups inp))"

definition break_slots :: "solver_input \<Rightarrow> break_group_input \<Rightarrow> (string \<times> (int \<times> int \<times> string)) list" where
  "break_slots inp bg =
     foldl (\<lambda>m (ygid, s).
              if is_yard_slot bg s
              then add_if_absent (int_key2 (ps_weekday s) (ps_period_order s)) (ps_weekday s, ps_period_order s, ygid) m
              else m)
           [] (grid_slots inp)"

definition supervisors :: "assignment list \<Rightarrow> break_group_input \<Rightarrow> int \<Rightarrow> int \<Rightarrow> assignment list" where
  "supervisors asgs bg w po = filter (\<lambda>a. asg_is_supervision a \<and> asg_break_group_id a = Some (bg_id bg) \<and>
     asg_weekday a = w \<and> asg_period_order a = po) asgs"

definition break_group_violations :: "solver_input \<Rightarrow> assignment list \<Rightarrow> break_group_input \<Rightarrow> violation list" where
  "break_group_violations inp asgs bg =
     concat (map (\<lambda>(k, w, po, ygid).
       let n = int (length (supervisors asgs bg w po))
       in if n < bg_required_supervisor_count bg then
            [makeViolation Tier2 ''break_supervision_understaffed''
               (bg_name bg @ '' on weekday '' @ int_str w @ '' has '' @ int_str n @ ''/'' @
                int_str (bg_required_supervisor_count bg) @ '' required supervisors'')
               [\<lparr>cell_year_group_id = ygid, cell_weekday = w, cell_period_order = po\<rparr>]
               (Some (no_related\<lparr>rel_break_group_id := Some (bg_id bg)\<rparr>))]
          else []) (break_slots inp bg))"

definition checkTier2BreakSupervisionUnderstaffed :: "solver_input \<Rightarrow> assignment list \<Rightarrow> violation list" where
  "checkTier2BreakSupervisionUnderstaffed inp asgs =
     concat (map (break_group_violations inp asgs) (inp_break_groups inp))"

section \<open>Classroom breaks\<close>

definition adjacent_teaching_slot :: "period_slot list \<Rightarrow> nat \<Rightarrow> supervision_mode \<Rightarrow> period_slot option" where
  \<comment> \<open>backwards from the break for \<open>classroom_previous\<close>, forwards otherwise\<close>
  "adjacent_teaching_slot daySlots breakIdx mode =
     (if mode = Classroom_previous
      then List.find (\<lambda>s. ps_period_type s = Teaching) (rev (take breakIdx daySlots))
      else List.find (\<lambda>s. ps_period_type s = Teaching) (drop (breakIdx + 1) daySlots))"

definition adjacent_assignment :: "assignment list \<Rightarrow> section_input \<Rightarrow> int \<Rightarrow> int \<Rightarrow> assignment option" where
  "adjacent_assignment asgs sec w po =
     List.find (\<lambda>a. asg_class_id a = sec_class_id sec \<and> asg_weekday a = w \<and> asg_period_order a = po \<and>
                    \<not> asg_is_supervision a) asgs"

definition classroom_break_violations ::
  "assignment list \<Rightarrow> year_group_input \<Rightarrow> period_slot \<Rightarrow> section_input \<Rightarrow> violation list" where
  "classroom_break_violations asgs yg breakSlot sec =
     (let daySlots = sorted_day_slots (yg_period_grid yg) (ps_weekday breakSlot);
          cells = [\<lparr>cell_year_group_id = yg_id yg, cell_weekday = ps_weekday breakSlot,
                    cell_period_order = ps_period_order breakSlot\<rparr>];
          related = Some (no_related\<lparr>rel_class_id := Some (sec_class_id sec)\<rparr>);
          prefix = ''Classroom break at '' @ ps_start_time breakSlot @ ''-'' @ ps_end_time breakSlot @
                   '' on weekday '' @ int_str (ps_weekday breakSlot) @ '' for '' @ sec_class_name sec
      in case find_index (\<lambda>s. ps_period_order s = ps_period_order breakSlot) daySlots of
           None \<Rightarrow> []
         | Some breakIdx \<Rightarrow>
             (case adjacent_teaching_slot daySlots breakIdx (ps_supervision_mode breakSlot) of
                None \<Rightarrow> [makeViolation Tier2 ''classroom_break_teacher_missing''
                           (prefix @ '' has no adjacent teaching period'') cells related]
              | Some adj \<Rightarrow>
                  (case adjacent_assignment asgs sec (ps_weekday breakSlot) (ps_period_order adj) of
                     None \<Rightarrow> [makeViolation Tier2 ''classroom_break_teacher_missing''
                                (prefix @ '' has no supervising teacher (adjacent slot unassigned)'') cells related]
                   | Some a \<Rightarrow>
                       if truthy (asg_teacher a) then []
                       else [makeViolation Tier2 ''classroom_break_teacher_missing''
                               (prefix @ '' has no supervising teacher (adjacent slot unassigned)'') cells related])))"

definition classroom_breaks :: "year_group_input \<Rightarrow> period_slot list" where
  "classroom_breaks yg = filter (\<lambda>p. ps_supervision_mode p = Classroom_previous \<or>
     ps_supervision_mode p = Classroom_next) (yg_period_grid yg)"

definition checkTier2ClassroomBreakTeacherMissing :: "solver_input \<Rightarrow> assignment list \<Rightarrow> violation list" where
  "checkTier2ClassroomBreakTeacherMissing inp asgs =
     concat (map (\<lambda>yg. concat (map (\<lambda>b. concat (map (classroom_break_violations asgs yg b) (yg_sections yg)))
       (classroom_breaks yg))) (inp_year_groups inp))"

section \<open>What the checks decide\<close>

lemma add_if_absent_fold:
  assumes "m' = foldl (\<lambda>m (g, s). if P s then add_if_absent (key s) (val g s) m else m) m xs"
  shows "fst ` set m' = fst ` set m \<union> key ` {s. \<exists>g. (g, s) \<in> set xs \<and> P s} \<and>
         (\<forall>(k, v) \<in> set m'. (k, v) \<in> set m \<or> (\<exists>g s. (g, s) \<in> set xs \<and> P s \<and> k = key s \<and> v = val g s))"
  using assms
proof (induction xs arbitrary: m)
  case (Cons x xs)
  obtain g s where x: "x = (g, s)" by (cases x)
  let ?m = "if P s then add_if_absent (key s) (val g s) m else m"
  have IH: "fst ` set m' = fst ` set ?m \<union> key ` {s. \<exists>g. (g, s) \<in> set xs \<and> P s} \<and>
      (\<forall>(k, v) \<in> set m'. (k, v) \<in> set ?m \<or> (\<exists>g s. (g, s) \<in> set xs \<and> P s \<and> k = key s \<and> v = val g s))"
    by (rule Cons.IH) (use Cons.prems in \<open>simp add: x\<close>)
  show ?case
  proof
    show "fst ` set m' = fst ` set m \<union> key ` {s. \<exists>g. (g, s) \<in> set (x # xs) \<and> P s}"
      using IH by (auto simp: x add_if_absent_def)
    show "\<forall>(k, v) \<in> set m'. (k, v) \<in> set m \<or> (\<exists>g s. (g, s) \<in> set (x # xs) \<and> P s \<and> k = key s \<and> v = val g s)"
      using IH by (fastforce simp: x add_if_absent_def split: if_splits)
  qed
qed simp

definition yard_slot_at :: "solver_input \<Rightarrow> break_group_input \<Rightarrow> int \<Rightarrow> int \<Rightarrow> bool" where
  "yard_slot_at inp bg w po \<longleftrightarrow>
     (\<exists>yg \<in> set (inp_year_groups inp). \<exists>s \<in> set (yg_period_grid yg).
        is_yard_slot bg s \<and> ps_weekday s = w \<and> ps_period_order s = po)"

lemma in_break_slots:
  "(\<exists>k ygid. (k, w, po, ygid) \<in> set (break_slots inp bg)) \<longleftrightarrow> yard_slot_at inp bg w po"
proof -
  let ?key = "\<lambda>s. int_key2 (ps_weekday s) (ps_period_order s)"
  let ?val = "\<lambda>ygid s. (ps_weekday s, ps_period_order s, ygid)"
  note facts = add_if_absent_fold [where P = "is_yard_slot bg" and key = ?key and val = ?val and m = "[]"
      and xs = "grid_slots inp", OF break_slots_def, simplified]
  note keys = facts [THEN conjunct1] and vals = facts [THEN conjunct2]
  have grid: "(g, s) \<in> set (grid_slots inp) \<longleftrightarrow> (\<exists>yg \<in> set (inp_year_groups inp). g = yg_id yg \<and> s \<in> set (yg_period_grid yg))"
    for g s by (auto simp: grid_slots_def)
  show ?thesis
  proof
    assume "\<exists>k ygid. (k, w, po, ygid) \<in> set (break_slots inp bg)"
    then obtain k ygid where "(k, w, po, ygid) \<in> set (break_slots inp bg)" by blast
    with vals obtain g s where "(g, s) \<in> set (grid_slots inp)" "is_yard_slot bg s"
      "ps_weekday s = w" "ps_period_order s = po" by fastforce
    then show "yard_slot_at inp bg w po" by (auto simp: grid yard_slot_at_def)
  next
    assume "yard_slot_at inp bg w po"
    then obtain g s where s: "(g, s) \<in> set (grid_slots inp)" "is_yard_slot bg s"
      "ps_weekday s = w" "ps_period_order s = po" by (auto simp: grid yard_slot_at_def)
    then have "int_key2 w po \<in> fst ` set (break_slots inp bg)" unfolding keys by auto
    then obtain v where v: "(int_key2 w po, v) \<in> set (break_slots inp bg)" by force
    from bspec [OF vals this] obtain g' and s' :: period_slot
      where "int_key2 w po = ?key s'" "v = ?val g' s'" unfolding prod.case by blast
    with v show "\<exists>k ygid. (k, w, po, ygid) \<in> set (break_slots inp bg)" by (auto simp: int_key2_inj)
  qed
qed

text \<open>The yard-break check is empty exactly when every yard slot of a break group, in whichever year
  group's grid it stands, has at least the group's required number of supervision entries.\<close>

lemma break_supervision_empty_iff:
  "checkTier2BreakSupervisionUnderstaffed inp asgs = [] \<longleftrightarrow>
   \<not> (\<exists>bg w po. bg \<in> set (inp_break_groups inp) \<and> yard_slot_at inp bg w po \<and>
        int (length (supervisors asgs bg w po)) < bg_required_supervisor_count bg)"
proof -
  have "break_group_violations inp asgs bg = [] \<longleftrightarrow>
      (\<forall>w po. yard_slot_at inp bg w po \<longrightarrow> bg_required_supervisor_count bg \<le> int (length (supervisors asgs bg w po)))"
    for bg
    unfolding break_group_violations_def concat_map_Nil_iff in_break_slots [symmetric]
    by (fastforce simp: Let_def split: if_splits)
  then show ?thesis
    unfolding checkTier2BreakSupervisionUnderstaffed_def concat_map_Nil_iff
    by (auto simp: not_less [symmetric])
qed

subsection \<open>Classroom breaks\<close>

lemma find_rev_Some_iff:
  "List.find P (rev xs) = Some x \<longleftrightarrow>
   (\<exists>j < length xs. xs ! j = x \<and> P x \<and> (\<forall>k. j < k \<and> k < length xs \<longrightarrow> \<not> P (xs ! k)))"
proof (induction xs rule: rev_induct)
  case (snoc y ys)
  let ?n = "length ys"
  let ?old = "\<lambda>j. j < ?n \<and> ys ! j = x \<and> P x \<and> (\<forall>k. j < k \<and> k < ?n \<longrightarrow> \<not> P (ys ! k))"
  let ?new = "\<lambda>j. j < length (ys @ [y]) \<and> (ys @ [y]) ! j = x \<and> P x \<and>
      (\<forall>k. j < k \<and> k < length (ys @ [y]) \<longrightarrow> \<not> P ((ys @ [y]) ! k))"
  have top: "?new ?n \<longleftrightarrow> y = x \<and> P x" by auto
  have below: "?new j \<longleftrightarrow> \<not> P y \<and> ?old j" if "j < ?n" for j
    using that by (auto simp: nth_append less_Suc_eq)
  have "(\<exists>j. ?new j) \<longleftrightarrow> ?new ?n \<or> (\<exists>j < ?n. ?new j)"
    by (auto simp: less_Suc_eq)
  also have "\<dots> \<longleftrightarrow> (y = x \<and> P x) \<or> (\<not> P y \<and> (\<exists>j. ?old j))"
    using top below by blast
  finally have "(\<exists>j. ?new j) \<longleftrightarrow> (y = x \<and> P x) \<or> (\<not> P y \<and> List.find P (rev ys) = Some x)"
    by (simp only: snoc.IH)
  then show ?case by (cases "P y") auto
qed simp

definition nearest_teaching :: "period_slot list \<Rightarrow> nat \<Rightarrow> supervision_mode \<Rightarrow> period_slot \<Rightarrow> bool" where
  \<comment> \<open>the closest teaching slot before (\<open>classroom_previous\<close>) or after position \<open>i\<close>\<close>
  "nearest_teaching ds i mode s \<longleftrightarrow>
     (\<exists>j < length ds. ds ! j = s \<and> ps_period_type s = Teaching \<and>
        (if mode = Classroom_previous
         then j < i \<and> (\<forall>k. j < k \<and> k < i \<and> k < length ds \<longrightarrow> ps_period_type (ds ! k) \<noteq> Teaching)
         else i < j \<and> (\<forall>k. i < k \<and> k < j \<longrightarrow> ps_period_type (ds ! k) \<noteq> Teaching)))"

text \<open>The slot the classroom-break check holds responsible is the closest teaching slot on the side
  the supervision mode names, with no teaching slot in between.\<close>

lemma adjacent_teaching_slot_nearest:
  "adjacent_teaching_slot ds i mode = Some s \<longleftrightarrow> nearest_teaching ds i mode s"
proof (cases "mode = Classroom_previous")
  case True
  then show ?thesis
    by (auto simp: adjacent_teaching_slot_def nearest_teaching_def find_rev_Some_iff)
next
  case False
  let ?T = "\<lambda>s. ps_period_type s = Teaching"
  have "List.find ?T (drop (i + 1) ds) = Some s \<longleftrightarrow>
        (\<exists>j. i + 1 + j < length ds \<and> ?T (ds ! (i + 1 + j)) \<and> s = ds ! (i + 1 + j) \<and> (\<forall>k < j. \<not> ?T (ds ! (i + 1 + k))))"
  proof -
    have len: "j < length (drop (i + 1) ds) \<longleftrightarrow> i + 1 + j < length ds" for j by auto
    have nth: "drop (i + 1) ds ! j = ds ! (i + 1 + j)" if "i + 1 + j < length ds" for j
      using that by simp
    have "(i + 1 + j < length ds \<and> ?T (drop (i + 1) ds ! j) \<and> s = drop (i + 1) ds ! j \<and>
             (\<forall>k < j. \<not> ?T (drop (i + 1) ds ! k))) \<longleftrightarrow>
          (i + 1 + j < length ds \<and> ?T (ds ! (i + 1 + j)) \<and> s = ds ! (i + 1 + j) \<and>
             (\<forall>k < j. \<not> ?T (ds ! (i + 1 + k))))" for j
      using nth by (intro conj_cong refl) auto
    then show ?thesis unfolding find_Some_iff len by (simp only:)
  qed
  also have "\<dots> \<longleftrightarrow> (\<exists>j < length ds. i < j \<and> ds ! j = s \<and> ?T s \<and> (\<forall>k. i < k \<and> k < j \<longrightarrow> \<not> ?T (ds ! k)))"
  proof
    assume "\<exists>j. i + 1 + j < length ds \<and> ?T (ds ! (i + 1 + j)) \<and> s = ds ! (i + 1 + j) \<and> (\<forall>k < j. \<not> ?T (ds ! (i + 1 + k)))"
    then obtain j where j: "i + 1 + j < length ds" "?T (ds ! (i + 1 + j))" "s = ds ! (i + 1 + j)"
      "\<And>k. k < j \<Longrightarrow> \<not> ?T (ds ! (i + 1 + k))" by blast
    have "\<not> ?T (ds ! k)" if "i < k" "k < i + 1 + j" for k
      using j(4) [of "k - i - 1"] that by simp
    with j(1-3) show "\<exists>j < length ds. i < j \<and> ds ! j = s \<and> ?T s \<and> (\<forall>k. i < k \<and> k < j \<longrightarrow> \<not> ?T (ds ! k))"
      by (intro exI [of _ "i + 1 + j"]) auto
  next
    assume "\<exists>j < length ds. i < j \<and> ds ! j = s \<and> ?T s \<and> (\<forall>k. i < k \<and> k < j \<longrightarrow> \<not> ?T (ds ! k))"
    then obtain j where j: "j < length ds" "i < j" "ds ! j = s" "?T s" "\<And>k. i < k \<Longrightarrow> k < j \<Longrightarrow> \<not> ?T (ds ! k)"
      by blast
    then show "\<exists>j. i + 1 + j < length ds \<and> ?T (ds ! (i + 1 + j)) \<and> s = ds ! (i + 1 + j) \<and> (\<forall>k < j. \<not> ?T (ds ! (i + 1 + k)))"
      by (intro exI [of _ "j - i - 1"]) auto
  qed
  finally show ?thesis using False
    by (auto simp: adjacent_teaching_slot_def nearest_teaching_def)
qed

definition break_covered :: "assignment list \<Rightarrow> year_group_input \<Rightarrow> period_slot \<Rightarrow> section_input \<Rightarrow> bool" where
  \<comment> \<open>the class has a lesson with a teacher in the nearest teaching slot\<close>
  "break_covered asgs yg b sec \<longleftrightarrow>
     (let ds = sorted_day_slots (yg_period_grid yg) (ps_weekday b)
      in \<exists>i s a. find_index (\<lambda>s. ps_period_order s = ps_period_order b) ds = Some i \<and>
           nearest_teaching ds i (ps_supervision_mode b) s \<and>
           adjacent_assignment asgs sec (ps_weekday b) (ps_period_order s) = Some a \<and> truthy (asg_teacher a))"

lemma classroom_break_Nil_iff:
  assumes "b \<in> set (yg_period_grid yg)"
  shows "classroom_break_violations asgs yg b sec = [] \<longleftrightarrow> break_covered asgs yg b sec"
proof -
  let ?ds = "sorted_day_slots (yg_period_grid yg) (ps_weekday b)"
  have "b \<in> set ?ds" using assms by (simp add: sorted_day_slots_def)
  then obtain i where i: "find_index (\<lambda>s. ps_period_order s = ps_period_order b) ?ds = Some i"
    using find_index_None [of "\<lambda>s. ps_period_order s = ps_period_order b" ?ds] by (metis not_None_eq)
  show ?thesis
    by (auto simp: classroom_break_violations_def break_covered_def Let_def i
        simp flip: adjacent_teaching_slot_nearest split: option.splits)
qed

lemma classroom_break_empty_iff:
  "checkTier2ClassroomBreakTeacherMissing inp asgs = [] \<longleftrightarrow>
   \<not> (\<exists>yg \<in> set (inp_year_groups inp). \<exists>b \<in> set (classroom_breaks yg). \<exists>sec \<in> set (yg_sections yg).
        \<not> break_covered asgs yg b sec)"
proof -
  have "classroom_break_violations asgs yg b sec = [] \<longleftrightarrow> break_covered asgs yg b sec"
    if "b \<in> set (classroom_breaks yg)" for yg b sec
    by (rule classroom_break_Nil_iff) (use that in \<open>simp add: classroom_breaks_def\<close>)
  then show ?thesis
    unfolding checkTier2ClassroomBreakTeacherMissing_def concat_map_Nil_iff by blast
qed

end
