(* ===== verification/Timetable_Validation.thy ===== *)
theory Timetable_Validation
  imports Timetable_Clashes Timetable_Curriculum Timetable_Breaks
begin

text \<open>
  \<open>validateSchedule\<close> of \<open>packages/shared/src/scheduler/validation.ts\<close>: the twenty-one checks in the
  code's order, the counts per tier, the health score, and the map from a cell's key to the violations
  that touch it. The properties here are about the whole report: what a clean tier 1 and tier 2 mean
  for the timetable, what the score can be, and what the cell map holds.
\<close>

section \<open>Score, cell map and report\<close>

definition computeHealthScore :: "nat \<Rightarrow> nat \<Rightarrow> nat \<Rightarrow> int" where
  "computeHealthScore t1 t2 t3 =
     (let raw = 100 - int t1 * 20 - int t2 * 5 - int t3 * 1 in max 0 (min 100 raw))"

definition buildCellViolationMap :: "violation list \<Rightarrow> (string \<times> violation list) list" where
  "buildCellViolationMap vs =
     foldl (\<lambda>m v. foldl (\<lambda>m c. group_add (cellKey (cell_year_group_id c) (cell_weekday c) (cell_period_order c)) v m)
                        m (v_cells v))
           [] vs"

definition all_violations :: "solver_input \<Rightarrow> assignment list \<Rightarrow> violation list" where
  "all_violations inp asgs =
     checkTier1TeacherDoubleBooking inp asgs @
     checkTier2TeacherAvailability inp asgs @
     checkTier2TeacherCompetency inp asgs @
     checkTier2SubjectMinFrequency inp asgs @
     checkTier2SubjectMaxPerDay inp asgs @
     checkTier2TeacherDailyLoad inp asgs @
     checkTier2TeacherWeeklyLoad inp asgs @
     checkTier2RoomDoubleBooking inp asgs @
     checkTier2RoomTypeMismatch inp asgs @
     checkTier2BreakSupervisionUnderstaffed inp asgs @
     checkTier2ClassroomBreakTeacherMissing inp asgs @
     checkTier2StudentOverlap inp asgs @
     checkTier2MaxConsecutive inp asgs @
     checkTier2MinConsecutive inp asgs @
     checkTier3TeacherTimeSlotPreferences inp asgs @
     checkTier3SubjectPreferredFrequency inp asgs @
     checkTier3EvenSubjectSpread inp asgs @
     checkTier3TeacherGaps inp asgs @
     checkTier3WorkloadImbalance inp asgs @
     checkTier3BreakDutyImbalance inp asgs @
     checkTier3RoomNotPreferred inp asgs"

definition tier_count :: "tier \<Rightarrow> violation list \<Rightarrow> nat" where
  "tier_count t vs = length (filter (\<lambda>v. v_tier v = t) vs)"

definition validateSchedule :: "solver_input \<Rightarrow> assignment list \<Rightarrow> validation_result" where
  "validateSchedule inp asgs =
     (let vs = all_violations inp asgs;
          t1 = tier_count Tier1 vs; t2 = tier_count Tier2 vs; t3 = tier_count Tier3 vs
      in \<lparr>res_violations = vs, res_health_score = computeHealthScore t1 t2 t3,
          res_summary = \<lparr>sum_tier1 = t1, sum_tier2 = t2, sum_tier3 = t3\<rparr>,
          res_cell_violations = buildCellViolationMap vs\<rparr>)"

section \<open>Each check reports in its own tier\<close>

named_theorems tier_facts \<open>the tier of every violation of a check\<close>

definition tier_is :: "tier \<Rightarrow> violation list \<Rightarrow> bool" where
  "tier_is t vs \<longleftrightarrow> list_all (\<lambda>v. v_tier v = t) vs"

lemma tier_is_Nil [simp]: "tier_is t []"
  and tier_is_make [simp]: "tier_is t (makeViolation t' c m cs r # vs) \<longleftrightarrow> t' = t \<and> tier_is t vs"
  by (simp_all add: tier_is_def)

lemma tier_is_append: "tier_is t (xs @ ys) \<longleftrightarrow> tier_is t xs \<and> tier_is t ys"
  by (simp add: tier_is_def)

lemma tier_is_concat: "(\<And>x. x \<in> set xs \<Longrightarrow> tier_is t (f x)) \<Longrightarrow> tier_is t (concat (map f xs))"
  by (auto simp: tier_is_def list_all_iff)

lemma tier_is_if: "(b \<Longrightarrow> tier_is t xs) \<Longrightarrow> (\<not> b \<Longrightarrow> tier_is t ys) \<Longrightarrow> tier_is t (if b then xs else ys)"
  by simp

lemma tier_is_case_option:
  "(o' = None \<Longrightarrow> tier_is t xs) \<Longrightarrow> (\<And>y. o' = Some y \<Longrightarrow> tier_is t (f y)) \<Longrightarrow> tier_is t (case o' of None \<Rightarrow> xs | Some y \<Rightarrow> f y)"
  by (cases o') simp_all

lemma tier_is_case_prod: "(\<And>a b. p = (a, b) \<Longrightarrow> tier_is t (f a b)) \<Longrightarrow> tier_is t (case p of (a, b) \<Rightarrow> f a b)"
  by (cases p) simp

lemma tier_is_for_sections: "(\<And>yg sec. tier_is t (f yg sec)) \<Longrightarrow> tier_is t (for_sections inp cur f)"
  unfolding for_sections_def by (intro tier_is_case_option tier_is_concat) simp_all

lemma tier_is_map: "(\<And>x. v_tier (mk x) = t) \<Longrightarrow> tier_is t (map mk xs)"
  by (simp add: tier_is_def list_all_iff)

lemmas tier_rules = tier_is_concat tier_is_if tier_is_case_option tier_is_case_prod tier_is_for_sections

lemma tier_scan: "(\<And>x. v_tier (mk x) = t) \<Longrightarrow> tier_is t (snd (scan_pairs hit pk mk ps ([], [])))"
  by (simp add: scan_pairs_eq tier_is_map)

lemma tier_clash_checks [tier_facts]:
  "tier_is Tier1 (checkTier1TeacherDoubleBooking inp asgs)"
  "tier_is Tier2 (checkTier2RoomDoubleBooking inp asgs)"
  "tier_is Tier2 (checkTier2StudentOverlap inp asgs)"
  unfolding checkTier1TeacherDoubleBooking_def checkTier2RoomDoubleBooking_def checkTier2StudentOverlap_def
  by (rule tier_scan, simp add: teacher_violation_def room_violation_def overlap_violation_def Let_def
      split: prod.splits)+

lemma tier_teacher_checks [tier_facts]:
  "tier_is Tier2 (checkTier2TeacherAvailability inp asgs)"
  "tier_is Tier2 (checkTier2TeacherCompetency inp asgs)"
  "tier_is Tier2 (checkTier2TeacherDailyLoad inp asgs)"
  "tier_is Tier2 (checkTier2TeacherWeeklyLoad inp asgs)"
  "tier_is Tier3 (checkTier3TeacherTimeSlotPreferences inp asgs)"
  "tier_is Tier3 (checkTier3TeacherGaps inp asgs)"
  "tier_is Tier3 (checkTier3WorkloadImbalance inp asgs)"
  "tier_is Tier3 (checkTier3BreakDutyImbalance inp asgs)"
  unfolding checkTier2TeacherAvailability_def checkTier2TeacherCompetency_def checkTier2TeacherDailyLoad_def
    checkTier2TeacherWeeklyLoad_def checkTier3TeacherTimeSlotPreferences_def checkTier3TeacherGaps_def
    checkTier3WorkloadImbalance_def checkTier3BreakDutyImbalance_def availability_violations_def
    competency_violations_def daily_load_violations_def weekly_load_violations_def time_slot_violations_def
    gap_violations_def imbalance_violations_def Let_def
  by (intro tier_rules; simp)+

lemma tier_curriculum_checks [tier_facts]:
  "tier_is Tier2 (checkTier2SubjectMinFrequency inp asgs)"
  "tier_is Tier2 (checkTier2SubjectMaxPerDay inp asgs)"
  "tier_is Tier2 (checkTier2MaxConsecutive inp asgs)"
  "tier_is Tier2 (checkTier2MinConsecutive inp asgs)"
  "tier_is Tier2 (checkTier2RoomTypeMismatch inp asgs)"
  "tier_is Tier3 (checkTier3RoomNotPreferred inp asgs)"
  "tier_is Tier3 (checkTier3SubjectPreferredFrequency inp asgs)"
  unfolding checkTier2SubjectMinFrequency_def checkTier2SubjectMaxPerDay_def checkTier2MaxConsecutive_def
    checkTier2MinConsecutive_def checkTier2RoomTypeMismatch_def checkTier3RoomNotPreferred_def
    checkTier3SubjectPreferredFrequency_def min_frequency_violations_def max_per_day_violations_def
    max_consecutive_violations_def min_consecutive_violations_def room_type_violations_def
    room_preferred_violations_def preferred_frequency_violations_def Let_def
  by (intro tier_rules; simp)+

lemma tier_break_checks [tier_facts]:
  "tier_is Tier2 (checkTier2BreakSupervisionUnderstaffed inp asgs)"
  "tier_is Tier2 (checkTier2ClassroomBreakTeacherMissing inp asgs)"
  unfolding checkTier2BreakSupervisionUnderstaffed_def checkTier2ClassroomBreakTeacherMissing_def
    break_group_violations_def classroom_break_violations_def Let_def
  by (intro tier_rules; simp)+

section \<open>What the report says\<close>

lemma tier_count_append [simp]: "tier_count t (xs @ ys) = tier_count t xs + tier_count t ys"
  by (simp add: tier_count_def)

lemma tier_count_is: "tier_is t' vs \<Longrightarrow> tier_count t vs = (if t = t' then length vs else 0)"
  by (auto simp: tier_is_def tier_count_def list_all_iff filter_id_conv filter_empty_conv)

lemmas tier_counts = tier_facts [THEN tier_count_is]

lemma tier1_count:
  "sum_tier1 (res_summary (validateSchedule inp asgs)) = length (checkTier1TeacherDoubleBooking inp asgs)"
  by (simp add: validateSchedule_def Let_def all_violations_def tier_counts spread_empty)

lemma tier2_zero_iff:
  "sum_tier2 (res_summary (validateSchedule inp asgs)) = 0 \<longleftrightarrow>
     checkTier2TeacherAvailability inp asgs = [] \<and> checkTier2TeacherCompetency inp asgs = [] \<and>
     checkTier2SubjectMinFrequency inp asgs = [] \<and> checkTier2SubjectMaxPerDay inp asgs = [] \<and>
     checkTier2TeacherDailyLoad inp asgs = [] \<and> checkTier2TeacherWeeklyLoad inp asgs = [] \<and>
     checkTier2RoomDoubleBooking inp asgs = [] \<and> checkTier2RoomTypeMismatch inp asgs = [] \<and>
     checkTier2BreakSupervisionUnderstaffed inp asgs = [] \<and> checkTier2ClassroomBreakTeacherMissing inp asgs = [] \<and>
     checkTier2StudentOverlap inp asgs = [] \<and> checkTier2MaxConsecutive inp asgs = [] \<and>
     checkTier2MinConsecutive inp asgs = []"
  by (simp add: validateSchedule_def Let_def all_violations_def tier_counts spread_empty)

text \<open>The first tier of the report is the double-booking check and nothing else: its count is zero,
  so that the timetable may be saved, exactly when no teacher has two overlapping entries on one day.\<close>

theorem report_tier1_zero_iff:
  "sum_tier1 (res_summary (validateSchedule inp asgs)) = 0 \<longleftrightarrow>
   \<not> (\<exists>i j. i < j \<and> j < length asgs \<and>
        truthy (asg_teacher (asgs ! i)) \<and> asg_teacher (asgs ! i) = asg_teacher (asgs ! j) \<and>
        asg_weekday (asgs ! i) = asg_weekday (asgs ! j) \<and> entries_overlap inp (asgs ! i) (asgs ! j))"
  unfolding tier1_count length_0_conv teacher_report teacher_scan.report_empty_iff teacher_scan_clash
    teacher_clash_def same_resource_day_def by blast

definition incompetent :: "solver_input \<Rightarrow> assignment \<Rightarrow> bool" where
  "incompetent inp a \<longleftrightarrow> truthy (asg_teacher a) \<and> truthy (asg_subject_id a) \<and> \<not> asg_is_supervision a \<and>
     (\<exists>t. find_teacher inp (asg_teacher a) = Some t \<and> \<not> has_competency t a)"

definition wrong_room_type :: "solver_input \<Rightarrow> assignment \<Rightarrow> bool" where
  "wrong_room_type inp a \<longleftrightarrow> truthy (asg_room_id a) \<and> truthy (asg_subject_id a) \<and> \<not> asg_is_supervision a \<and>
     (\<exists>cur room. find_curriculum inp (asg_year_group_id a) (asg_subject_id a) = Some cur \<and>
        truthy (cur_required_room_type cur) \<and> find_room inp (asg_room_id a) = Some room \<and>
        cur_required_room_type cur \<noteq> Some (room_type room))"

definition isolated_period :: "solver_input \<Rightarrow> assignment list \<Rightarrow> bool" where
  \<comment> \<open>a subject that needs double periods has, on a day with at least two of it, one without a neighbour\<close>
  "isolated_period inp asgs \<longleftrightarrow>
     (\<exists>cur yg sec w po. cur \<in> set (inp_curriculum inp) \<and> cur_requires_double_period cur \<and>
        find_year_group inp (cur_year_group_id cur) = Some yg \<and> sec \<in> set (yg_sections yg) \<and> w \<in> {0..6} \<and>
        2 \<le> length (sorted_orders sec cur w asgs) \<and> po \<in> set (sorted_orders sec cur w asgs) \<and>
        \<not> has_adjacent_pair (slot_sequences (sorted_day_slots (yg_period_grid yg) w) [])
            (sorted_orders sec cur w asgs) po)"

definition hard_feasible :: "solver_input \<Rightarrow> assignment list \<Rightarrow> bool" where
  \<comment> \<open>the hard constraints of a timetable, stated on the timetable\<close>
  "hard_feasible inp asgs \<longleftrightarrow>
     \<not> (\<exists>i j. i < j \<and> j < length asgs \<and> teacher_clash inp (asgs ! i) (asgs ! j)) \<and>
     \<not> (\<exists>i j. i < j \<and> j < length asgs \<and> room_clash inp (asgs ! i) (asgs ! j)) \<and>
     \<not> (\<exists>ov a b. ov \<in> set (inp_student_overlaps inp) \<and> a \<in> set asgs \<and> b \<in> set asgs \<and>
          asg_class_id a = ov_class_id_a ov \<and> asg_class_id b = ov_class_id_b ov \<and>
          \<not> asg_is_supervision a \<and> \<not> asg_is_supervision b \<and>
          asg_weekday a = asg_weekday b \<and> entries_overlap inp a b) \<and>
     \<not> (\<exists>a \<in> set asgs. unavailable inp a \<or> incompetent inp a \<or> wrong_room_type inp a) \<and>
     list_all (within_limits asgs) (inp_teachers inp) \<and>
     \<not> (\<exists>cur sec. applies_to inp cur sec \<and>
          int (length (filter (is_entry sec cur) asgs)) < cur_min_periods_per_week cur) \<and>
     \<not> (\<exists>cur sec w. applies_to inp cur sec \<and> w \<in> {0..6} \<and>
          cur_max_periods_per_day cur < int (length (day_entries sec cur w asgs))) \<and>
     \<not> isolated_period inp asgs \<and>
     \<not> (\<exists>bg w po. bg \<in> set (inp_break_groups inp) \<and> yard_slot_at inp bg w po \<and>
          int (length (supervisors asgs bg w po)) < bg_required_supervisor_count bg) \<and>
     \<not> (\<exists>yg \<in> set (inp_year_groups inp). \<exists>b \<in> set (classroom_breaks yg). \<exists>sec \<in> set (yg_sections yg).
          \<not> break_covered asgs yg b sec)"

lemma competency_empty_iff:
  "checkTier2TeacherCompetency inp asgs = [] \<longleftrightarrow> \<not> (\<exists>a \<in> set asgs. incompetent inp a)"
  unfolding checkTier2TeacherCompetency_def concat_map_Nil_iff competency_violations_iff incompetent_def by blast

lemma room_type_empty_iff:
  "checkTier2RoomTypeMismatch inp asgs = [] \<longleftrightarrow> \<not> (\<exists>a \<in> set asgs. wrong_room_type inp a)"
proof -
  have "room_type_violations inp a = [] \<longleftrightarrow> \<not> wrong_room_type inp a" for a
    by (auto simp: room_type_violations_def wrong_room_type_def split: option.splits)
  then show ?thesis by (simp add: checkTier2RoomTypeMismatch_def concat_map_Nil_iff)
qed

lemma min_consecutive_empty_iff:
  "checkTier2MinConsecutive inp asgs = [] \<longleftrightarrow> \<not> isolated_period inp asgs"
proof -
  have inner: "min_consecutive_violations asgs cur yg sec w \<noteq> [] \<longleftrightarrow>
      2 \<le> length (sorted_orders sec cur w asgs) \<and>
      (\<exists>po \<in> set (sorted_orders sec cur w asgs).
         \<not> has_adjacent_pair (slot_sequences (sorted_day_slots (yg_period_grid yg) w) [])
            (sorted_orders sec cur w asgs) po)" for cur yg sec w
    unfolding min_consecutive_Nil_iff by (auto simp: list_all_iff)
  have "(if \<not> cur_requires_double_period cur then []
         else for_sections inp cur (\<lambda>yg sec. concat (map (min_consecutive_violations asgs cur yg sec) weekdays))) = [] \<longleftrightarrow>
      \<not> (cur_requires_double_period cur \<and> (\<exists>yg. find_year_group inp (cur_year_group_id cur) = Some yg \<and>
          (\<exists>sec \<in> set (yg_sections yg). \<exists>w \<in> {0..6}. min_consecutive_violations asgs cur yg sec w \<noteq> [])))" for cur
    by (cases "cur_requires_double_period cur") (simp_all add: for_sections_Nil_iff concat_map_Nil_iff weekdays_set)
  then show ?thesis
    unfolding checkTier2MinConsecutive_def concat_map_Nil_iff isolated_period_def inner by blast
qed

lemma max_consecutive_redundant:
  "checkTier2SubjectMaxPerDay inp asgs = [] \<Longrightarrow> checkTier2MaxConsecutive inp asgs = []"
proof -
  have "max_per_day_violations asgs cur sec w = [] \<Longrightarrow> max_consecutive_violations asgs cur yg sec w = []"
    for cur yg sec w
    using max_consecutive_le_max_per_day [of asgs cur yg sec w] by simp
  then show "checkTier2SubjectMaxPerDay inp asgs = [] \<Longrightarrow> checkTier2MaxConsecutive inp asgs = []"
    unfolding checkTier2MaxConsecutive_def checkTier2SubjectMaxPerDay_def concat_map_Nil_iff for_sections_Nil_iff
    by blast
qed


section \<open>The score and the cell map\<close>

lemma tier_count_sum: "tier_count Tier1 vs + tier_count Tier2 vs + tier_count Tier3 vs = length vs"
proof (induction vs)
  case (Cons v vs)
  then show ?case by (cases "v_tier v") (simp_all add: tier_count_def)
qed (simp add: tier_count_def)

text \<open>C7: the health score lies between 0 and 100, it is 100 exactly when there is no violation at all,
  and the three counts of the summary add up to the number of violations listed.\<close>

theorem health_score_meaning:
  "0 \<le> res_health_score (validateSchedule inp asgs) \<and> res_health_score (validateSchedule inp asgs) \<le> 100 \<and>
   (res_health_score (validateSchedule inp asgs) = 100 \<longleftrightarrow> res_violations (validateSchedule inp asgs) = []) \<and>
   sum_tier1 (res_summary (validateSchedule inp asgs)) + sum_tier2 (res_summary (validateSchedule inp asgs)) +
   sum_tier3 (res_summary (validateSchedule inp asgs)) = length (res_violations (validateSchedule inp asgs))"
proof -
  have hundred: "computeHealthScore a b c = 100 \<longleftrightarrow> a + b + c = 0" for a b c
    by (auto simp: computeHealthScore_def Let_def)
  have range: "0 \<le> computeHealthScore a b c" "computeHealthScore a b c \<le> 100" for a b c
    by (simp_all add: computeHealthScore_def Let_def)
  show ?thesis
    by (simp add: validateSchedule_def Let_def hundred range tier_count_sum)
qed

definition at_cell :: "string \<Rightarrow> int \<Rightarrow> int \<Rightarrow> cell \<Rightarrow> bool" where
  "at_cell yg w po c \<longleftrightarrow> cell_year_group_id c = yg \<and> cell_weekday c = w \<and> cell_period_order c = po"

lemma map_get_group_add: "map_get (group_add k' v m) k [] = map_get m k [] @ (if k' = k then [v] else [])"
  by (auto simp: group_add_def map_get_def update_conv' split: option.splits)

lemma cell_key_at: "cellKey (cell_year_group_id c) (cell_weekday c) (cell_period_order c) = cellKey yg w po \<longleftrightarrow> at_cell yg w po c"
  by (simp add: cellKey_def key3_inj at_cell_def)

lemma cells_fold:
  "map_get (foldl (\<lambda>m c. group_add (cellKey (cell_year_group_id c) (cell_weekday c) (cell_period_order c)) v m) m cs)
     (cellKey yg w po) [] = map_get m (cellKey yg w po) [] @ map (\<lambda>_. v) (filter (at_cell yg w po) cs)"
  by (induction cs arbitrary: m) (simp_all add: map_get_group_add cell_key_at)

lemma cell_map_fold:
  "map_get (foldl (\<lambda>m v. foldl (\<lambda>m c. group_add (cellKey (cell_year_group_id c) (cell_weekday c) (cell_period_order c)) v m)
       m (v_cells v)) m vs) (cellKey yg w po) [] =
   map_get m (cellKey yg w po) [] @ concat (map (\<lambda>v. map (\<lambda>_. v) (filter (at_cell yg w po) (v_cells v))) vs)"
  by (induction vs arbitrary: m) (simp_all add: cells_fold)

text \<open>C8: the editor's cell map is exact: under the key of a cell it lists, in the order of the report,
  every violation once for each time the cell occurs among the violation's cells, and nothing else.\<close>

theorem cell_map_exact:
  "map_get (res_cell_violations (validateSchedule inp asgs)) (cellKey yg w po) [] =
   concat (map (\<lambda>v. map (\<lambda>_. v) (filter (at_cell yg w po) (v_cells v)))
     (res_violations (validateSchedule inp asgs)))"
  using cell_map_fold [where m = "[]"]
  by (simp add: validateSchedule_def Let_def buildCellViolationMap_def map_get_def)

end
