(* ===== verification/Teacher_Candidates.thy ===== *)
theory Teacher_Candidates
  imports Timetable_Teachers
begin

text \<open>
  \<open>packages/shared/src/scheduler/teacher-candidates.ts\<close>: which teachers the solver may give a class and
  subject. A competency pinned to the class fixes the teacher; otherwise every teacher with an unpinned
  competency for the year group and subject is a candidate.
\<close>

datatype resolution = Pinned (pinned_teacher: string) | Pool (pool_teachers: "string list") | Missing

datatype assignment_mode = Mode_pinned | Mode_pool | Mode_missing

definition is_pin :: "string \<Rightarrow> string \<Rightarrow> string \<Rightarrow> teacher_competency \<Rightarrow> bool" where
  "is_pin cid ygid sid c \<longleftrightarrow> comp_class_id c = Some cid \<and> comp_subject_id c = sid \<and> comp_year_group_id c = ygid"

definition is_pool :: "string \<Rightarrow> string \<Rightarrow> teacher_competency \<Rightarrow> bool" where
  "is_pool ygid sid c \<longleftrightarrow> comp_class_id c = None \<and> comp_subject_id c = sid \<and> comp_year_group_id c = ygid"

fun first_pin :: "teacher_input list \<Rightarrow> string \<Rightarrow> string \<Rightarrow> string \<Rightarrow> string option" where
  \<comment> \<open>the first loop, with its early return\<close>
  "first_pin [] cid ygid sid = None"
| "first_pin (t # ts) cid ygid sid =
     (case List.find (is_pin cid ygid sid) (tch_competencies t) of
        Some pin \<Rightarrow> Some (tch_id t)
      | None \<Rightarrow> first_pin ts cid ygid sid)"

fun pool_ids :: "teacher_input list \<Rightarrow> string \<Rightarrow> string \<Rightarrow> string list" where
  \<comment> \<open>the second loop\<close>
  "pool_ids [] ygid sid = []"
| "pool_ids (t # ts) ygid sid =
     (case List.find (is_pool ygid sid) (tch_competencies t) of
        Some entry \<Rightarrow> tch_id t # pool_ids ts ygid sid
      | None \<Rightarrow> pool_ids ts ygid sid)"

definition resolveTeacherCandidates ::
  "teacher_input list \<Rightarrow> string \<Rightarrow> string \<Rightarrow> string \<Rightarrow> resolution" where
  "resolveTeacherCandidates teachers cid ygid sid =
     (case first_pin teachers cid ygid sid of
        Some tid \<Rightarrow> Pinned tid
      | None \<Rightarrow>
          let ids = pool_ids teachers ygid sid
          in if length ids > 0 then Pool ids else Missing)"

fun mode_of :: "resolution \<Rightarrow> assignment_mode" where
  "mode_of (Pinned _) = Mode_pinned"
| "mode_of (Pool _) = Mode_pool"
| "mode_of Missing = Mode_missing"

definition getTeacherAssignmentMode ::
  "teacher_input list \<Rightarrow> string \<Rightarrow> string \<Rightarrow> string \<Rightarrow> assignment_mode" where
  "getTeacherAssignmentMode teachers cid ygid sid = mode_of (resolveTeacherCandidates teachers cid ygid sid)"

definition candidates :: "resolution \<Rightarrow> string list" where
  "candidates r = (case r of Pinned t \<Rightarrow> [t] | Pool ts \<Rightarrow> ts | Missing \<Rightarrow> [])"

definition pins_teacher :: "string \<Rightarrow> string \<Rightarrow> string \<Rightarrow> teacher_input \<Rightarrow> bool" where
  "pins_teacher cid ygid sid t \<longleftrightarrow> (\<exists>c \<in> set (tch_competencies t). is_pin cid ygid sid c)"

definition pools_teacher :: "string \<Rightarrow> string \<Rightarrow> teacher_input \<Rightarrow> bool" where
  "pools_teacher ygid sid t \<longleftrightarrow> (\<exists>c \<in> set (tch_competencies t). is_pool ygid sid c)"

lemma find_isSome: "(case List.find P xs of None \<Rightarrow> a | Some _ \<Rightarrow> b) = (if \<exists>x \<in> set xs. P x then b else a)"
  by (auto simp: find_None_iff find_Some_iff split: option.splits)

lemma first_pin_eq:
  "first_pin ts cid ygid sid = map_option tch_id (List.find (pins_teacher cid ygid sid) ts)"
  by (induction ts) (simp_all add: find_isSome pins_teacher_def)

lemma pool_ids_eq: "pool_ids ts ygid sid = map tch_id (filter (pools_teacher ygid sid) ts)"
  by (induction ts) (simp_all add: find_isSome pools_teacher_def)

text \<open>C12: the resolution in full: a pin of the class fixes the first teacher that has one, whatever the
  pool holds; without a pin the pool is every teacher with an unpinned competency, in input order; and
  \<open>missing\<close> is returned exactly when there is neither.\<close>

theorem resolveTeacherCandidates_spec:
  "resolveTeacherCandidates ts cid ygid sid =
     (if \<exists>t \<in> set ts. pins_teacher cid ygid sid t
      then Pinned (tch_id (hd (filter (pins_teacher cid ygid sid) ts)))
      else if \<exists>t \<in> set ts. pools_teacher ygid sid t
      then Pool (map tch_id (filter (pools_teacher ygid sid) ts))
      else Missing)"
proof -
  have find: "List.find P xs = (if \<exists>x \<in> set xs. P x then Some (hd (filter P xs)) else None)" for P and xs :: "teacher_input list"
    by (induction xs) auto
  show ?thesis
    by (auto simp: resolveTeacherCandidates_def first_pin_eq pool_ids_eq find filter_empty_conv Let_def)
qed

text \<open>The solver and the validator do not ask the same of a teacher: the validator accepts a teacher for
  an entry exactly when the teacher alone would be a candidate for it or holds a matching competency that
  is pinned to some other class, so that it does not see a class given to a teacher who is pinned elsewhere.\<close>

theorem validator_accepts_iff_candidate_or_pinned_elsewhere:
  "has_competency t (a\<lparr>asg_subject_id := Some sid\<rparr>) \<longleftrightarrow>
   candidates (resolveTeacherCandidates [t] (asg_class_id a) (asg_year_group_id a) sid) = [tch_id t] \<or>
   (\<exists>c cid'. c \<in> set (tch_competencies t) \<and> is_pin cid' (asg_year_group_id a) sid c \<and> cid' \<noteq> asg_class_id a)"
proof -
  have cand: "candidates (resolveTeacherCandidates [t] cid ygid sid) = [tch_id t] \<longleftrightarrow>
      pins_teacher cid ygid sid t \<or> pools_teacher ygid sid t" for cid ygid
    by (auto simp: resolveTeacherCandidates_def first_pin_eq pool_ids_eq candidates_def)
  have comp: "has_competency t (a\<lparr>asg_subject_id := Some sid\<rparr>) \<longleftrightarrow>
      (\<exists>c \<in> set (tch_competencies t). comp_subject_id c = sid \<and> comp_year_group_id c = asg_year_group_id a)"
    by (auto simp: has_competency_def list_ex_iff)
  have split: "comp_subject_id c = sid \<and> comp_year_group_id c = ygid \<longleftrightarrow>
      is_pin cid ygid sid c \<or> is_pool ygid sid c \<or> (\<exists>cid'. is_pin cid' ygid sid c \<and> cid' \<noteq> cid)" for c cid ygid
    by (cases "comp_class_id c") (auto simp: is_pin_def is_pool_def)
  show ?thesis
    unfolding cand comp pins_teacher_def pools_teacher_def split [where cid = "asg_class_id a"] by blast
qed

definition placed_by_candidates :: "solver_input \<Rightarrow> assignment \<Rightarrow> bool" where
  \<comment> \<open>the entry's teacher is one of the candidates of its class, year group and subject\<close>
  "placed_by_candidates inp a =
     (case (asg_teacher a, asg_subject_id a) of
        (Some tid, Some sid) \<Rightarrow>
          tid \<in> set (candidates (resolveTeacherCandidates (inp_teachers inp) (asg_class_id a) (asg_year_group_id a) sid))
      | _ \<Rightarrow> True)"

lemma candidate_source:
  assumes "tid \<in> set (candidates (resolveTeacherCandidates ts cid ygid sid))"
  shows "\<exists>t \<in> set ts. tch_id t = tid \<and> (pins_teacher cid ygid sid t \<or> pools_teacher ygid sid t)"
  using assms
  by (auto simp: resolveTeacherCandidates_def first_pin_eq pool_ids_eq candidates_def Let_def
      dest!: find_Some_in split: option.splits if_splits)

lemma candidate_competent:
  assumes dist: "distinct (map tch_id (inp_teachers inp))"
    and placed: "placed_by_candidates inp a" and subj: "truthy (asg_subject_id a)"
    and found: "find_teacher inp (asg_teacher a) = Some t"
  shows "has_competency t a"
proof -
  from found have t: "t \<in> set (inp_teachers inp)" "Some (tch_id t) = asg_teacher a"
    by (auto simp: find_teacher_def dest: find_Some_in)
  obtain sid where sid: "asg_subject_id a = Some sid" using subj by (rule truthyE)
  from placed t(2) sid obtain t' where t': "t' \<in> set (inp_teachers inp)" "tch_id t' = tch_id t"
      "pins_teacher (asg_class_id a) (asg_year_group_id a) sid t' \<or> pools_teacher (asg_year_group_id a) sid t'"
    by (auto simp: placed_by_candidates_def split: option.splits dest!: candidate_source)
  from dist t(1) t'(1,2) have "t' = t" by (auto simp: distinct_map dest: inj_onD)
  with t'(3) sid show ?thesis
    by (auto simp: has_competency_def list_ex_iff pins_teacher_def pools_teacher_def is_pin_def is_pool_def)
qed

text \<open>C11: the solver's candidates pass the validator: when teacher ids are distinct and every entry takes its
  teacher from the candidates of its own class, year group and subject, the validator's competency check
  reports nothing.\<close>

theorem candidates_pass_validator:
  assumes "distinct (map tch_id (inp_teachers inp))"
    and "list_all (placed_by_candidates inp) asgs"
  shows "checkTier2TeacherCompetency inp asgs = []"
  unfolding checkTier2TeacherCompetency_def concat_map_Nil_iff competency_violations_iff
  using assms candidate_competent by (auto simp: list_all_iff)

definition example_settings :: solver_settings where
  "example_settings = \<lparr>set_max_solver_duration_seconds = 120,
     set_preference_weights = \<lparr>pw_low = 1, pw_medium = 2, pw_high = 3\<rparr>,
     set_global_soft_weights = \<lparr>gw_even_subject_spread = 2, gw_minimise_teacher_gaps = 1, gw_room_consistency = 1,
       gw_workload_balance = 1, gw_break_duty_balance = 1\<rparr>,
     set_solver_seed = None, set_num_search_workers = None\<rparr>"

definition example_teacher :: teacher_input where
  "example_teacher = \<lparr>tch_id = ''t1'', tch_name = ''Ada'',
     tch_competencies = [\<lparr>comp_subject_id = ''maths'', comp_year_group_id = ''y1'', comp_class_id = None\<rparr>],
     tch_availability = [], tch_preferences = [], tch_max_periods_per_week = Some 20,
     tch_max_periods_per_day = Some 6, tch_max_supervision_duties_per_week = None\<rparr>"

definition example_input :: solver_input where
  "example_input = \<lparr>inp_year_groups = [], inp_curriculum = [], inp_teachers = [example_teacher], inp_rooms = [],
     inp_room_closures = [], inp_break_groups = [], inp_pinned_entries = [], inp_student_overlaps = [],
     inp_class_room_overrides = None, inp_overrides_applied = None, inp_settings = example_settings\<rparr>"

definition example_entry :: assignment where
  "example_entry = \<lparr>asg_class_id = ''1A'', asg_subject_id = Some ''maths'', asg_year_group_id = ''y1'',
     asg_room_id = None, asg_teacher = Some ''t1'', asg_weekday = 1, asg_period_order = 1,
     asg_start_time = ''09:00'', asg_end_time = ''09:40'', asg_is_pinned = False, asg_break_group_id = None,
     asg_is_supervision = False, asg_preference_satisfaction = []\<rparr>"

lemma candidates_pass_validator_witness: "checkTier2TeacherCompetency example_input [example_entry] = []"
  by (rule candidates_pass_validator) code_simp+

end
