(* ===== verification/Risk_Engine.thy ===== *)
theory Risk_Engine
  imports Prelude_TS "HOL-Library.Multiset"
begin

text \<open>
  The early-warning scoring engine: \<open>apps/api/src/modules/early-warning/engine/hysteresis.evaluator.ts\<close>,
  \<open>scoring.engine.ts\<close> and \<open>summary.builder.ts\<close>, with the constants and types of
  \<open>packages/shared/src/early-warning\<close>. Scores and weights are rationals (\<open>rat\<close>), composite scores are
  integers because the code rounds them. The copy that the worker carries is in \<open>Risk_Worker\<close>.
\<close>

section \<open>Data\<close>

datatype risk_tier = Green | Yellow | Amber | Red

datatype signal_domain = Attendance | Grades | Behaviour | Wellbeing | Engagement

datatype signal_severity = Sev_low | Sev_medium | Sev_high | Sev_critical

record detected_signal =
  sig_type :: string
  sig_severity :: signal_severity
  sig_contribution :: rat
  sig_details :: "(string \<times> string) list"
  sig_source_entity_type :: string
  sig_source_entity_id :: string
  sig_fragment :: string

record signal_result =
  sr_domain :: signal_domain
  sr_raw_score :: rat
  sr_signals :: "detected_signal list"
  sr_summary_fragments :: "string list"

type_synonym domain_scores = "signal_domain \<Rightarrow> rat"

type_synonym weight_config = "signal_domain \<Rightarrow> rat"

type_synonym threshold_config = "risk_tier \<Rightarrow> rat"

record risk_assessment =
  ra_score :: int
  ra_tier :: risk_tier
  ra_domain_scores :: domain_scores
  ra_boost :: rat
  ra_signals :: "detected_signal list"
  ra_summary :: string
  ra_trend :: "int list"
  ra_tier_changed :: bool
  ra_previous :: "risk_tier option"

fun DEFAULT_WEIGHTS :: weight_config where
  "DEFAULT_WEIGHTS Attendance = 25"
| "DEFAULT_WEIGHTS Grades = 25"
| "DEFAULT_WEIGHTS Behaviour = 20"
| "DEFAULT_WEIGHTS Wellbeing = 20"
| "DEFAULT_WEIGHTS Engagement = 10"

fun DEFAULT_THRESHOLDS :: threshold_config where
  "DEFAULT_THRESHOLDS Green = 0"
| "DEFAULT_THRESHOLDS Yellow = 8"
| "DEFAULT_THRESHOLDS Amber = 18"
| "DEFAULT_THRESHOLDS Red = 32"

definition DEFAULT_HYSTERESIS_BUFFER :: rat where
  "DEFAULT_HYSTERESIS_BUFFER = 10"

definition DEFAULT_CROSS_DOMAIN_THRESHOLD :: rat where
  "DEFAULT_CROSS_DOMAIN_THRESHOLD = 40"

definition DOMAIN_KEYS :: "signal_domain list" where
  "DOMAIN_KEYS = [Attendance, Grades, Behaviour, Wellbeing, Engagement]"

section \<open>Tier order\<close>

fun TIER_ORDER :: "risk_tier \<Rightarrow> nat" where
  "TIER_ORDER Green = 0"
| "TIER_ORDER Yellow = 1"
| "TIER_ORDER Amber = 2"
| "TIER_ORDER Red = 3"

definition TIERS_BY_ORDER :: "risk_tier list" where
  "TIERS_BY_ORDER = [Green, Yellow, Amber, Red]"

instantiation risk_tier :: linorder
begin

definition less_eq_risk_tier :: "risk_tier \<Rightarrow> risk_tier \<Rightarrow> bool" where
  "less_eq_risk_tier a b \<longleftrightarrow> TIER_ORDER a \<le> TIER_ORDER b"

definition less_risk_tier :: "risk_tier \<Rightarrow> risk_tier \<Rightarrow> bool" where
  "less_risk_tier a b \<longleftrightarrow> TIER_ORDER a < TIER_ORDER b"

instance
proof
  fix a b c :: risk_tier
  show "(a < b) = (a \<le> b \<and> \<not> b \<le> a)" by (auto simp: less_eq_risk_tier_def less_risk_tier_def)
  show "a \<le> a" by (simp add: less_eq_risk_tier_def)
  show "a \<le> b \<Longrightarrow> b \<le> c \<Longrightarrow> a \<le> c" by (simp add: less_eq_risk_tier_def)
  show "a \<le> b \<Longrightarrow> b \<le> a \<Longrightarrow> a = b" by (cases a; cases b) (simp_all add: less_eq_risk_tier_def)
  show "a \<le> b \<or> b \<le> a" by (auto simp: less_eq_risk_tier_def)
qed

end

lemmas tier_less = less_eq_risk_tier_def less_risk_tier_def

section \<open>Hysteresis\<close>

definition rawTierFromScore :: "rat \<Rightarrow> threshold_config \<Rightarrow> risk_tier" where
  "rawTierFromScore score th =
     (if score \<ge> th Red then Red else if score \<ge> th Amber then Amber
      else if score \<ge> th Yellow then Yellow else Green)"

fun walk_down :: "rat \<Rightarrow> threshold_config \<Rightarrow> rat \<Rightarrow> nat \<Rightarrow> risk_tier \<Rightarrow> risk_tier" where
  \<comment> \<open>\<open>for (let order = prevOrder; order > 0; order--)\<close> with its \<open>break\<close>\<close>
  "walk_down score th buffer 0 effective = effective"
| "walk_down score th buffer (Suc k) effective =
     (let tierAtOrder = TIERS_BY_ORDER ! Suc k;
          hysteresisLine = th tierAtOrder - buffer
      in if score \<le> hysteresisLine then walk_down score th buffer k (TIERS_BY_ORDER ! k)
         else effective)"

definition assignTier :: "rat \<Rightarrow> risk_tier option \<Rightarrow> threshold_config \<Rightarrow> rat \<Rightarrow> risk_tier \<times> bool" where
  "assignTier score previous th buffer =
     (let rawTier = rawTierFromScore score th
      in case previous of
           None \<Rightarrow> (rawTier, True)
         | Some prev \<Rightarrow>
             let rawOrder = TIER_ORDER rawTier; prevOrder = TIER_ORDER prev
             in if rawOrder > prevOrder then (rawTier, True)
                else if rawOrder = prevOrder then (prev, False)
                else let effective = walk_down score th buffer prevOrder prev
                     in (effective, effective \<noteq> prev))"

section \<open>Scoring\<close>

definition MAX_COMPOSITE_SCORE :: int where "MAX_COMPOSITE_SCORE = 100"

definition MAX_TREND_LENGTH :: nat where "MAX_TREND_LENGTH = 30"

fun set_scores :: "signal_result list \<Rightarrow> (signal_domain \<Rightarrow> rat option) \<Rightarrow> signal_domain \<Rightarrow> rat option" where
  "set_scores [] scores = scores"
| "set_scores (s # ss) scores = set_scores ss (scores(sr_domain s := Some (sr_raw_score s)))"

fun fill_missing :: "signal_domain list \<Rightarrow> (signal_domain \<Rightarrow> rat option) \<Rightarrow> signal_domain \<Rightarrow> rat option" where
  "fill_missing [] scores = scores"
| "fill_missing (k # ks) scores = fill_missing ks (if scores k = None then scores(k := Some 0) else scores)"

definition extractDomainScores :: "signal_result list \<Rightarrow> domain_scores" where
  "extractDomainScores signals = (\<lambda>d. the (fill_missing DOMAIN_KEYS (set_scores signals (\<lambda>_. None)) d))"

definition applyWeights :: "domain_scores \<Rightarrow> weight_config \<Rightarrow> rat" where
  "applyWeights scores weights = foldl (\<lambda>total k. total + scores k * (weights k / 100)) 0 DOMAIN_KEYS"

definition boost_map :: "nat \<Rightarrow> rat option" where
  "boost_map n = (if n = 3 then Some 5 else if n = 4 then Some 10 else if n = 5 then Some 15 else None)"

definition calculateCrossDomainBoost :: "domain_scores \<Rightarrow> rat \<Rightarrow> rat" where
  "calculateCrossDomainBoost scores threshold =
     (let domainsAbove = foldl (\<lambda>n k. if scores k \<ge> threshold then n + 1 else n) 0 DOMAIN_KEYS
      in case boost_map domainsAbove of None \<Rightarrow> 0 | Some b \<Rightarrow> b)"

definition aggregateSignals :: "signal_result list \<Rightarrow> detected_signal list" where
  "aggregateSignals results = foldl (\<lambda>all r. all @ sr_signals r) [] results"

definition buildTrendData :: "int list \<Rightarrow> int \<Rightarrow> int list" where
  "buildTrendData history current =
     (let combined = history @ [current]
      in if length combined > MAX_TREND_LENGTH then drop (length combined - MAX_TREND_LENGTH) combined
         else combined)"

section \<open>Summary\<close>

definition MAX_SIGNAL_FRAGMENTS :: nat where "MAX_SIGNAL_FRAGMENTS = 5"

definition DAYS_PER_WEEK :: nat where "DAYS_PER_WEEK = 7"

definition STABILITY_THRESHOLD :: int where "STABILITY_THRESHOLD = 5"

definition weeks_spanned :: "nat \<Rightarrow> nat" where
  \<comment> \<open>\<open>Math.max(1, Math.ceil(totalDays / DAYS_PER_WEEK))\<close>\<close>
  "weeks_spanned totalDays = max 1 ((totalDays + DAYS_PER_WEEK - 1) div DAYS_PER_WEEK)"

definition earliest_average :: "int list \<Rightarrow> int" where
  "earliest_average history =
     (let slice = take (min DAYS_PER_WEEK (length history)) history
      in js_round (of_int (foldl (+) 0 slice) / of_nat (length slice)))"

definition buildTrendSentence :: "int \<Rightarrow> int list \<Rightarrow> string" where
  "buildTrendSentence currentScore history =
     (let rounded = js_round (of_int currentScore)
      in if length history = 0 then ''Risk score is '' @ int_str rounded @ ''.''
         else
           let weeks = weeks_spanned (length history);
               earliestAvg = earliest_average history;
               diff = rounded - earliestAvg;
               tail = '' over the past '' @ nat_str weeks @ '' week'' @ (if weeks = 1 then '''' else ''s'') @ ''.''
           in if \<bar>diff\<bar> < STABILITY_THRESHOLD then ''Risk score stable at '' @ int_str rounded @ ''.''
              else if diff > 0 then
                ''Risk score increased from '' @ int_str earliestAvg @ '' to '' @ int_str rounded @ tail
              else
                ''Risk score decreased from '' @ int_str earliestAvg @ '' to '' @ int_str rounded @ tail)"

definition by_contribution :: "detected_signal list \<Rightarrow> detected_signal list" where
  \<comment> \<open>\<open>.sort((a, b) => b.scoreContribution - a.scoreContribution)\<close>, a stable sort\<close>
  "by_contribution ss = sort_key (\<lambda>s. - sig_contribution s) ss"

definition topSignalFragments :: "detected_signal list \<Rightarrow> string list" where
  "topSignalFragments signals =
     map sig_fragment
       (take MAX_SIGNAL_FRAGMENTS (by_contribution (filter (\<lambda>s. length (sig_fragment s) > 0) signals)))"

fun join_space :: "string list \<Rightarrow> string" where
  "join_space [] = ''''"
| "join_space [s] = s"
| "join_space (s # ss) = s @ '' '' @ join_space ss"

definition buildSummary :: "int \<Rightarrow> int list \<Rightarrow> detected_signal list \<Rightarrow> string" where
  "buildSummary currentScore history signals =
     (let fragments = topSignalFragments signals
      in join_space (buildTrendSentence currentScore history #
           (if length fragments > 0 then [join_space fragments] else [])))"

definition computeRisk ::
  "signal_result list \<Rightarrow> weight_config \<Rightarrow> threshold_config \<Rightarrow> rat \<Rightarrow> risk_tier option \<Rightarrow> int list \<Rightarrow> rat \<Rightarrow>
   risk_assessment" where
  "computeRisk signals weights thresholds buffer previous history crossDomainThreshold =
     (let domainScores = extractDomainScores signals;
          weightedScore = applyWeights domainScores weights;
          boost = calculateCrossDomainBoost domainScores crossDomainThreshold;
          compositeScore = min MAX_COMPOSITE_SCORE (js_round (weightedScore + boost));
          (tier, tierChanged) = assignTier (of_int compositeScore) previous thresholds buffer;
          allSignals = aggregateSignals signals
      in \<lparr>ra_score = compositeScore, ra_tier = tier, ra_domain_scores = domainScores, ra_boost = boost,
          ra_signals = allSignals, ra_summary = buildSummary compositeScore history allSignals,
          ra_trend = buildTrendData history compositeScore, ra_tier_changed = tierChanged, ra_previous = previous\<rparr>)"

section \<open>Hysteresis: what the tier can be\<close>

lemma all_tiers: "UNIV = {Green, Yellow, Amber, Red}"
  using risk_tier.exhaust by blast

instance risk_tier :: finite
  by standard (simp add: all_tiers)

lemma TIERS_BY_ORDER_inverse [simp]: "TIERS_BY_ORDER ! TIER_ORDER t = t"
  by (cases t) (simp_all add: TIERS_BY_ORDER_def)

lemma TIER_ORDER_inj [simp]: "TIER_ORDER a = TIER_ORDER b \<longleftrightarrow> a = b"
  by (cases a; cases b) simp_all

lemma Green_least [simp]: "Green \<le> t" "t \<le> Green \<longleftrightarrow> t = Green" "Green < t \<longleftrightarrow> t \<noteq> Green"
  by (cases t; simp add: tier_less)+

lemma not_less_Green [simp]: "\<not> t < Green"
  by (simp add: not_less)

definition cleared :: "rat \<Rightarrow> threshold_config \<Rightarrow> rat \<Rightarrow> risk_tier \<Rightarrow> bool" where
  \<comment> \<open>the score is at or below the hysteresis line of the tier\<close>
  "cleared score th buffer t \<longleftrightarrow> score \<le> th t - buffer"

lemma walk_down_cases:
  "walk_down score th buffer (TIER_ORDER p) p =
     (case p of Green \<Rightarrow> Green
      | Yellow \<Rightarrow> if cleared score th buffer Yellow then Green else Yellow
      | Amber \<Rightarrow> if \<not> cleared score th buffer Amber then Amber
                 else if cleared score th buffer Yellow then Green else Yellow
      | Red \<Rightarrow> if \<not> cleared score th buffer Red then Red
               else if \<not> cleared score th buffer Amber then Amber
               else if cleared score th buffer Yellow then Green else Yellow)"
  by (cases p) (simp_all add: TIERS_BY_ORDER_def cleared_def numeral_2_eq_2 numeral_3_eq_3)

lemma walk_down_le: "walk_down score th buffer (TIER_ORDER p) p \<le> p"
  unfolding walk_down_cases by (cases p) (simp_all add: tier_less)

lemma walk_down_passed:
  "walk_down score th buffer (TIER_ORDER p) p < t \<Longrightarrow> t \<le> p \<Longrightarrow> cleared score th buffer t"
  unfolding walk_down_cases by (cases p; cases t) (simp_all add: tier_less split: if_splits)

lemma walk_down_stuck:
  "walk_down score th buffer (TIER_ORDER p) p \<noteq> Green \<Longrightarrow>
   \<not> cleared score th buffer (walk_down score th buffer (TIER_ORDER p) p)"
  unfolding walk_down_cases by (cases p) (simp_all split: if_splits)

lemma walk_down_fix: "\<not> cleared score th buffer p \<Longrightarrow> walk_down score th buffer (TIER_ORDER p) p = p"
  unfolding walk_down_cases by (cases p) simp_all

lemma assignTier_Some:
  "assignTier score (Some p) th buffer =
     (let r = rawTierFromScore score th
      in if p < r then (r, True) else if r = p then (p, False)
         else (walk_down score th buffer (TIER_ORDER p) p, walk_down score th buffer (TIER_ORDER p) p \<noteq> p))"
  by (simp add: assignTier_def Let_def less_risk_tier_def)

lemma walk_down_Min:
  "walk_down score th buffer (TIER_ORDER p) p =
   Min {t. t \<le> p \<and> \<not> (\<exists>t'. t < t' \<and> t' \<le> p \<and> th t' - buffer < score)}"
proof (rule Min_eqI [symmetric])
  let ?w = "walk_down score th buffer (TIER_ORDER p) p"
  show "?w \<in> {t. t \<le> p \<and> \<not> (\<exists>t'. t < t' \<and> t' \<le> p \<and> th t' - buffer < score)}"
    using walk_down_le [of score th buffer p] walk_down_passed [of score th buffer p]
    by (auto simp: cleared_def) (meson leD not_le)
  fix t assume t: "t \<in> {t. t \<le> p \<and> \<not> (\<exists>t'. t < t' \<and> t' \<le> p \<and> th t' - buffer < score)}"
  show "?w \<le> t"
  proof (rule ccontr)
    assume "\<not> ?w \<le> t"
    then have "t < ?w" by simp
    moreover from this have "?w \<noteq> Green" by (cases t) (auto simp: tier_less)
    ultimately show False
      using t walk_down_stuck [of score th buffer p] walk_down_le [of score th buffer p]
      by (auto simp: cleared_def not_le)
  qed
qed simp

text \<open>C4: the tier a score gives a student is the raw tier when that is worse than or equal to the previous one
  (worsening is immediate), and otherwise the lowest tier such that the score is at or below
  threshold minus buffer of every tier passed on the way down; the change flag says exactly whether the tier
  differs from the previous one.\<close>

theorem assignTier_spec:
  "assignTier score (Some prev) th buffer =
     (let r = rawTierFromScore score th;
          t = (if prev \<le> r then r
               else Min {t. t \<le> prev \<and> \<not> (\<exists>t'. t < t' \<and> t' \<le> prev \<and> th t' - buffer < score)})
      in (t, t \<noteq> prev))"
  unfolding walk_down_Min [symmetric] by (auto simp: assignTier_Some Let_def)

definition ascending :: "threshold_config \<Rightarrow> bool" where
  \<comment> \<open>the refinement of \<open>earlyWarningThresholdsSchema\<close>\<close>
  "ascending th \<longleftrightarrow> th Green < th Yellow \<and> th Yellow < th Amber \<and> th Amber < th Red"

lemma raw_ge: "ascending th \<Longrightarrow> t \<noteq> Green \<Longrightarrow> t \<le> rawTierFromScore score th \<longleftrightarrow> th t \<le> score"
  by (cases t) (auto simp: rawTierFromScore_def ascending_def tier_less)

lemma walk_down_ge_raw:
  assumes "ascending th" "0 < buffer" "rawTierFromScore score th < p"
  shows "rawTierFromScore score th \<le> walk_down score th buffer (TIER_ORDER p) p"
proof (rule ccontr)
  let ?r = "rawTierFromScore score th"
  assume "\<not> ?thesis"
  then have lt: "walk_down score th buffer (TIER_ORDER p) p < ?r" by simp
  with assms(3) have "cleared score th buffer ?r" by (intro walk_down_passed) auto
  moreover from lt have "?r \<noteq> Green" by auto
  ultimately show False using raw_ge [OF assms(1), of ?r score] assms(2) by (simp add: cleared_def)
qed

lemma assignTier_again:
  assumes "ascending th" "0 < buffer"
  shows "assignTier score (Some (fst (assignTier score prev th buffer))) th buffer =
         (fst (assignTier score prev th buffer), False)"
proof (cases prev)
  case None
  then show ?thesis by (simp add: assignTier_def Let_def)
next
  case (Some p)
  let ?r = "rawTierFromScore score th" and ?w = "walk_down score th buffer (TIER_ORDER p) p"
  show ?thesis
  proof (cases "?r < p")
    case True
    from walk_down_ge_raw [OF assms True] have ge: "?r \<le> ?w" .
    have again: "walk_down score th buffer (TIER_ORDER ?w) ?w = ?w"
    proof (cases "?w = Green")
      case False
      then have "\<not> cleared score th buffer ?w" by (rule walk_down_stuck)
      then show ?thesis by (rule walk_down_fix)
    qed (simp add: walk_down_cases)
    from True ge again show ?thesis by (auto simp: Some assignTier_Some Let_def)
  qed (auto simp: Some assignTier_Some Let_def)
qed

text \<open>C5: with thresholds in ascending order and a positive buffer, as the configuration schema requires, the
  assigned tier never lies below the raw tier, and a second evaluation of the same score leaves it where
  it is and reports no change: the evaluator cannot oscillate on a constant score.\<close>

theorem assignTier_idempotent:
  assumes "ascending th" and "0 < buffer"
  shows "rawTierFromScore score th \<le> fst (assignTier score prev th buffer) \<and>
         assignTier score (Some (fst (assignTier score prev th buffer))) th buffer =
           (fst (assignTier score prev th buffer), False)"
proof -
  have "rawTierFromScore score th \<le> fst (assignTier score (Some p) th buffer)" for p
    using walk_down_ge_raw [OF assms, of score p] by (auto simp: assignTier_Some Let_def)
  then have "rawTierFromScore score th \<le> fst (assignTier score prev th buffer)"
    by (cases prev) (simp_all add: assignTier_def Let_def)
  with assignTier_again [OF assms] show ?thesis by blast
qed

lemma assignTier_idempotent_witness:
  "rawTierFromScore 15 DEFAULT_THRESHOLDS \<le> fst (assignTier 15 (Some Amber) DEFAULT_THRESHOLDS 10) \<and>
   assignTier 15 (Some (fst (assignTier 15 (Some Amber) DEFAULT_THRESHOLDS 10))) DEFAULT_THRESHOLDS 10 =
     (fst (assignTier 15 (Some Amber) DEFAULT_THRESHOLDS 10), False)"
  by (rule assignTier_idempotent) (simp_all add: ascending_def)

definition tier_run :: "risk_tier \<Rightarrow> int list \<Rightarrow> risk_tier" where
  \<comment> \<open>successive evaluations under the default configuration\<close>
  "tier_run = foldl (\<lambda>t s. fst (assignTier (of_int s) (Some t) DEFAULT_THRESHOLDS DEFAULT_HYSTERESIS_BUFFER))"

lemma default_step_not_green:
  assumes "t \<noteq> Green" "0 \<le> (s :: int)"
  shows "fst (assignTier (of_int s) (Some t) DEFAULT_THRESHOLDS DEFAULT_HYSTERESIS_BUFFER) \<noteq> Green"
proof -
  have "\<not> cleared (of_int s) DEFAULT_THRESHOLDS DEFAULT_HYSTERESIS_BUFFER Yellow"
    using assms(2) by (simp add: cleared_def DEFAULT_HYSTERESIS_BUFFER_def not_le)
  then have "walk_down (of_int s) DEFAULT_THRESHOLDS DEFAULT_HYSTERESIS_BUFFER (TIER_ORDER t) t \<noteq> Green"
    using assms(1) unfolding walk_down_cases by (cases t) simp_all
  with assms(1) show ?thesis by (auto simp: assignTier_Some Let_def dest: less_imp_neq)
qed

text \<open>C6: under the default thresholds and the default buffer no sequence of scores that are not negative ever
  brings a student who has left the green tier back to it: the line for leaving yellow is 8 - 10 = -2.\<close>

theorem default_config_never_returns_to_green:
  "\<not> (\<exists>t scores. t \<noteq> Green \<and> list_all (\<lambda>s. 0 \<le> s) scores \<and> tier_run t scores = Green)"
proof -
  have "t \<noteq> Green \<Longrightarrow> list_all (\<lambda>s. 0 \<le> s) scores \<Longrightarrow> tier_run t scores \<noteq> Green" for t scores
    by (induction scores arbitrary: t) (simp_all add: tier_run_def default_step_not_green)
  then show ?thesis by blast
qed

section \<open>The composite score\<close>

lemma set_scores_last:
  "set_scores ss f d =
     (case filter (\<lambda>s. sr_domain s = d) ss of [] \<Rightarrow> f d | xs \<Rightarrow> Some (sr_raw_score (last xs)))"
  by (induction ss arbitrary: f) (auto split: list.splits)

lemma extractDomainScores_eq:
  "extractDomainScores ss d =
     (case filter (\<lambda>s. sr_domain s = d) ss of [] \<Rightarrow> 0 | xs \<Rightarrow> sr_raw_score (last xs))"
proof -
  have "the (fill_missing DOMAIN_KEYS f d) = (case f d of None \<Rightarrow> 0 | Some x \<Rightarrow> x)" for f
    by (cases d) (auto simp: DOMAIN_KEYS_def split: option.splits)
  then show ?thesis by (simp add: extractDomainScores_def set_scores_last split: list.splits)
qed

lemma applyWeights_sum:
  "applyWeights f w = (f Attendance * w Attendance + f Grades * w Grades + f Behaviour * w Behaviour +
     f Wellbeing * w Wellbeing + f Engagement * w Engagement) / 100"
  by (simp add: applyWeights_def DOMAIN_KEYS_def add_divide_distrib)

lemma boost_range: "0 \<le> calculateCrossDomainBoost f c \<and> calculateCrossDomainBoost f c \<le> 15"
  by (simp add: calculateCrossDomainBoost_def boost_map_def Let_def)

definition weight_total :: "weight_config \<Rightarrow> rat" where
  "weight_total w = w Attendance + w Grades + w Behaviour + w Wellbeing + w Engagement"

definition scores_within :: "rat \<Rightarrow> rat \<Rightarrow> signal_result list \<Rightarrow> bool" where
  "scores_within lo hi ss \<longleftrightarrow> lo \<le> 0 \<and> 0 \<le> hi \<and> list_all (\<lambda>s. lo \<le> sr_raw_score s \<and> sr_raw_score s \<le> hi) ss"

lemma domain_score_within:
  assumes "scores_within lo hi ss" shows "lo \<le> extractDomainScores ss d \<and> extractDomainScores ss d \<le> hi"
proof (cases "filter (\<lambda>s. sr_domain s = d) ss")
  case Nil
  with assms show ?thesis by (simp add: extractDomainScores_eq scores_within_def)
next
  case (Cons x xs)
  have "last (x # xs) \<in> set (x # xs)" by (rule last_in_set) simp
  then have "last (x # xs) \<in> set ss" unfolding Cons [symmetric] by simp
  with assms show ?thesis
    unfolding extractDomainScores_eq Cons by (simp add: scores_within_def list_all_iff del: last.simps)
qed

lemma weighted_within:
  assumes f: "\<And>d. lo \<le> f d \<and> f d \<le> hi" and w: "\<And>d. 0 \<le> w d" and total: "weight_total w = 100"
  shows "lo \<le> applyWeights f w \<and> applyWeights f w \<le> hi"
proof -
  have lo: "lo * w d \<le> f d * w d" and hi: "f d * w d \<le> hi * w d" for d
    using f w by (simp_all add: mult_right_mono)
  have "lo * weight_total w \<le> 100 * applyWeights f w" "100 * applyWeights f w \<le> hi * weight_total w"
    using lo [of Attendance] lo [of Grades] lo [of Behaviour] lo [of Wellbeing] lo [of Engagement]
      hi [of Attendance] hi [of Grades] hi [of Behaviour] hi [of Wellbeing] hi [of Engagement]
    by (simp_all add: applyWeights_sum weight_total_def distrib_left)
  then show ?thesis by (simp add: total)
qed

lemma computeRisk_score:
  "ra_score (computeRisk ss w th b p h c) =
   min 100 (js_round (applyWeights (extractDomainScores ss) w + calculateCrossDomainBoost (extractDomainScores ss) c))"
  by (simp add: computeRisk_def Let_def MAX_COMPOSITE_SCORE_def split: prod.splits)


definition example_signals :: "signal_result list" where
  "example_signals = [\<lparr>sr_domain = Attendance, sr_raw_score = 60, sr_signals = [], sr_summary_fragments = []\<rparr>,
     \<lparr>sr_domain = Grades, sr_raw_score = 45, sr_signals = [], sr_summary_fragments = []\<rparr>]"


section \<open>Trend and summary\<close>

lemma trend_step: "buildTrendData h x = drop (Suc (length h) - 30) (h @ [x])"
  by (simp add: buildTrendData_def MAX_TREND_LENGTH_def Let_def)

text \<open>The stored trend is the sliding window of the last thirty composite scores, whatever number of
  evaluations came before.\<close>

theorem trend_is_last_thirty: "foldl buildTrendData [] scores = drop (length scores - 30) scores"
proof (induction scores rule: rev_induct)
  case (snoc x xs)
  have "foldl buildTrendData [] (xs @ [x]) = buildTrendData (drop (length xs - 30) xs) x" by (simp add: snoc.IH)
  also have "\<dots> = drop (length (xs @ [x]) - 30) (xs @ [x])"
  proof (cases "length xs < 30")
    case False
    then have "length xs - 29 = Suc (length xs - 30)" by simp
    with False show ?thesis by (simp add: trend_step drop_Suc tl_drop)
  qed (simp add: trend_step)
  finally show ?case .
qed simp

lemma top_split:
  assumes "sorted (map g xs)" "x \<in> set (take n xs)" "y \<in> set (drop n xs)"
  shows "g x \<le> g y"
proof -
  from assms(1) have "sorted (map g (take n xs) @ map g (drop n xs))"
    by (simp flip: map_append)
  with assms(2,3) show ?thesis by (auto simp: sorted_append)
qed

text \<open>The summary names the strongest signals: the fragments are those of at most five signals, in
  decreasing order of contribution, and they are split from the remaining signals that have a text so that no
  signal left out contributes more than one that is named.\<close>

theorem summary_names_top_signals:
  "\<exists>top rest. topSignalFragments ss = map sig_fragment top \<and>
     mset top + mset rest = filter_mset (\<lambda>s. sig_fragment s \<noteq> []) (mset ss) \<and>
     length top = min 5 (length (filter (\<lambda>s. sig_fragment s \<noteq> []) ss)) \<and>
     sorted (map (\<lambda>s. - sig_contribution s) top) \<and>
     \<not> (\<exists>s r. s \<in> set top \<and> r \<in> set rest \<and> sig_contribution s < sig_contribution r)"
proof -
  let ?named = "filter (\<lambda>s. length (sig_fragment s) > 0) ss"
  let ?xs = "by_contribution ?named"
  have sorted: "sorted (map (\<lambda>s. - sig_contribution s) ?xs)" by (simp add: by_contribution_def)
  have ms: "mset (take 5 ?xs) + mset (drop 5 ?xs) = filter_mset (\<lambda>s. sig_fragment s \<noteq> []) (mset ss)"
    by (simp add: by_contribution_def flip: mset_append mset_filter)
  have len: "length (take 5 ?xs) = min 5 (length (filter (\<lambda>s. sig_fragment s \<noteq> []) ss))"
    by (simp add: by_contribution_def)
  have "\<not> (\<exists>s r. s \<in> set (take 5 ?xs) \<and> r \<in> set (drop 5 ?xs) \<and> sig_contribution s < sig_contribution r)"
    using top_split [OF sorted] by fastforce
  moreover have "sorted (map (\<lambda>s. - sig_contribution s) (take 5 ?xs))"
    using sorted by (simp add: sorted_wrt_take flip: take_map)
  ultimately show ?thesis using ms len
    by (intro exI [of _ "take 5 ?xs"] exI [of _ "drop 5 ?xs"]) (simp add: topSignalFragments_def MAX_SIGNAL_FRAGMENTS_def)
qed

end
