(* ===== verification/Risk_Worker.thy ===== *)
theory Risk_Worker
  imports Risk_Engine
begin

text \<open>
  The worker's side of the early-warning system
  (\<open>apps/worker/src/processors/early-warning/early-warning-action.utils.ts\<close> and the per-student bodies of
  \<open>compute-daily.processor.ts\<close> and \<open>compute-student.processor.ts\<close>): its own copy of the scoring pipeline, the
  profile upsert, the signal audit trail, the transition log with its notifications and the staff routing.
  The rows of one tenant are the fields of \<open>ew_db\<close>; row ids are the numbers of a counter. The signal
  collectors and the staff look-ups are other queries and are parameters (\<open>collect\<close>, \<open>staff_lookup\<close>); a collector
  that throws is \<open>None\<close>.
\<close>

section \<open>The inlined scoring pipeline\<close>

fun w_scores :: "signal_result list \<Rightarrow> domain_scores \<Rightarrow> domain_scores" where
  "w_scores [] scores = scores"
| "w_scores (s # ss) scores = w_scores ss (scores(sr_domain s := sr_raw_score s))"

fun w_walk :: "nat \<Rightarrow> rat \<Rightarrow> threshold_config \<Rightarrow> rat \<Rightarrow> risk_tier \<Rightarrow> risk_tier" where
  "w_walk 0 score th buffer effective = effective"
| "w_walk (Suc k) score th buffer effective =
     (if Suc k < length TIERS_BY_ORDER then
        (if score \<le> th (TIERS_BY_ORDER ! Suc k) - buffer then
           w_walk k score th buffer (if k < length TIERS_BY_ORDER then TIERS_BY_ORDER ! k else effective)
         else effective)
      else w_walk k score th buffer effective)"

definition w_raw_tier :: "rat \<Rightarrow> threshold_config \<Rightarrow> risk_tier" where
  "w_raw_tier score th =
     (if score \<ge> th Red then Red else if score \<ge> th Amber then Amber
      else if score \<ge> th Yellow then Yellow else Green)"

definition assignTierWithHysteresis :: "rat \<Rightarrow> risk_tier option \<Rightarrow> threshold_config \<Rightarrow> rat \<Rightarrow> risk_tier \<times> bool" where
  "assignTierWithHysteresis score previous th buffer =
     (let rawTier = w_raw_tier score th
      in case previous of
           None \<Rightarrow> (rawTier, True)
         | Some prev \<Rightarrow>
             if TIER_ORDER rawTier > TIER_ORDER prev then (rawTier, True)
             else if TIER_ORDER rawTier = TIER_ORDER prev then (prev, False)
             else let effective = w_walk (TIER_ORDER prev) score th buffer prev in (effective, effective \<noteq> prev))"

definition w_summary :: "int \<Rightarrow> int list \<Rightarrow> detected_signal list \<Rightarrow> string" where
  "w_summary currentScore history signals =
     (let rounded = js_round (of_int currentScore);
          sentence =
            (if length history = 0 then ''Risk score is '' @ int_str rounded @ ''.''
             else
               let totalDays = length history;
                   weeks = max 1 ((totalDays + 6) div 7);
                   slice = take (min 7 totalDays) history;
                   earliestAvg = js_round (of_int (foldl (+) 0 slice) / of_nat (length slice));
                   diff = rounded - earliestAvg
               in if \<bar>diff\<bar> < 5 then ''Risk score stable at '' @ int_str rounded @ ''.''
                  else if diff > 0 then
                    ''Risk score increased from '' @ int_str earliestAvg @ '' to '' @ int_str rounded @
                    '' over the past '' @ nat_str weeks @ '' week'' @ (if weeks = 1 then '''' else ''s'') @ ''.''
                  else
                    ''Risk score decreased from '' @ int_str earliestAvg @ '' to '' @ int_str rounded @
                    '' over the past '' @ nat_str weeks @ '' week'' @ (if weeks = 1 then '''' else ''s'') @ ''.'');
          fragments = map sig_fragment (take 5 (by_contribution (filter (\<lambda>s. length (sig_fragment s) > 0) signals)))
      in join_space (if length fragments > 0 then [sentence, join_space fragments] else [sentence]))"

definition computeRiskAssessment ::
  "signal_result list \<Rightarrow> weight_config \<Rightarrow> threshold_config \<Rightarrow> rat \<Rightarrow> risk_tier option \<Rightarrow> int list \<Rightarrow> risk_assessment" where
  "computeRiskAssessment signals weights thresholds buffer previous history =
     (let domainScores = w_scores signals (\<lambda>_. 0);
          weightedScore = foldl (\<lambda>t k. t + domainScores k * (weights k / 100)) 0 DOMAIN_KEYS;
          domainsAbove = foldl (\<lambda>n k. if domainScores k \<ge> DEFAULT_CROSS_DOMAIN_THRESHOLD then n + 1 else n) 0 DOMAIN_KEYS;
          boost = (case boost_map domainsAbove of None \<Rightarrow> 0 | Some b \<Rightarrow> b);
          compositeScore = min 100 (js_round (weightedScore + boost));
          (tier, tierChanged) = assignTierWithHysteresis (of_int compositeScore) previous thresholds buffer;
          allSignals = foldl (\<lambda>all r. all @ sr_signals r) [] signals;
          combined = history @ [compositeScore];
          trendData = (if length combined > 30 then drop (length combined - 30) combined else combined)
      in \<lparr>ra_score = compositeScore, ra_tier = tier, ra_domain_scores = domainScores, ra_boost = boost,
          ra_signals = allSignals, ra_summary = w_summary compositeScore history allSignals,
          ra_trend = trendData, ra_tier_changed = tierChanged, ra_previous = previous\<rparr>)"

lemma w_scores_last:
  "w_scores ss f d = (case filter (\<lambda>s. sr_domain s = d) ss of [] \<Rightarrow> f d | xs \<Rightarrow> sr_raw_score (last xs))"
  by (induction ss arbitrary: f) (auto split: list.splits)

lemma w_scores_extract: "w_scores ss (\<lambda>_. 0) = extractDomainScores ss"
  by (rule ext) (simp add: w_scores_last extractDomainScores_eq)

lemma w_walk_eq: "k < 4 \<Longrightarrow> w_walk k score th buffer e = walk_down score th buffer k e"
  by (induction k arbitrary: e) (simp_all add: TIERS_BY_ORDER_def Let_def)

lemma w_assign_eq: "assignTierWithHysteresis score p th buffer = assignTier score p th buffer"
proof -
  have "w_walk (TIER_ORDER t) score th buffer t = walk_down score th buffer (TIER_ORDER t) t" for t
    by (rule w_walk_eq) (cases t; simp)
  then show ?thesis
    by (simp add: assignTierWithHysteresis_def assignTier_def w_raw_tier_def rawTierFromScore_def Let_def
        cong: if_cong option.case_cong)
qed

lemma weeks_eq: "weeks_spanned n = max 1 ((n + 6) div 7)"
  by (simp add: weeks_spanned_def DAYS_PER_WEEK_def add.commute)

lemma w_summary_eq: "w_summary s h sigs = buildSummary s h sigs"
  by (simp add: w_summary_def buildSummary_def buildTrendSentence_def topSignalFragments_def weeks_eq
      earliest_average_def DAYS_PER_WEEK_def STABILITY_THRESHOLD_def MAX_SIGNAL_FRAGMENTS_def Let_def)

lemma worker_pipeline_eq:
  "computeRiskAssessment ss w th b p h = computeRisk ss w th b p h DEFAULT_CROSS_DOMAIN_THRESHOLD"
  by (simp add: computeRiskAssessment_def computeRisk_def w_scores_extract w_assign_eq w_summary_eq
      applyWeights_def calculateCrossDomainBoost_def aggregateSignals_def buildTrendData_def
      MAX_COMPOSITE_SCORE_def MAX_TREND_LENGTH_def Let_def)

text \<open>C3: the scoring pipeline that the worker carries as a copy computes, on every input, the same assessment
  as the engine of the API with the default cross-domain threshold: score, tier, boost, summary text and trend.\<close>

theorem worker_mirrors_engine:
  "computeRiskAssessment = (\<lambda>ss w th b p h. computeRisk ss w th b p h DEFAULT_CROSS_DOMAIN_THRESHOLD)"
  by (intro ext) (rule worker_pipeline_eq)

section \<open>Rows\<close>

record routing_rules =
  rr_yellow_role :: string
  rr_amber_role :: string
  rr_red_roles :: "string list"

record tenant_config =
  cfg_is_enabled :: bool
  cfg_weights :: weight_config
  cfg_thresholds :: threshold_config
  cfg_buffer :: rat
  cfg_routing :: routing_rules
  cfg_high_severity_events :: "string list"
  cfg_digest_day :: int
  cfg_digest_recipients :: "string list"

definition default_tenant_config :: tenant_config where
  \<comment> \<open>\<open>loadTenantConfig\<close> without a configuration row\<close>
  "default_tenant_config = \<lparr>cfg_is_enabled = False, cfg_weights = DEFAULT_WEIGHTS, cfg_thresholds = DEFAULT_THRESHOLDS,
     cfg_buffer = DEFAULT_HYSTERESIS_BUFFER,
     cfg_routing = \<lparr>rr_yellow_role = ''homeroom_teacher'', rr_amber_role = ''year_head'',
                    rr_red_roles = [''principal'', ''pastoral_lead'']\<rparr>,
     cfg_high_severity_events = [''suspension'', ''critical_incident'', ''third_consecutive_absence''],
     cfg_digest_day = 1, cfg_digest_recipients = []\<rparr>"

definition loadTenantConfig :: "tenant_config option \<Rightarrow> tenant_config" where
  "loadTenantConfig row = (case row of None \<Rightarrow> default_tenant_config | Some c \<Rightarrow> c)"

record top_signal =
  ts_type :: string
  ts_domain :: string
  ts_severity :: signal_severity
  ts_contribution :: rat
  ts_fragment :: string

record trigger_signal =
  tg_type :: string
  tg_domain :: string
  tg_severity :: signal_severity
  tg_contribution :: rat

record risk_profile =
  rp_id :: nat
  rp_score :: int
  rp_tier :: risk_tier
  rp_domain_scores :: domain_scores
  rp_summary :: string
  rp_top_signals :: "top_signal list"
  rp_trend :: "int list"
  rp_last_computed_at :: int
  rp_tier_entered_at :: int

record signal_row =
  sgr_student :: string
  sgr_year :: string
  sgr_domain :: string
  sgr_signal :: detected_signal
  sgr_detected_at :: int

record transition_row =
  tr_student :: string
  tr_profile_id :: nat
  tr_from :: "risk_tier option"
  tr_to :: risk_tier
  tr_score :: int
  tr_trigger_signals :: "trigger_signal list"
  tr_routed_to :: "string option"
  tr_notification_id :: "nat option"
  tr_at :: int

record notification_row =
  nt_id :: nat
  nt_recipient :: string
  nt_student :: string
  nt_from_tier :: "risk_tier option"
  nt_to_tier :: risk_tier
  nt_score :: int
  nt_summary :: string
  nt_source_profile :: nat
  nt_delivered_at :: int

record ew_db =
  ew_profiles :: "((string \<times> string) \<times> risk_profile) list"
  ew_signals :: "signal_row list"
  ew_transitions :: "transition_row list"
  ew_notifications :: "notification_row list"
  ew_next_id :: nat

record staff_lookup =
  sl_homeroom_staff :: "string \<Rightarrow> string option"
  sl_staff_user :: "string \<Rightarrow> string option"
  sl_role_user :: "string \<Rightarrow> string option"

section \<open>Operations\<close>

definition SIGNAL_TYPE_DOMAIN_MAP :: "(string \<times> string) list" where
  "SIGNAL_TYPE_DOMAIN_MAP =
     [(''attendance_rate_decline'', ''attendance''), (''consecutive_absences'', ''attendance''),
      (''recurring_day_pattern'', ''attendance''), (''chronic_tardiness'', ''attendance''),
      (''attendance_trajectory'', ''attendance''),
      (''below_class_mean'', ''grades''), (''grade_trajectory_decline'', ''grades''),
      (''missing_assessments'', ''grades''), (''score_anomaly'', ''grades''),
      (''multi_subject_decline'', ''grades''),
      (''incident_frequency'', ''behaviour''), (''escalating_severity'', ''behaviour''),
      (''active_sanction'', ''behaviour''), (''exclusion_history'', ''behaviour''),
      (''failed_intervention'', ''behaviour''),
      (''declining_wellbeing_score'', ''wellbeing''), (''low_mood_pattern'', ''wellbeing''),
      (''active_pastoral_concern'', ''wellbeing''), (''active_pastoral_case'', ''wellbeing''),
      (''external_referral'', ''wellbeing''), (''critical_incident_affected'', ''wellbeing''),
      (''low_notification_read_rate'', ''engagement''), (''no_portal_login'', ''engagement''),
      (''no_parent_inquiry'', ''engagement''), (''slow_acknowledgement'', ''engagement''),
      (''disengagement_trajectory'', ''engagement'')]"

definition inferDomainFromSignalType :: "string \<Rightarrow> string" where
  "inferDomainFromSignalType t = map_get SIGNAL_TYPE_DOMAIN_MAP t ''attendance''"

definition top_signal_of :: "detected_signal \<Rightarrow> top_signal" where
  "top_signal_of s = \<lparr>ts_type = sig_type s, ts_domain = inferDomainFromSignalType (sig_type s),
     ts_severity = sig_severity s, ts_contribution = sig_contribution s, ts_fragment = sig_fragment s\<rparr>"

definition trigger_signal_of :: "detected_signal \<Rightarrow> trigger_signal" where
  "trigger_signal_of s = \<lparr>tg_type = sig_type s, tg_domain = inferDomainFromSignalType (sig_type s),
     tg_severity = sig_severity s, tg_contribution = sig_contribution s\<rparr>"

definition upsertRiskProfile ::
  "int \<Rightarrow> string \<Rightarrow> string \<Rightarrow> risk_assessment \<Rightarrow> ew_db \<Rightarrow> nat \<times> ew_db" where
  "upsertRiskProfile now student year ra db =
     (let key = (student, year);
          tops = map top_signal_of (take 5 (by_contribution (ra_signals ra)))
      in case map_of (ew_profiles db) key of
           None \<Rightarrow>
             let p = \<lparr>rp_id = ew_next_id db, rp_score = ra_score ra, rp_tier = ra_tier ra,
                      rp_domain_scores = ra_domain_scores ra, rp_summary = ra_summary ra, rp_top_signals = tops,
                      rp_trend = ra_trend ra, rp_last_computed_at = now, rp_tier_entered_at = now\<rparr>
             in (rp_id p, db\<lparr>ew_profiles := AList.update key p (ew_profiles db), ew_next_id := Suc (ew_next_id db)\<rparr>)
         | Some old \<Rightarrow>
             let p = \<lparr>rp_id = rp_id old, rp_score = ra_score ra, rp_tier = ra_tier ra,
                      rp_domain_scores = ra_domain_scores ra, rp_summary = ra_summary ra, rp_top_signals = tops,
                      rp_trend = ra_trend ra, rp_last_computed_at = now,
                      rp_tier_entered_at = (if ra_tier_changed ra then now else rp_tier_entered_at old)\<rparr>
             in (rp_id p, db\<lparr>ew_profiles := AList.update key p (ew_profiles db)\<rparr>))"

definition writeSignalAuditTrail ::
  "int \<Rightarrow> string \<Rightarrow> string \<Rightarrow> detected_signal list \<Rightarrow> ew_db \<Rightarrow> ew_db" where
  "writeSignalAuditTrail now student year signals db =
     (if length signals = 0 then db
      else db\<lparr>ew_signals := ew_signals db @
        map (\<lambda>s. \<lparr>sgr_student = student, sgr_year = year, sgr_domain = inferDomainFromSignalType (sig_type s),
                   sgr_signal = s, sgr_detected_at = now\<rparr>) signals\<rparr>)"

fun first_role_user :: "staff_lookup \<Rightarrow> string list \<Rightarrow> string option" where
  "first_role_user sl [] = None"
| "first_role_user sl (role # roles) =
     (if role = ''homeroom_teacher'' then first_role_user sl roles
      else if truthy (sl_role_user sl role) then sl_role_user sl role
      else first_role_user sl roles)"

definition homeroom_user :: "staff_lookup \<Rightarrow> string \<Rightarrow> string option" where
  "homeroom_user sl student =
     (if truthy (sl_homeroom_staff sl student) then sl_staff_user sl (the (sl_homeroom_staff sl student)) else None)"

definition target_roles :: "risk_tier \<Rightarrow> routing_rules \<Rightarrow> string list" where
  "target_roles tier rules =
     (if tier = Red then rr_red_roles rules else if tier = Amber then [rr_amber_role rules] else [rr_yellow_role rules])"

definition resolveRoutedUser :: "staff_lookup \<Rightarrow> string \<Rightarrow> risk_tier \<Rightarrow> routing_rules \<Rightarrow> string option" where
  "resolveRoutedUser sl student tier rules =
     (if tier = Green then None
      else
        let roles = target_roles tier rules
        in if ''homeroom_teacher'' \<in> set roles \<and> truthy (homeroom_user sl student) then homeroom_user sl student
           else first_role_user sl roles)"

definition logTierTransition ::
  "int \<Rightarrow> staff_lookup \<Rightarrow> string \<Rightarrow> nat \<Rightarrow> risk_assessment \<Rightarrow> routing_rules \<Rightarrow> ew_db \<Rightarrow> ew_db" where
  "logTierTransition now sl student pid ra rules db =
     (let trig = map trigger_signal_of (take 5 (by_contribution (ra_signals ra)));
          routed = resolveRoutedUser sl student (ra_tier ra) rules;
          notify = truthy routed \<and> ra_tier_changed ra;
          nid = ew_next_id db;
          db1 = (if notify then
                   db\<lparr>ew_notifications := ew_notifications db @
                        [\<lparr>nt_id = nid, nt_recipient = the routed, nt_student = student, nt_from_tier = ra_previous ra,
                          nt_to_tier = ra_tier ra, nt_score = ra_score ra, nt_summary = ra_summary ra,
                          nt_source_profile = pid, nt_delivered_at = now\<rparr>],
                      ew_next_id := Suc nid\<rparr>
                 else db)
      in db1\<lparr>ew_transitions := ew_transitions db1 @
               [\<lparr>tr_student = student, tr_profile_id = pid, tr_from = ra_previous ra, tr_to = ra_tier ra,
                 tr_score = ra_score ra, tr_trigger_signals = trig, tr_routed_to = routed,
                 tr_notification_id = (if notify then Some nid else None), tr_at = now\<rparr>]\<rparr>)"

definition process_student ::
  "tenant_config \<Rightarrow> staff_lookup \<Rightarrow> int \<Rightarrow> string \<Rightarrow> string \<Rightarrow> signal_result list \<Rightarrow> ew_db \<Rightarrow> ew_db" where
  \<comment> \<open>steps 4b - 4f of the daily job, 5 - 9 of the student job\<close>
  "process_student cfg sl now year student signals db =
     (let existing = map_of (ew_profiles db) (student, year);
          previousTier = map_option rp_tier existing;
          history = (case existing of None \<Rightarrow> [] | Some p \<Rightarrow> rp_trend p);
          ra = computeRiskAssessment signals (cfg_weights cfg) (cfg_thresholds cfg) (cfg_buffer cfg) previousTier history;
          (pid, db1) = upsertRiskProfile now student year ra db;
          db2 = writeSignalAuditTrail now student year (ra_signals ra) db1
      in if ra_tier_changed ra then logTierTransition now sl student pid ra (cfg_routing cfg) db2 else db2)"

fun daily_students ::
  "tenant_config \<Rightarrow> staff_lookup \<Rightarrow> int \<Rightarrow> string \<Rightarrow> (string \<Rightarrow> signal_result list option) \<Rightarrow> string list \<Rightarrow> ew_db \<Rightarrow> ew_db" where
  \<comment> \<open>the loop of the daily job: a student whose collector throws is skipped\<close>
  "daily_students cfg sl now year collect [] db = db"
| "daily_students cfg sl now year collect (s # ss) db =
     daily_students cfg sl now year collect ss
       (case collect s of None \<Rightarrow> db | Some signals \<Rightarrow> process_student cfg sl now year s signals db)"

definition compute_daily ::
  "tenant_config option \<Rightarrow> string option \<Rightarrow> string list \<Rightarrow> staff_lookup \<Rightarrow> int \<Rightarrow>
   (string \<Rightarrow> signal_result list option) \<Rightarrow> ew_db \<Rightarrow> ew_db" where
  "compute_daily row year active sl now collect db =
     (let cfg = loadTenantConfig row
      in if \<not> cfg_is_enabled cfg then db
         else case year of None \<Rightarrow> db | Some y \<Rightarrow> daily_students cfg sl now y collect active db)"

definition compute_student ::
  "tenant_config option \<Rightarrow> string option \<Rightarrow> string list \<Rightarrow> staff_lookup \<Rightarrow> int \<Rightarrow>
   (string \<Rightarrow> signal_result list option) \<Rightarrow> string \<Rightarrow> ew_db \<Rightarrow> ew_db option" where
  \<comment> \<open>\<open>None\<close>: the collector throws and the job's transaction is rolled back\<close>
  "compute_student row year active sl now collect student db =
     (let cfg = loadTenantConfig row
      in if \<not> cfg_is_enabled cfg then Some db
         else if student \<notin> set active then Some db
         else case year of
                None \<Rightarrow> Some db
              | Some y \<Rightarrow> map_option (\<lambda>signals. process_student cfg sl now y student signals db) (collect student))"

section \<open>The jobs as a transition system\<close>

definition empty_db :: ew_db where
  "empty_db = \<lparr>ew_profiles = [], ew_signals = [], ew_transitions = [], ew_notifications = [], ew_next_id = 0\<rparr>"

inductive ew_step :: "ew_db \<Rightarrow> ew_db \<Rightarrow> bool" where
  daily: "ew_step db (compute_daily row year active sl now collect db)"
| student: "compute_student row year active sl now collect s db = Some db' \<Longrightarrow> ew_step db db'"

inductive_cases ew_stepE: "ew_step db db'"

inductive ew_reachable :: "ew_db \<Rightarrow> bool" where
  init: "ew_reachable empty_db"
| step: "ew_reachable db \<Longrightarrow> ew_step db db' \<Longrightarrow> ew_reachable db'"

fun replay :: "risk_tier option \<Rightarrow> transition_row list \<Rightarrow> risk_tier option option" where
  \<comment> \<open>the tier after a log, \<open>None\<close> when a row does not start at the current tier or changes nothing\<close>
  "replay cur [] = Some cur"
| "replay cur (t # ts) = (if tr_from t = cur \<and> cur \<noteq> Some (tr_to t) then replay (Some (tr_to t)) ts else None)"

lemma replay_append:
  "replay cur (xs @ [t]) =
     (case replay cur xs of None \<Rightarrow> None
      | Some c \<Rightarrow> if tr_from t = c \<and> c \<noteq> Some (tr_to t) then Some (Some (tr_to t)) else None)"
  by (induction xs arbitrary: cur) (auto split: option.splits)

definition log_of :: "ew_db \<Rightarrow> nat \<Rightarrow> transition_row list" where
  "log_of db pid = filter (\<lambda>t. tr_profile_id t = pid) (ew_transitions db)"

definition log_ok :: "transition_row list \<Rightarrow> risk_profile \<Rightarrow> bool" where
  "log_ok trs p \<longleftrightarrow> replay None trs = Some (Some (rp_tier p)) \<and> trs \<noteq> [] \<and> rp_tier_entered_at p = tr_at (last trs)"

definition ew_inv :: "ew_db \<Rightarrow> bool" where
  "ew_inv db \<longleftrightarrow>
     (\<forall>k p. map_of (ew_profiles db) k = Some p \<longrightarrow> rp_id p < ew_next_id db \<and> log_ok (log_of db (rp_id p)) p) \<and>
     (\<forall>k p k' p'. map_of (ew_profiles db) k = Some p \<longrightarrow> map_of (ew_profiles db) k' = Some p' \<longrightarrow>
        rp_id p = rp_id p' \<longrightarrow> k = k') \<and>
     (\<forall>t \<in> set (ew_transitions db). tr_profile_id t < ew_next_id db)"

lemma assignTier_changed: "assignTier s p th b = (t, c) \<Longrightarrow> c \<longleftrightarrow> p \<noteq> Some t"
  by (cases p) (auto simp: assignTier_Some assignTier_def [of s None] Let_def split: if_splits)

lemma assessment_facts:
  "ra_previous (computeRiskAssessment ss w th b p h) = p"
  "ra_tier_changed (computeRiskAssessment ss w th b p h) \<longleftrightarrow> p \<noteq> Some (ra_tier (computeRiskAssessment ss w th b p h))"
proof -
  let ?score = "min MAX_COMPOSITE_SCORE (js_round (applyWeights (extractDomainScores ss) w +
    calculateCrossDomainBoost (extractDomainScores ss) DEFAULT_CROSS_DOMAIN_THRESHOLD))"
  obtain t c where tc: "assignTier (of_int ?score) p th b = (t, c)" by (cases "assignTier (of_int ?score) p th b")
  have "ra_tier (computeRiskAssessment ss w th b p h) = t" "ra_tier_changed (computeRiskAssessment ss w th b p h) = c"
    "ra_previous (computeRiskAssessment ss w th b p h) = p"
    using tc by (simp_all add: worker_pipeline_eq computeRisk_def Let_def del: of_int_min)
  with assignTier_changed [OF tc] show "ra_previous (computeRiskAssessment ss w th b p h) = p"
    "ra_tier_changed (computeRiskAssessment ss w th b p h) \<longleftrightarrow> p \<noteq> Some (ra_tier (computeRiskAssessment ss w th b p h))"
    by simp_all
qed

text \<open>The effect of one student's evaluation on the profile table, the transition log and the counter.\<close>

lemma process_student_effect:
  fixes db :: ew_db and student year :: string
  defines "e \<equiv> map_of (ew_profiles db) (student, year)"
  defines "pid \<equiv> (case e of None \<Rightarrow> ew_next_id db | Some p \<Rightarrow> rp_id p)"
  obtains p t where
    "map_of (ew_profiles (process_student cfg sl now year student ss db)) = (map_of (ew_profiles db)) ((student, year) \<mapsto> p)"
    "rp_id p = pid" "rp_tier p = tr_to t" "tr_profile_id t = pid" "tr_from t = map_option rp_tier e"
    "rp_tier_entered_at p = (if tr_from t = Some (tr_to t) then rp_tier_entered_at (the e) else tr_at t)"
    "ew_transitions (process_student cfg sl now year student ss db) =
       ew_transitions db @ (if tr_from t = Some (tr_to t) then [] else [t])"
    "ew_next_id db + (if e = None then 1 else 0) \<le> ew_next_id (process_student cfg sl now year student ss db)"
proof -
  define ra where "ra = computeRiskAssessment ss (cfg_weights cfg) (cfg_thresholds cfg) (cfg_buffer cfg)
    (map_option rp_tier e) (case e of None \<Rightarrow> [] | Some p \<Rightarrow> rp_trend p)"
  obtain p db1 where up: "upsertRiskProfile now student year ra db = (pid, db1)"
    and db1: "ew_profiles db1 = AList.update (student, year) p (ew_profiles db)" "ew_transitions db1 = ew_transitions db"
      "ew_next_id db1 = ew_next_id db + (if e = None then 1 else 0)"
    and p: "rp_id p = pid" "rp_tier p = ra_tier ra"
      "rp_tier_entered_at p = (if e \<noteq> None \<and> \<not> ra_tier_changed ra then rp_tier_entered_at (the e) else now)"
    by (cases e) (auto simp: upsertRiskProfile_def Let_def e_def pid_def)
  define db2 where "db2 = writeSignalAuditTrail now student year (ra_signals ra) db1"
  have db2: "ew_profiles db2 = ew_profiles db1" "ew_transitions db2 = ew_transitions db1" "ew_next_id db2 = ew_next_id db1"
    by (simp_all add: db2_def writeSignalAuditTrail_def)
  obtain t where t: "tr_profile_id t = pid" "tr_from t = ra_previous ra" "tr_to t = ra_tier ra" "tr_at t = now"
      "ew_transitions (logTierTransition now sl student pid ra (cfg_routing cfg) db2) = ew_transitions db2 @ [t]"
    by (simp add: logTierTransition_def Let_def)
  have log: "ew_profiles (logTierTransition now sl student pid ra (cfg_routing cfg) db2) = ew_profiles db2"
      "ew_next_id db2 \<le> ew_next_id (logTierTransition now sl student pid ra (cfg_routing cfg) db2)"
    by (simp_all add: logTierTransition_def Let_def)
  have ra: "ra_previous ra = map_option rp_tier e" "ra_tier_changed ra \<longleftrightarrow> tr_from t \<noteq> Some (tr_to t)"
    using assessment_facts t(2,3) by (simp_all add: ra_def)
  have ps: "process_student cfg sl now year student ss db =
      (if ra_tier_changed ra then logTierTransition now sl student pid ra (cfg_routing cfg) db2 else db2)"
    by (simp add: process_student_def Let_def up db2_def flip: ra_def e_def)
  show thesis
    by (rule that [of p t]) (use p t ra log db1 db2 in \<open>auto simp: ps update_conv'\<close>)
qed

lemma process_student_inv:
  assumes "ew_inv db" shows "ew_inv (process_student cfg sl now year student ss db)"
proof -
  let ?db = "process_student cfg sl now year student ss db" and ?e = "map_of (ew_profiles db) (student, year)"
  obtain p t where eff: "map_of (ew_profiles ?db) = (map_of (ew_profiles db)) ((student, year) \<mapsto> p)"
    "rp_id p = (case ?e of None \<Rightarrow> ew_next_id db | Some p \<Rightarrow> rp_id p)" "rp_tier p = tr_to t"
    "tr_profile_id t = (case ?e of None \<Rightarrow> ew_next_id db | Some p \<Rightarrow> rp_id p)" "tr_from t = map_option rp_tier ?e"
    "rp_tier_entered_at p = (if tr_from t = Some (tr_to t) then rp_tier_entered_at (the ?e) else tr_at t)"
    "ew_transitions ?db = ew_transitions db @ (if tr_from t = Some (tr_to t) then [] else [t])"
    "ew_next_id db + (if ?e = None then 1 else 0) \<le> ew_next_id ?db"
    by (rule process_student_effect [where db = db and student = student and year = year and cfg = cfg and sl = sl and now = now and ss = ss]) blast
  have inv: "map_of (ew_profiles db) k = Some q \<Longrightarrow> rp_id q < ew_next_id db \<and> log_ok (log_of db (rp_id q)) q"
    "map_of (ew_profiles db) k = Some q \<Longrightarrow> map_of (ew_profiles db) k' = Some q' \<Longrightarrow> rp_id q = rp_id q' \<Longrightarrow> k = k'"
    "u \<in> set (ew_transitions db) \<Longrightarrow> tr_profile_id u < ew_next_id db" for k q k' q' u
    using assms unfolding ew_inv_def by blast+
  have next_le: "ew_next_id db \<le> ew_next_id ?db" using eff(8) by (simp split: if_splits)
  have pid: "rp_id p < ew_next_id ?db"
  proof (cases ?e)
    case (Some q)
    with inv(1) [of "(student, year)" q] eff(2) next_le show ?thesis by simp
  qed (use eff(2,8) in simp)
  have log: "log_of ?db i = log_of db i @ (if tr_from t \<noteq> Some (tr_to t) \<and> rp_id p = i then [t] else [])" for i
    using eff(2,4,7) by (auto simp: log_of_def)
  have fresh: "k \<noteq> (student, year) \<Longrightarrow> map_of (ew_profiles db) k = Some q \<Longrightarrow> rp_id q \<noteq> rp_id p" for k q
    using eff(2) inv(1) [of k q] inv(2) [of k q "(student, year)"] by (cases ?e) auto
  have own: "log_ok (log_of ?db (rp_id p)) p"
  proof (cases ?e)
    case None
    have "log_of db (ew_next_id db) = []" using inv(3) by (fastforce simp: log_of_def filter_empty_conv)
    with None eff(2,3,5,6) show ?thesis by (simp add: log log_ok_def)
  next
    case (Some q)
    with inv(1) have "log_ok (log_of db (rp_id q)) q" by blast
    with Some eff(2,3,5,6) show ?thesis by (auto simp: log log_ok_def replay_append)
  qed
  show ?thesis
    unfolding ew_inv_def
  proof (intro conjI allI impI ballI)
    fix k q assume "map_of (ew_profiles ?db) k = Some q"
    then consider "k = (student, year)" "q = p" | "k \<noteq> (student, year)" "map_of (ew_profiles db) k = Some q"
      unfolding eff(1) by (auto split: if_splits)
    then have "rp_id q < ew_next_id ?db \<and> log_ok (log_of ?db (rp_id q)) q"
    proof cases
      case 1
      with pid own show ?thesis by simp
    next
      case 2
      with fresh [of k q] have "log_of ?db (rp_id q) = log_of db (rp_id q)" by (auto simp: log)
      with 2(2) inv(1) [of k q] next_le show ?thesis by simp
    qed
    then show "rp_id q < ew_next_id ?db" "log_ok (log_of ?db (rp_id q)) q" by simp_all
  next
    fix k q k' q' assume "map_of (ew_profiles ?db) k = Some q" "map_of (ew_profiles ?db) k' = Some q'" "rp_id q = rp_id q'"
    then show "k = k'"
      unfolding eff(1) using inv(2) [of k q k' q'] fresh [of k q] fresh [of k' q'] by (auto split: if_splits)
  next
    fix u assume "u \<in> set (ew_transitions ?db)"
    then consider "u \<in> set (ew_transitions db)" | "u = t" unfolding eff(7) by (auto split: if_splits)
    then show "tr_profile_id u < ew_next_id ?db"
    proof cases
      case 1
      with inv(3) [of u] next_le show ?thesis by simp
    qed (use pid eff(2,4) in simp)
  qed
qed

lemma daily_students_inv: "ew_inv db \<Longrightarrow> ew_inv (daily_students cfg sl now year collect ss db)"
  by (induction ss arbitrary: db) (simp_all add: process_student_inv split: option.splits)

lemma ew_step_inv: "ew_step db db' \<Longrightarrow> ew_inv db \<Longrightarrow> ew_inv db'"
  by (erule ew_stepE)
    (auto simp: compute_daily_def compute_student_def Let_def daily_students_inv process_student_inv
      split: option.splits if_splits)

lemma ew_reachable_inv: "ew_reachable db \<Longrightarrow> ew_inv db"
proof (induction rule: ew_reachable.induct)
  case init
  then show ?case by (simp add: ew_inv_def empty_db_def)
qed (rule ew_step_inv)


definition example_config :: tenant_config where
  "example_config = default_tenant_config\<lparr>cfg_is_enabled := True\<rparr>"

definition example_lookup :: staff_lookup where
  "example_lookup = \<lparr>sl_homeroom_staff = (\<lambda>s. Some ''staff1''), sl_staff_user = (\<lambda>s. Some ''user1''),
     sl_role_user = (\<lambda>r. Some (''head of '' @ r))\<rparr>"

definition example_db1 :: ew_db where
  "example_db1 = compute_daily (Some example_config) (Some ''2025'') [''s1''] example_lookup 1 (\<lambda>_. Some example_signals) empty_db"

definition example_profile1 :: risk_profile where
  "example_profile1 = the (map_of (ew_profiles example_db1) (''s1'', ''2025''))"


section \<open>Notifications\<close>

lemma target_user_green: "resolveRoutedUser sl s Green rules = None"
  by (simp add: resolveRoutedUser_def)

text \<open>A notification goes out for every change of tier to a tier above green for which a recipient is found, in
  either direction, and for no other evaluation: an improvement from red to amber alerts the year head as a
  worsening does.\<close>

theorem notified_iff_tier_changed:
  "length (ew_notifications (process_student cfg sl now year s ss db)) =
   length (ew_notifications db) +
     (let old = map_of (ew_profiles db) (s, year);
          new = the (map_of (ew_profiles (process_student cfg sl now year s ss db)) (s, year))
      in if map_option rp_tier old \<noteq> Some (rp_tier new) \<and>
            truthy (resolveRoutedUser sl s (rp_tier new) (cfg_routing cfg)) then 1 else 0)"
proof -
  define e where "e = map_of (ew_profiles db) (s, year)"
  define ra where "ra = computeRiskAssessment ss (cfg_weights cfg) (cfg_thresholds cfg) (cfg_buffer cfg)
    (map_option rp_tier e) (case e of None \<Rightarrow> [] | Some p \<Rightarrow> rp_trend p)"
  have up: "ew_notifications (snd (upsertRiskProfile now s year ra db)) = ew_notifications db"
      "rp_tier (the (map_of (ew_profiles (snd (upsertRiskProfile now s year ra db))) (s, year))) = ra_tier ra"
    by (simp_all add: upsertRiskProfile_def Let_def update_conv' split: option.splits)
  have au: "ew_notifications (writeSignalAuditTrail now s year sg d) = ew_notifications d"
      "ew_profiles (writeSignalAuditTrail now s year sg d) = ew_profiles d" for sg d
    by (simp_all add: writeSignalAuditTrail_def)
  have lt: "ew_profiles (logTierTransition now sl s i ra r d) = ew_profiles d"
      "length (ew_notifications (logTierTransition now sl s i ra r d)) = length (ew_notifications d) +
        (if truthy (resolveRoutedUser sl s (ra_tier ra) r) \<and> ra_tier_changed ra then 1 else 0)" for i r d
    by (simp_all add: logTierTransition_def Let_def)
  obtain pid db1 where db1: "upsertRiskProfile now s year ra db = (pid, db1)"
    by (cases "upsertRiskProfile now s year ra db")
  have ps: "process_student cfg sl now year s ss db =
      (if ra_tier_changed ra then logTierTransition now sl s pid ra (cfg_routing cfg) (writeSignalAuditTrail now s year (ra_signals ra) db1)
       else writeSignalAuditTrail now s year (ra_signals ra) db1)"
    by (simp add: process_student_def Let_def db1 flip: ra_def e_def)
  have new: "rp_tier (the (map_of (ew_profiles (process_student cfg sl now year s ss db)) (s, year))) = ra_tier ra"
    using up(2) by (simp add: ps db1 lt au)
  have changed: "ra_tier_changed ra \<longleftrightarrow> map_option rp_tier e \<noteq> Some (ra_tier ra)"
    unfolding ra_def by (rule assessment_facts)
  have "length (ew_notifications (process_student cfg sl now year s ss db)) = length (ew_notifications db) +
      (if ra_tier_changed ra \<and> truthy (resolveRoutedUser sl s (ra_tier ra) (cfg_routing cfg)) then 1 else 0)"
    using up(1) by (simp add: ps db1 lt au)
  then show ?thesis unfolding Let_def new changed e_def [symmetric] .
qed

end
