(* ===== verification/Admissions_Types.thy ===== *)
theory Admissions_Types
  imports Prelude_TS
begin

text \<open>
  The rows that the admissions pipeline of \<open>apps/api/src/modules/admissions\<close> reads and writes, for one tenant,
  its errors, and the small helpers the services share: row updates, internal notes, \<open>String.trim\<close> and the UTC
  deadline format of the notes. The records hold the columns that the modelled operations read or write. Times are milliseconds since 1970 (\<open>int\<close>); amounts are integer cents. Every
  operation of the services is a function from the tables to an error or to a result with new tables: an error
  leaves the tables as they were, as the rolled-back transaction does. A transaction runs alone; the row and
  advisory locks of the code, which make it so, are not modelled.
\<close>

section \<open>Rows\<close>

datatype application_status =
  Submitted | Waiting_list | Ready_to_admit | Conditional_approval | Approved | Rejected | Withdrawn

datatype substatus = Awaiting_year_setup

datatype note_action =
  Moved_to_conditional_approval | Note_rejected | Note_withdrawn | Manually_promoted | Auto_promoted
| Cash_recorded | Bank_recorded | Stripe_completed | Override_approved | Reverted_by_expiry

record application =
  app_id :: string
  app_form_definition_id :: string
  app_number :: string
  app_submitted_by_parent_id :: "string option"
  app_first_name :: string
  app_last_name :: string
  app_date_of_birth :: "int option"
  app_payload :: string
  app_status :: application_status
  app_substatus :: "substatus option"
  app_submitted_at :: "int option"
  app_apply_date :: int
  app_target_academic_year_id :: "string option"
  app_target_year_group_id :: "string option"
  app_is_sibling :: bool
  app_payment_amount_cents :: "int option"
  app_currency_code :: "string option"
  app_payment_deadline :: "int option"
  app_rejection_reason :: "string option"
  app_reviewed_at :: "int option"
  app_reviewed_by_user_id :: "string option"
  app_override_record_id :: "string option"

record note_row =
  note_application_id :: string
  note_author_user_id :: string
  note_text :: string
  note_action_taken :: note_action
  note_is_internal :: bool

record class_row =
  cls_id :: string
  cls_academic_year_id :: string
  cls_year_group_id :: "string option"
  cls_max_capacity :: int
  cls_is_active :: bool

record class_enrolment =
  enr_student_id :: string
  enr_class_id :: string
  enr_is_active :: bool
  enr_start_date :: int

record student_row =
  stu_id :: string
  stu_year_group_id :: "string option"

record parent_row =
  par_id :: string
  par_user_id :: "string option"

datatype notification_job =
  Application_received string | Application_withdrawn string | Payment_link string
| Auto_promoted_job string | Payment_expired_job string

record adm_db =
  adm_applications :: "application list"
  adm_notes :: "note_row list"
  adm_classes :: "class_row list"
  adm_enrolments :: "class_enrolment list"
  adm_students :: "student_row list"
  adm_parents :: "parent_row list"
  adm_jobs :: "notification_job list"

datatype adm_error =
  APPLICATION_NOT_FOUND | CLASS_NOT_FOUND | MISSING_TARGET_YEAR_GROUP | INVALID_STATUS_TRANSITION
| CAPACITY_EXHAUSTED | REJECTION_REASON_REQUIRED | NOT_APPLICATION_OWNER | JUSTIFICATION_TOO_SHORT
| AWAITING_YEAR_SETUP | NO_FEE_STRUCTURE_CONFIGURED | TENANT_CURRENCY_NOT_CONFIGURED

type_synonym 'a adm = "adm_error + 'a"

definition SYSTEM_USER_SENTINEL :: string where
  "SYSTEM_USER_SENTINEL = ''00000000-0000-0000-0000-000000000000''"

section \<open>Table operations\<close>

definition find_application :: "adm_db \<Rightarrow> string \<Rightarrow> application option" where
  "find_application db i = List.find (\<lambda>a. app_id a = i) (adm_applications db)"

definition update_application :: "string \<Rightarrow> (application \<Rightarrow> application) \<Rightarrow> adm_db \<Rightarrow> adm_db" where
  "update_application i f db =
     db\<lparr>adm_applications := map (\<lambda>a. if app_id a = i then f a else a) (adm_applications db)\<rparr>"

definition add_note :: "string \<Rightarrow> string \<Rightarrow> string \<Rightarrow> note_action \<Rightarrow> adm_db \<Rightarrow> adm_db" where
  "add_note i author txt act db =
     db\<lparr>adm_notes := adm_notes db @
       [\<lparr>note_application_id = i, note_author_user_id = author, note_text = txt, note_action_taken = act,
         note_is_internal = True\<rparr>]\<rparr>"

definition enqueue_job :: "notification_job \<Rightarrow> adm_db \<Rightarrow> adm_db" where
  \<comment> \<open>a failing queue is only logged; the model's queue takes the job\<close>
  "enqueue_job j db = db\<lparr>adm_jobs := adm_jobs db @ [j]\<rparr>"

definition targets :: "string \<Rightarrow> string \<Rightarrow> application \<Rightarrow> bool" where
  "targets y g a \<longleftrightarrow> app_target_academic_year_id a = Some y \<and> app_target_year_group_id a = Some g"

definition with_status :: "adm_db \<Rightarrow> string \<Rightarrow> string \<Rightarrow> application_status \<Rightarrow> application list" where
  "with_status db y g s = filter (\<lambda>a. targets y g a \<and> app_status a = s) (adm_applications db)"

definition status_of :: "adm_db \<Rightarrow> string \<Rightarrow> application_status option" where
  "status_of db i = map_option app_status (find_application db i)"

section \<open>Strings and dates\<close>

definition is_space :: "char \<Rightarrow> bool" where
  "is_space c \<longleftrightarrow> c \<in> set [CHR '' '', CHR 0x09, CHR 0x0A, CHR 0x0B, CHR 0x0C, CHR 0x0D]"

definition js_trim :: "string \<Rightarrow> string" where
  "js_trim s = rev (dropWhile is_space (rev (dropWhile is_space s)))"

definition civil_of_day :: "int \<Rightarrow> int \<times> int \<times> int" where
  \<comment> \<open>year, month and day of a day number since 1970-01-01, in the proleptic Gregorian calendar\<close>
  "civil_of_day z =
     (let z = z + 719468; era = z div 146097; doe = z mod 146097;
          yoe = (doe - doe div 1460 + doe div 36524 - doe div 146096) div 365;
          doy = doe - (365 * yoe + yoe div 4 - yoe div 100);
          mp = (5 * doy + 2) div 153;
          d = doy - (153 * mp + 2) div 5 + 1;
          m = (if mp < 10 then mp + 3 else mp - 9)
      in (if m \<le> 2 then yoe + era * 400 + 1 else yoe + era * 400, m, d))"

definition month_names :: "string list" where
  "month_names = [''Jan'', ''Feb'', ''Mar'', ''Apr'', ''May'', ''Jun'', ''Jul'', ''Aug'', ''Sep'', ''Oct'', ''Nov'', ''Dec'']"

definition formatNoteDeadline :: "int \<Rightarrow> string" where
  "formatNoteDeadline ms =
     (let (y, m, d) = civil_of_day (ms div 86400000);
          minutes = (ms mod 86400000) div 60000
      in pad2 (nat d) @ '' '' @ month_names ! nat (m - 1) @ '' '' @ int_str y @ '', '' @
         pad2 (nat (minutes div 60)) @ '':'' @ pad2 (nat (minutes mod 60)) @ '' UTC'')"

lemma formatNoteDeadline_example: "formatNoteDeadline 1776514380000 = ''18 Apr 2026, 12:13 UTC''"
  by code_simp

section \<open>Facts about rows\<close>

named_theorems adm_simps \<open>which tables an operation touches\<close>

lemma table_frames [simp, adm_simps]:
  "adm_notes (update_application i f db) = adm_notes db" "adm_classes (update_application i f db) = adm_classes db"
  "adm_enrolments (update_application i f db) = adm_enrolments db" "adm_students (update_application i f db) = adm_students db"
  "adm_parents (update_application i f db) = adm_parents db" "adm_jobs (update_application i f db) = adm_jobs db"
  "adm_applications (add_note i u t act db) = adm_applications db" "adm_classes (add_note i u t act db) = adm_classes db"
  "adm_enrolments (add_note i u t act db) = adm_enrolments db" "adm_students (add_note i u t act db) = adm_students db"
  "adm_parents (add_note i u t act db) = adm_parents db" "adm_jobs (add_note i u t act db) = adm_jobs db"
  "adm_applications (enqueue_job j db) = adm_applications db" "adm_classes (enqueue_job j db) = adm_classes db"
  "adm_enrolments (enqueue_job j db) = adm_enrolments db" "adm_students (enqueue_job j db) = adm_students db"
  "adm_parents (enqueue_job j db) = adm_parents db" "adm_notes (enqueue_job j db) = adm_notes db"
  by (simp_all add: update_application_def add_note_def enqueue_job_def)

lemma adm_applications_update:
  "adm_applications (update_application i f db) = map (\<lambda>a. if app_id a = i then f a else a) (adm_applications db)"
  by (simp add: update_application_def)

lemma find_application_frames [simp]:
  "find_application (add_note i u t act db) j = find_application db j"
  "find_application (enqueue_job q db) j = find_application db j"
  by (simp_all add: find_application_def)

lemma find_map_if:
  assumes "\<And>a. app_id (f a) = app_id a"
  shows "List.find (\<lambda>a. app_id a = j) (map (\<lambda>a. if app_id a = i then f a else a) xs) =
         map_option (\<lambda>a. if j = i then f a else a) (List.find (\<lambda>a. app_id a = j) xs)"
  using assms by (induction xs) auto

lemma find_application_update:
  "(\<And>a. app_id (f a) = app_id a) \<Longrightarrow>
   find_application (update_application i f db) j = map_option (\<lambda>a. if j = i then f a else a) (find_application db j)"
  unfolding find_application_def adm_applications_update by (rule find_map_if)

lemma find_application_SomeD: "find_application db i = Some a \<Longrightarrow> a \<in> set (adm_applications db) \<and> app_id a = i"
  by (auto simp: find_application_def dest: find_Some_in)

lemma find_distinct: "distinct (map f xs) \<Longrightarrow> a \<in> set xs \<Longrightarrow> List.find (\<lambda>x. f x = f a) xs = Some a"
  by (induction xs) auto

lemma find_application_distinct:
  "distinct (map app_id (adm_applications db)) \<Longrightarrow> a \<in> set (adm_applications db) \<Longrightarrow> find_application db (app_id a) = Some a"
  unfolding find_application_def by (rule find_distinct)

end
