(* ===== verification/Admissions_Promotion.thy ===== *)
theory Admissions_Promotion
  imports Admissions_Types "HOL-Library.Multiset" "HOL-Library.Product_Lexorder"
begin

text \<open>
  Seat arithmetic and the waiting list: \<open>admissions-capacity.service.ts\<close> (its one SQL query read as list
  operations on the tables), \<open>admissions-auto-promotion.service.ts\<close>, and the copy of both that the payment-expiry worker
  carries (\<open>apps/worker/src/processors/admissions/admissions-payment-expiry.processor.ts\<close>). What the two promotion passes
  share is the locale \<open>promotion_pass\<close>: a number of seats, an order of the queue, and a marking step.
\<close>

section \<open>Capacity\<close>

record available_seats_result =
  seats_total_capacity :: int
  seats_enrolled :: int
  seats_conditional :: int
  seats_available :: int
  seats_configured :: bool

definition class_list :: "adm_db \<Rightarrow> string \<Rightarrow> string \<Rightarrow> class_row list" where
  "class_list db y g = filter (\<lambda>c. cls_is_active c \<and> cls_academic_year_id c = y \<and> cls_year_group_id c = Some g)
     (adm_classes db)"

definition total_capacity :: "adm_db \<Rightarrow> string \<Rightarrow> string \<Rightarrow> int" where
  "total_capacity db y g = sum_list (map cls_max_capacity (class_list db y g))"

definition enrolled_count :: "adm_db \<Rightarrow> string \<Rightarrow> string \<Rightarrow> int" where
  \<comment> \<open>\<open>COUNT(DISTINCT ce.student_id)\<close> over the active enrolments of the listed classes\<close>
  "enrolled_count db y g =
     int (length (remdups (map enr_student_id
       (filter (\<lambda>e. enr_is_active e \<and> enr_class_id e \<in> set (map cls_id (class_list db y g))) (adm_enrolments db)))))"

definition conditional_count :: "adm_db \<Rightarrow> string \<Rightarrow> string \<Rightarrow> int" where
  "conditional_count db y g = int (length (with_status db y g Conditional_approval))"

definition keyFor :: "string \<Rightarrow> string \<Rightarrow> string" where
  "keyFor y g = y @ '':'' @ g"

definition capacity_row :: "adm_db \<Rightarrow> string \<Rightarrow> string \<Rightarrow> available_seats_result" where
  "capacity_row db y g =
     (let total = total_capacity db y g; enrolled = enrolled_count db y g; conditional = conditional_count db y g
      in \<lparr>seats_total_capacity = total, seats_enrolled = enrolled, seats_conditional = conditional,
          seats_available = max 0 (total - enrolled - conditional), seats_configured = total > 0\<rparr>)"

definition fetchCapacityRows :: "adm_db \<Rightarrow> (string \<times> string) list \<Rightarrow> (string \<times> available_seats_result) list" where
  "fetchCapacityRows db pairs = foldl (\<lambda>out (y, g). AList.update (keyFor y g) (capacity_row db y g) out) [] pairs"

definition no_seats :: available_seats_result where
  "no_seats = \<lparr>seats_total_capacity = 0, seats_enrolled = 0, seats_conditional = 0, seats_available = 0,
     seats_configured = False\<rparr>"

definition getAvailableSeats :: "adm_db \<Rightarrow> string \<Rightarrow> string \<Rightarrow> available_seats_result" where
  "getAvailableSeats db y g = map_get (fetchCapacityRows db [(y, g)]) (keyFor y g) no_seats"

definition getAvailableSeatsBatch :: "adm_db \<Rightarrow> (string \<times> string) list \<Rightarrow> (string \<times> available_seats_result) list" where
  "getAvailableSeatsBatch db pairs =
     (if length pairs = 0 then []
      else
        let unique = foldl (\<lambda>m (y, g). AList.update (keyFor y g) (y, g) m) [] pairs;
            fetched = fetchCapacityRows db (map snd unique)
        in foldl (\<lambda>out (y, g). AList.update (keyFor y g) (map_get fetched (keyFor y g) no_seats) out) []
             (map snd unique))"

definition getStudentYearGroupCapacity :: "adm_db \<Rightarrow> string \<Rightarrow> available_seats_result option" where
  "getStudentYearGroupCapacity db sid =
     (case List.find (\<lambda>s. stu_id s = sid) (adm_students db) of
        None \<Rightarrow> None
      | Some student \<Rightarrow>
          if \<not> truthy (stu_year_group_id student) then None
          else
            (case sort_key (\<lambda>e. - enr_start_date e)
                    (filter (\<lambda>e. enr_student_id e = sid \<and> enr_is_active e) (adm_enrolments db)) of
               [] \<Rightarrow> None
             | e # _ \<Rightarrow>
                 (case List.find (\<lambda>c. cls_id c = enr_class_id e) (adm_classes db) of
                    None \<Rightarrow> None
                  | Some c \<Rightarrow>
                      if cls_academic_year_id c = [] then None
                      else Some (getAvailableSeats db (cls_academic_year_id c) (the (stu_year_group_id student))))))"

lemma getAvailableSeats_eq: "getAvailableSeats db y g = capacity_row db y g"
  by (simp add: getAvailableSeats_def fetchCapacityRows_def map_get_def)

lemma capacity_row_simps [simp]:
  "seats_available (capacity_row db y g) = max 0 (total_capacity db y g - enrolled_count db y g - conditional_count db y g)"
  "seats_configured (capacity_row db y g) \<longleftrightarrow> 0 < total_capacity db y g"
  by (simp_all add: capacity_row_def Let_def)

section \<open>A promotion pass\<close>

definition eligible :: "string \<Rightarrow> string \<Rightarrow> application \<Rightarrow> bool" where
  "eligible y g a \<longleftrightarrow> app_status a = Waiting_list \<and> app_substatus a = None \<and> targets y g a"

locale promotion_pass =
  fixes seats :: "adm_db \<Rightarrow> string \<Rightarrow> string \<Rightarrow> int"
    and order :: "application list \<Rightarrow> application list"
    and mark :: "application \<Rightarrow> adm_db \<Rightarrow> adm_db"
  assumes order_perm: "mset (order xs) = mset xs"
    and mark_applications: "adm_applications (mark a db) =
      map (\<lambda>b. if app_id b = app_id a then b\<lparr>app_status := Ready_to_admit\<rparr> else b) (adm_applications db)"
begin

definition waiting :: "adm_db \<Rightarrow> string \<Rightarrow> string \<Rightarrow> application list" where
  "waiting db y g = order (filter (eligible y g) (adm_applications db))"

definition chosen :: "adm_db \<Rightarrow> string \<Rightarrow> string \<Rightarrow> application list" where
  "chosen db y g = take (nat (seats db y g)) (waiting db y g)"

definition pass :: "adm_db \<Rightarrow> string \<Rightarrow> string \<Rightarrow> adm_db" where
  "pass db y g = fold mark (chosen db y g) db"

lemma set_waiting: "set (waiting db y g) = {a \<in> set (adm_applications db). eligible y g a}"
proof -
  have "set_mset (mset (waiting db y g)) = set_mset (mset (filter (eligible y g) (adm_applications db)))"
    unfolding waiting_def order_perm ..
  then show ?thesis by auto
qed

lemma length_waiting: "length (waiting db y g) = length (filter (eligible y g) (adm_applications db))"
  unfolding waiting_def using order_perm by (metis size_mset)

lemma set_chosen: "a \<in> set (chosen db y g) \<Longrightarrow> a \<in> set (adm_applications db) \<and> eligible y g a"
  using set_waiting by (auto simp: chosen_def dest: in_set_takeD)

lemma distinct_chosen:
  assumes "distinct (map app_id (adm_applications db))" shows "distinct (map app_id (chosen db y g))"
proof -
  have "distinct (map app_id (filter (eligible y g) (adm_applications db)))"
    using assms by (simp add: distinct_map inj_on_def)
  moreover have "mset (map app_id (waiting db y g)) = mset (map app_id (filter (eligible y g) (adm_applications db)))"
    by (simp add: waiting_def order_perm)
  ultimately have "distinct (map app_id (waiting db y g))" by (metis mset_eq_imp_distinct_iff)
  then show ?thesis by (simp add: chosen_def take_map [symmetric])
qed

lemma fold_mark_applications:
  "adm_applications (fold mark xs db) =
   map (\<lambda>b. if app_id b \<in> app_id ` set xs then b\<lparr>app_status := Ready_to_admit\<rparr> else b) (adm_applications db)"
  by (induction xs arbitrary: db) (auto simp: mark_applications)

text \<open>The pass marks the applications it chose and changes no other row.\<close>

lemma pass_applications:
  assumes "distinct (map app_id (adm_applications db))"
  shows "adm_applications (pass db y g) =
    map (\<lambda>b. if b \<in> set (chosen db y g) then b\<lparr>app_status := Ready_to_admit\<rparr> else b) (adm_applications db)"
proof -
  have "app_id b \<in> app_id ` set (chosen db y g) \<longleftrightarrow> b \<in> set (chosen db y g)" if "b \<in> set (adm_applications db)" for b
    using assms that set_chosen by (auto simp: distinct_map dest: inj_onD)
  then show ?thesis by (simp add: pass_def fold_mark_applications)
qed

lemma length_chosen: "length (chosen db y g) = min (nat (seats db y g)) (length (filter (eligible y g) (adm_applications db)))"
  by (simp add: chosen_def length_waiting min.commute)

lemma no_jump:
  assumes "a \<in> set (chosen db y g)" "b \<in> set (waiting db y g)" "b \<notin> set (chosen db y g)" "sorted (map key (waiting db y g))"
  shows "key a \<le> key b"
proof -
  have "b \<in> set (drop (nat (seats db y g)) (waiting db y g))"
    using assms(2,3) unfolding chosen_def by (metis Un_iff append_take_drop_id set_append)
  moreover have "sorted (map key (chosen db y g) @ map key (drop (nat (seats db y g)) (waiting db y g)))"
    using assms(4) unfolding chosen_def by (metis append_take_drop_id map_append)
  ultimately show ?thesis using assms(1) by (auto simp: sorted_append)
qed

end

section \<open>Auto-promotion service\<close>

record promotion_result =
  promoted_count :: nat
  promoted_application_ids :: "string list"
  remaining_seats :: int

definition service_order :: "application list \<Rightarrow> application list" where
  \<comment> \<open>\<open>ORDER BY is_sibling_application DESC, apply_date ASC\<close>\<close>
  "service_order = sort_key (\<lambda>a. (\<not> app_is_sibling a, app_apply_date a))"

definition service_mark :: "application \<Rightarrow> adm_db \<Rightarrow> adm_db" where
  "service_mark a db =
     enqueue_job (Auto_promoted_job (app_id a))
       (add_note (app_id a) SYSTEM_USER_SENTINEL
          ''Auto-promoted from waiting list: a seat opened in the target year group.'' Auto_promoted
          (update_application (app_id a) (\<lambda>b. b\<lparr>app_status := Ready_to_admit\<rparr>) db))"

definition promoteYearGroup :: "adm_db \<Rightarrow> string \<Rightarrow> string \<Rightarrow> promotion_result \<times> adm_db" where
  "promoteYearGroup db y g =
     (let capacity = getAvailableSeats db y g
      in if seats_available capacity = 0
         then (\<lparr>promoted_count = 0, promoted_application_ids = [], remaining_seats = 0\<rparr>, db)
         else
           let limit = seats_available capacity;
               candidates = take (nat limit) (service_order (filter (eligible y g) (adm_applications db)))
           in if length candidates = 0
              then (\<lparr>promoted_count = 0, promoted_application_ids = [], remaining_seats = limit\<rparr>, db)
              else
                let ids = map app_id candidates
                in (\<lparr>promoted_count = length ids, promoted_application_ids = ids,
                      remaining_seats = max 0 (limit - int (length ids))\<rparr>,
                    fold service_mark candidates db))"

definition onClassAdded :: "adm_db \<Rightarrow> string \<Rightarrow> (promotion_result \<times> adm_db) adm" where
  "onClassAdded db cid =
     (case List.find (\<lambda>c. cls_id c = cid) (adm_classes db) of
        None \<Rightarrow> Inl CLASS_NOT_FOUND
      | Some c \<Rightarrow>
          if \<not> truthy (cls_year_group_id c)
          then Inr (\<lparr>promoted_count = 0, promoted_application_ids = [], remaining_seats = 0\<rparr>, db)
          else Inr (promoteYearGroup db (cls_academic_year_id c) (the (cls_year_group_id c))))"

definition drop_year_setup :: "string \<Rightarrow> string \<Rightarrow> adm_db \<Rightarrow> adm_db" where
  "drop_year_setup y g db =
     db\<lparr>adm_applications :=
       map (\<lambda>a. if app_status a = Waiting_list \<and> app_substatus a = Some Awaiting_year_setup \<and> targets y g a
                 then a\<lparr>app_substatus := None\<rparr> else a) (adm_applications db)\<rparr>"

definition onYearGroupActivated :: "adm_db \<Rightarrow> string \<Rightarrow> string \<Rightarrow> promotion_result \<times> adm_db" where
  "onYearGroupActivated db y g = promoteYearGroup (drop_year_setup y g db) y g"

lemma update_mark:
  "adm_applications (update_application (app_id a) (\<lambda>b. b\<lparr>app_status := Ready_to_admit\<rparr>) db) =
   map (\<lambda>b. if app_id b = app_id a then b\<lparr>app_status := Ready_to_admit\<rparr> else b) (adm_applications db)"
  by (rule adm_applications_update)

interpretation service_pass: promotion_pass
  "\<lambda>db y g. seats_available (getAvailableSeats db y g)" service_order service_mark
  by unfold_locales (simp_all add: service_order_def service_mark_def update_mark)

lemma promoteYearGroup_pass: "snd (promoteYearGroup db y g) = service_pass.pass db y g"
  by (auto simp: promoteYearGroup_def service_pass.pass_def service_pass.chosen_def service_pass.waiting_def Let_def)

lemma promoted_count_eq:
  "promoted_count (fst (promoteYearGroup db y g)) = length (service_pass.chosen db y g)"
  "promoted_application_ids (fst (promoteYearGroup db y g)) = map app_id (service_pass.chosen db y g)"
  by (auto simp: promoteYearGroup_def service_pass.chosen_def service_pass.waiting_def Let_def)

section \<open>The worker's copy\<close>

definition worker_order :: "application list \<Rightarrow> application list" where
  \<comment> \<open>\<open>orderBy: { apply_date: 'asc' }\<close>\<close>
  "worker_order = sort_key app_apply_date"

definition worker_mark :: "string \<Rightarrow> application \<Rightarrow> adm_db \<Rightarrow> adm_db" where
  "worker_mark user a db =
     add_note (app_id a) user ''Auto-promoted to Ready to Admit (seat freed by payment window expiry).'' Auto_promoted
       (update_application (app_id a) (\<lambda>b. b\<lparr>app_status := Ready_to_admit\<rparr>) db)"

definition worker_seats :: "adm_db \<Rightarrow> string \<Rightarrow> string \<Rightarrow> int" where
  "worker_seats db y g =
     (let classes = filter (\<lambda>c. cls_academic_year_id c = y \<and> cls_year_group_id c = Some g \<and> cls_is_active c) (adm_classes db)
      in if length classes = 0 then 0
         else
           let total = foldl (\<lambda>s c. s + cls_max_capacity c) 0 classes;
               ids = map cls_id classes;
               enrolled = length (remdups (map enr_student_id
                 (filter (\<lambda>e. enr_class_id e \<in> set ids \<and> enr_is_active e) (adm_enrolments db))));
               conditional = length (filter (\<lambda>a. app_target_academic_year_id a = Some y \<and>
                 app_target_year_group_id a = Some g \<and> app_status a = Conditional_approval) (adm_applications db))
           in max 0 (total - int enrolled - int conditional))"

definition worker_promoteYearGroup :: "adm_db \<Rightarrow> string \<Rightarrow> string \<Rightarrow> string \<Rightarrow> nat \<times> adm_db" where
  "worker_promoteYearGroup db y g user =
     (let available = worker_seats db y g
      in if available = 0 then (0, db)
         else
           let candidates = take (nat available) (worker_order (filter (eligible y g) (adm_applications db)))
           in (length candidates, fold (worker_mark user) candidates db))"

interpretation worker_pass: promotion_pass worker_seats worker_order "worker_mark user" for user
  by unfold_locales (simp_all add: worker_order_def worker_mark_def update_mark)

lemma worker_promote_pass: "snd (worker_promoteYearGroup db y g user) = worker_pass.pass user db y g"
  by (auto simp: worker_promoteYearGroup_def worker_pass.pass_def worker_pass.chosen_def worker_pass.waiting_def Let_def)

lemma foldl_sum: "foldl (\<lambda>s c. s + f c) (k :: int) xs = k + sum_list (map f xs)"
  by (induction xs arbitrary: k) simp_all

lemma worker_classes: "filter (\<lambda>c. cls_academic_year_id c = y \<and> cls_year_group_id c = Some g \<and> cls_is_active c) (adm_classes db) = class_list db y g"
  unfolding class_list_def by (rule filter_cong) auto

lemma worker_seats_eq: "worker_seats db y g = seats_available (getAvailableSeats db y g)"
proof -
  have cond: "length (filter (\<lambda>a. app_target_academic_year_id a = Some y \<and> app_target_year_group_id a = Some g \<and>
      app_status a = Conditional_approval) (adm_applications db)) = length (with_status db y g Conditional_approval)"
    by (simp add: with_status_def targets_def conj_assoc)
  have enr: "filter (\<lambda>e. enr_class_id e \<in> set (map cls_id (class_list db y g)) \<and> enr_is_active e) (adm_enrolments db) =
      filter (\<lambda>e. enr_is_active e \<and> enr_class_id e \<in> set (map cls_id (class_list db y g))) (adm_enrolments db)"
    by (rule filter_cong) auto
  show ?thesis
  proof (cases "class_list db y g")
    case Nil
    then show ?thesis
      by (simp add: worker_seats_def worker_classes Let_def getAvailableSeats_eq total_capacity_def enrolled_count_def
          conditional_count_def)
  next
    case (Cons c cs)
    then have "length (class_list db y g) \<noteq> 0" by simp
    then show ?thesis
      unfolding worker_seats_def worker_classes Let_def cond enr getAvailableSeats_eq capacity_row_simps
        total_capacity_def enrolled_count_def conditional_count_def foldl_sum by simp
  qed
qed

section \<open>Properties\<close>

definition queue_key :: "application \<Rightarrow> bool \<times> int" where
  "queue_key a = (\<not> app_is_sibling a, app_apply_date a)"

definition ids_unique :: "adm_db \<Rightarrow> bool" where
  \<comment> \<open>the primary key of \<open>applications\<close>\<close>
  "ids_unique db \<longleftrightarrow> distinct (map app_id (adm_applications db))"

lemma service_no_jump:
  assumes "a \<in> set (service_pass.chosen db y g)" "b \<in> set (adm_applications db)" "eligible y g b"
    "b \<notin> set (service_pass.chosen db y g)"
  shows "queue_key a \<le> queue_key b"
proof (rule service_pass.no_jump [OF assms(1) _ assms(4)])
  show "b \<in> set (service_pass.waiting db y g)" using assms(2,3) by (simp add: service_pass.set_waiting)
  show "sorted (map queue_key (service_pass.waiting db y g))"
    unfolding service_pass.waiting_def unfolding service_order_def queue_key_def [abs_def] by (rule sorted_sort_key)
qed

text \<open>C19: a promotion pass fills the free seats from the front of the waiting list: it promotes as many
  applications as there are seats and eligible rows (on the waiting list, not awaiting year setup, for this
  year group), siblings before others and then by application date, never leaving behind a row that comes
  before a promoted one, and it changes no other row.\<close>

theorem promoteYearGroup_fifo:
  assumes "ids_unique db"
  shows "\<exists>chosen.
    set chosen \<subseteq> {a \<in> set (adm_applications db). eligible y g a} \<and> distinct chosen \<and>
    length chosen = min (nat (seats_available (getAvailableSeats db y g)))
      (length (filter (eligible y g) (adm_applications db))) \<and>
    promoted_count (fst (promoteYearGroup db y g)) = length chosen \<and>
    promoted_application_ids (fst (promoteYearGroup db y g)) = map app_id chosen \<and>
    adm_applications (snd (promoteYearGroup db y g)) =
      map (\<lambda>b. if b \<in> set chosen then b\<lparr>app_status := Ready_to_admit\<rparr> else b) (adm_applications db) \<and>
    \<not> (\<exists>a b. a \<in> set chosen \<and> b \<in> set (adm_applications db) - set chosen \<and> eligible y g b \<and> queue_key b < queue_key a)"
proof -
  let ?c = "service_pass.chosen db y g"
  have u: "distinct (map app_id (adm_applications db))" using assms by (simp add: ids_unique_def)
  have "set ?c \<subseteq> {a \<in> set (adm_applications db). eligible y g a}" using service_pass.set_chosen by blast
  moreover have "distinct ?c" using service_pass.distinct_chosen [OF u] by (simp add: distinct_map)
  moreover have "\<not> (\<exists>a b. a \<in> set ?c \<and> b \<in> set (adm_applications db) - set ?c \<and> eligible y g b \<and> queue_key b < queue_key a)"
    using service_no_jump by (auto simp: not_less [symmetric] simp del: not_less)
  ultimately show ?thesis
    using service_pass.length_chosen [of db y g] service_pass.pass_applications [OF u, of y g]
    by (intro exI [of _ ?c]) (simp add: promoted_count_eq promoteYearGroup_pass)
qed

definition blank_application :: "string \<Rightarrow> application_status \<Rightarrow> int \<Rightarrow> application" where
  "blank_application i st date = \<lparr>app_id = i, app_form_definition_id = ''f'', app_number = i, app_submitted_by_parent_id = None,
     app_first_name = ''A'', app_last_name = ''B'', app_date_of_birth = None, app_payload = ''{}'', app_status = st,
     app_substatus = None, app_submitted_at = None, app_apply_date = date, app_target_academic_year_id = Some ''2025'',
     app_target_year_group_id = Some ''y1'', app_is_sibling = False, app_payment_amount_cents = None,
     app_currency_code = None, app_payment_deadline = None, app_rejection_reason = None, app_reviewed_at = None,
     app_reviewed_by_user_id = None, app_override_record_id = None\<rparr>"

definition one_class :: class_row where
  "one_class = \<lparr>cls_id = ''c1'', cls_academic_year_id = ''2025'', cls_year_group_id = Some ''y1'', cls_max_capacity = 1,
     cls_is_active = True\<rparr>"

definition example_adm :: adm_db where
  \<comment> \<open>one seat, an early applicant and a later sibling\<close>
  "example_adm = \<lparr>adm_applications = [blank_application ''a1'' Waiting_list 1, (blank_application ''a2'' Waiting_list 2)\<lparr>app_is_sibling := True\<rparr>],
     adm_notes = [], adm_classes = [one_class], adm_enrolments = [], adm_students = [], adm_parents = [], adm_jobs = []\<rparr>"

lemma promoteYearGroup_fifo_witness:
  "\<exists>chosen.
    set chosen \<subseteq> {a \<in> set (adm_applications example_adm). eligible ''2025'' ''y1'' a} \<and> distinct chosen \<and>
    length chosen = min (nat (seats_available (getAvailableSeats example_adm ''2025'' ''y1'')))
      (length (filter (eligible ''2025'' ''y1'') (adm_applications example_adm))) \<and>
    promoted_count (fst (promoteYearGroup example_adm ''2025'' ''y1'')) = length chosen \<and>
    promoted_application_ids (fst (promoteYearGroup example_adm ''2025'' ''y1'')) = map app_id chosen \<and>
    adm_applications (snd (promoteYearGroup example_adm ''2025'' ''y1'')) =
      map (\<lambda>b. if b \<in> set chosen then b\<lparr>app_status := Ready_to_admit\<rparr> else b) (adm_applications example_adm) \<and>
    \<not> (\<exists>a b. a \<in> set chosen \<and> b \<in> set (adm_applications example_adm) - set chosen \<and> eligible ''2025'' ''y1'' b \<and>
        queue_key b < queue_key a)"
  by (rule promoteYearGroup_fifo) code_simp

text \<open>C21: the payment-expiry worker computes, on every state of the tables, the same number of free seats as the
  capacity service that it mirrors.\<close>

theorem worker_seats_mirror_service:
  "worker_seats = (\<lambda>db y g. seats_available (getAvailableSeats db y g))"
  by (intro ext) (rule worker_seats_eq)

text \<open>The two passes do not promote the same applicants: on one free seat the service admits the later sibling,
  the worker's copy, which orders by date only, the earlier applicant who is not one.\<close>

theorem worker_pass_ignores_siblings:
  "map app_status (adm_applications (snd (promoteYearGroup example_adm ''2025'' ''y1''))) = [Waiting_list, Ready_to_admit] \<and>
   map app_status (adm_applications (snd (worker_promoteYearGroup example_adm ''2025'' ''y1'' ''u1''))) = [Ready_to_admit, Waiting_list]"
  by code_simp

lemma pass_with_status:
  assumes "ids_unique db" "s \<noteq> Waiting_list" "s \<noteq> Ready_to_admit"
  shows "length (with_status (snd (promoteYearGroup db y g)) y' g' s) = length (with_status db y' g' s)"
proof -
  let ?c = "set (service_pass.chosen db y g)" and ?P = "\<lambda>a. targets y' g' a \<and> app_status a = s"
  let ?f = "\<lambda>b. if b \<in> ?c then b\<lparr>app_status := Ready_to_admit\<rparr> else b"
  have "filter (?P \<circ> ?f) (adm_applications db) = filter ?P (adm_applications db)"
    using assms(2,3) service_pass.set_chosen [of _ db y g]
    by (intro filter_cong) (auto simp: eligible_def targets_def)
  then show ?thesis
    using assms(1) by (simp add: with_status_def promoteYearGroup_pass ids_unique_def service_pass.pass_applications filter_map)
qed

lemma pass_frames [simp]:
  "adm_classes (snd (promoteYearGroup db y g)) = adm_classes db" "adm_enrolments (snd (promoteYearGroup db y g)) = adm_enrolments db"
  "adm_students (snd (promoteYearGroup db y g)) = adm_students db" "adm_parents (snd (promoteYearGroup db y g)) = adm_parents db"
proof -
  have "adm_classes (fold service_mark xs db) = adm_classes db \<and> adm_enrolments (fold service_mark xs db) = adm_enrolments db \<and>
    adm_students (fold service_mark xs db) = adm_students db \<and> adm_parents (fold service_mark xs db) = adm_parents db" for xs
    by (induction xs arbitrary: db) (simp_all add: service_mark_def)
  then show "adm_classes (snd (promoteYearGroup db y g)) = adm_classes db" "adm_enrolments (snd (promoteYearGroup db y g)) = adm_enrolments db"
    "adm_students (snd (promoteYearGroup db y g)) = adm_students db" "adm_parents (snd (promoteYearGroup db y g)) = adm_parents db"
    by (simp_all add: promoteYearGroup_pass service_pass.pass_def)
qed

lemma seats_depend:
  assumes "adm_classes db = adm_classes db'" "adm_enrolments db = adm_enrolments db'"
  shows "total_capacity db y g = total_capacity db' y g \<and> enrolled_count db y g = enrolled_count db' y g"
  using assms by (simp add: total_capacity_def enrolled_count_def class_list_def)

lemma promotion_keeps_capacity:
  assumes "ids_unique db"
  shows "getAvailableSeats (snd (promoteYearGroup db y g)) y' g' = getAvailableSeats db y' g'"
  using pass_with_status [OF assms, of Conditional_approval y g y' g'] seats_depend [of "snd (promoteYearGroup db y g)" db y' g']
  by (simp add: getAvailableSeats_eq capacity_row_def conditional_count_def)

text \<open>C22: promotion does not use up seats: after a pass the capacity service reports the same free seats for every year
  group, so that a second pass promotes again into the seats the first one offered.\<close>

theorem promotion_does_not_consume_seats:
  assumes "ids_unique db"
  shows "getAvailableSeats (snd (promoteYearGroup db y g)) y' g' = getAvailableSeats db y' g'"
  by (rule promotion_keeps_capacity [OF assms])

lemma promotion_does_not_consume_seats_witness:
  "getAvailableSeats (snd (promoteYearGroup example_adm ''2025'' ''y1'')) ''2025'' ''y1'' =
   getAvailableSeats example_adm ''2025'' ''y1''"
  by (rule promotion_does_not_consume_seats) code_simp

definition plain_id :: "string \<Rightarrow> bool" where
  \<comment> \<open>ids are UUIDs and hold no colon\<close>
  "plain_id s \<longleftrightarrow> CHR '':'' \<notin> set s"

lemma keyFor_inj: "plain_id g \<Longrightarrow> plain_id g' \<Longrightarrow> keyFor y g = keyFor y' g' \<longleftrightarrow> y = y' \<and> g = g'"
  by (simp add: keyFor_def plain_id_def append_sep_inj)

lemma fold_update_get:
  assumes "\<And>p q. p \<in> set ps \<Longrightarrow> q \<in> set ps \<Longrightarrow> k p = k q \<Longrightarrow> p = q" and "p \<in> set ps"
  shows "map_of (foldl (\<lambda>m q. AList.update (k q) (v q) m) m0 ps) (k p) = Some (v p)"
  using assms
proof (induction ps rule: rev_induct)
  case (snoc q qs)
  show ?case
  proof (cases "k q = k p")
    case True
    with snoc.prems have "q = p" by (metis in_set_conv_decomp)
    then show ?thesis by (simp add: update_conv')
  next
    case False
    with snoc show ?thesis by (auto simp: update_conv')
  qed
qed simp

lemma fold_update_values:
  "set (map snd (foldl (\<lambda>m q. AList.update (k q) q m) m0 ps)) \<subseteq> set (map snd m0) \<union> set ps"
proof (induction ps arbitrary: m0)
  case (Cons q qs)
  show ?case using Cons.IH [of "AList.update (k q) q m0"] values_AList_update [of "k q" q m0] by auto
qed simp

text \<open>The batched look-up used by the dashboard and the queue pages gives for every requested pair what the single
  look-up gives, duplicates in the request included.\<close>

theorem batch_agrees_with_single:
  assumes "list_all (plain_id \<circ> snd) pairs" and "(y, g) \<in> set pairs"
  shows "map_of (getAvailableSeatsBatch db pairs) (keyFor y g) = Some (getAvailableSeats db y g)"
proof -
  let ?u = "foldl (\<lambda>m q. AList.update (case q of (y, g) \<Rightarrow> keyFor y g) q m) [] pairs"
  let ?ps = "map snd ?u"
  let ?k = "\<lambda>q. case q of (y, g) \<Rightarrow> keyFor y g"
  have inj: "p = q" if "p \<in> set pairs" "q \<in> set pairs" "?k p = ?k q" for p q
  proof -
    have "plain_id (snd p)" "plain_id (snd q)" using that(1,2) assms(1) by (auto simp: list_all_iff)
    from keyFor_inj [OF this] that(3) show ?thesis by (simp add: split_def prod_eq_iff)
  qed
  have sub: "set ?ps \<subseteq> set pairs" using fold_update_values [of ?k "[]" pairs] by simp
  have mem: "(y, g) \<in> set ?ps"
    using fold_update_get [of pairs ?k "(y, g)" "\<lambda>q. q" "[]"] inj assms(2) by (force dest: map_of_SomeD)
  have inj': "p = q" if "p \<in> set ?ps" "q \<in> set ?ps" "?k p = ?k q" for p q
    using inj sub that by blast
  have fetch: "map_of (fetchCapacityRows db ?ps) (keyFor y g) = Some (capacity_row db y g)"
    using fold_update_get [where k = ?k and v = "\<lambda>(y, g). capacity_row db y g" and ?m0.0 = "[]", OF inj' mem]
    by (simp add: fetchCapacityRows_def split_def)
  have "map_of (foldl (\<lambda>out q. AList.update (?k q) (map_get (fetchCapacityRows db ?ps) (?k q) no_seats) out) [] ?ps) (?k (y, g)) =
      Some (map_get (fetchCapacityRows db ?ps) (?k (y, g)) no_seats)"
    by (rule fold_update_get [OF inj' mem])
  moreover have "getAvailableSeatsBatch db pairs =
      foldl (\<lambda>out q. AList.update (?k q) (map_get (fetchCapacityRows db ?ps) (?k q) no_seats) out) [] ?ps"
    using assms(2) by (auto simp: getAvailableSeatsBatch_def Let_def split_def)
  ultimately show ?thesis by (simp only: prod.case map_get_def [where k = "keyFor y g"] fetch option.case getAvailableSeats_eq)
qed

lemma batch_agrees_with_single_witness:
  "map_of (getAvailableSeatsBatch example_adm [(''2025'', ''y1''), (''2025'', ''y2''), (''2025'', ''y1'')]) (keyFor ''2025'' ''y1'') =
   Some (getAvailableSeats example_adm ''2025'' ''y1'')"
  by (rule batch_agrees_with_single) (simp_all add: plain_id_def)

end
