(* ===== verification/Admissions_Workflow.thy ===== *)
theory Admissions_Workflow
  imports Admissions_Promotion
begin

text \<open>
  The admissions state machine of \<open>application-state-machine.service.ts\<close>, the fee look-up it uses
  (\<open>finance-fees.facade.ts\<close>), the payment-expiry worker (\<open>admissions-payment-expiry.processor.ts\<close>) and the class
  creation hook of \<open>classes.service.ts\<close> that opens seats. \<open>adm_env\<close> holds what the operations read from outside: the
  clock, the module switch and settings, and the fee structures and currency that the finance and tenant modules return.
\<close>

section \<open>Fees\<close>

datatype billing_frequency = One_off | Term | Monthly | Custom

fun ANNUAL_MULTIPLIER :: "billing_frequency \<Rightarrow> rat" where
  "ANNUAL_MULTIPLIER One_off = 1"
| "ANNUAL_MULTIPLIER Term = 3"
| "ANNUAL_MULTIPLIER Monthly = 12"
| "ANNUAL_MULTIPLIER Custom = 1"

record fee_structure =
  fee_amount :: rat
  fee_billing_frequency :: billing_frequency

record adm_env =
  env_now :: int
  env_fee_structures :: "string \<Rightarrow> fee_structure list"
  env_currency :: "string option"
  env_upfront_percentage :: rat
  env_payment_window_days :: int
  env_admissions_enabled :: bool

definition resolveAnnualNetFeeCents :: "adm_env \<Rightarrow> string \<Rightarrow> (int \<times> string) adm" where
  "resolveAnnualNetFeeCents env g =
     (let fees = env_fee_structures env g
      in if length fees = 0 then Inl NO_FEE_STRUCTURE_CONFIGURED
         else if \<not> truthy (env_currency env) then Inl TENANT_CURRENCY_NOT_CONFIGURED
         else Inr (foldl (\<lambda>total f. total + js_round (fee_amount f * ANNUAL_MULTIPLIER (fee_billing_frequency f) * 100)) 0 fees,
                   the (env_currency env)))"

section \<open>Transitions\<close>

fun VALID_TRANSITIONS :: "application_status \<Rightarrow> application_status list" where
  "VALID_TRANSITIONS Submitted = [Ready_to_admit, Waiting_list]"
| "VALID_TRANSITIONS Waiting_list = [Ready_to_admit, Rejected, Withdrawn]"
| "VALID_TRANSITIONS Ready_to_admit = [Conditional_approval, Rejected, Withdrawn]"
| "VALID_TRANSITIONS Conditional_approval = [Approved, Waiting_list, Rejected, Withdrawn]"
| "VALID_TRANSITIONS Approved = []"
| "VALID_TRANSITIONS Rejected = []"
| "VALID_TRANSITIONS Withdrawn = []"

definition transition_allowed :: "application_status \<Rightarrow> application_status \<Rightarrow> bool" where
  "transition_allowed from to \<longleftrightarrow> to \<in> set (VALID_TRANSITIONS from)"

definition has_target :: "application \<Rightarrow> bool" where
  "has_target a \<longleftrightarrow> truthy (app_target_academic_year_id a) \<and> truthy (app_target_year_group_id a)"

definition target_year :: "application \<Rightarrow> string" where
  "target_year a = the (app_target_academic_year_id a)"

definition target_group :: "application \<Rightarrow> string" where
  "target_group a = the (app_target_year_group_id a)"

definition updated_row :: "adm_db \<Rightarrow> string \<Rightarrow> application" where
  \<comment> \<open>what \<open>db.application.update\<close> returns\<close>
  "updated_row db i = the (find_application db i)"

subsection \<open>Submission\<close>

record submit_params =
  sp_form_definition_id :: string
  sp_first_name :: string
  sp_last_name :: string
  sp_date_of_birth :: "int option"
  sp_target_academic_year_id :: string
  sp_target_year_group_id :: string
  sp_payload :: string
  sp_submitted_by_parent_id :: "string option"
  sp_apply_date :: "int option"

definition route_target :: "available_seats_result \<Rightarrow> application_status \<times> substatus option" where
  "route_target capacity =
     (if \<not> seats_configured capacity then (Waiting_list, Some Awaiting_year_setup)
      else if seats_available capacity > 0 then (Ready_to_admit, None)
      else (Waiting_list, None))"

definition routeSubmittedApplication :: "string \<Rightarrow> adm_db \<Rightarrow> (application \<times> adm_db) adm" where
  "routeSubmittedApplication i db =
     (case find_application db i of
        None \<Rightarrow> Inl APPLICATION_NOT_FOUND
      | Some a \<Rightarrow>
          if \<not> has_target a then Inl MISSING_TARGET_YEAR_GROUP
          else
            let (st, sub) = route_target (getAvailableSeats db (target_year a) (target_group a));
                db' = update_application i (\<lambda>b. b\<lparr>app_status := st, app_substatus := sub\<rparr>) db
            in Inr (updated_row db' i, db'))"

definition new_application :: "adm_env \<Rightarrow> submit_params \<Rightarrow> string \<Rightarrow> string \<Rightarrow> application" where
  "new_application env p i number =
     (let applyDate = (case sp_apply_date p of None \<Rightarrow> env_now env | Some d \<Rightarrow> d)
      in \<lparr>app_id = i, app_form_definition_id = sp_form_definition_id p, app_number = number,
          app_submitted_by_parent_id = sp_submitted_by_parent_id p, app_first_name = sp_first_name p,
          app_last_name = sp_last_name p, app_date_of_birth = sp_date_of_birth p, app_payload = sp_payload p,
          app_status = Submitted, app_substatus = None, app_submitted_at = Some applyDate, app_apply_date = applyDate,
          app_target_academic_year_id = Some (sp_target_academic_year_id p),
          app_target_year_group_id = Some (sp_target_year_group_id p), app_is_sibling = False,
          app_payment_amount_cents = None, app_currency_code = None, app_payment_deadline = None,
          app_rejection_reason = None, app_reviewed_at = None, app_reviewed_by_user_id = None,
          app_override_record_id = None\<rparr>)"

definition submit :: "adm_env \<Rightarrow> submit_params \<Rightarrow> string \<Rightarrow> string \<Rightarrow> adm_db \<Rightarrow> (application \<times> adm_db) adm" where
  "submit env p i number db =
     (case routeSubmittedApplication i (db\<lparr>adm_applications := adm_applications db @ [new_application env p i number]\<rparr>) of
        Inl e \<Rightarrow> Inl e
      | Inr (a, db') \<Rightarrow> Inr (a, enqueue_job (Application_received i) db'))"

subsection \<open>Conditional approval\<close>

definition moveToConditionalApproval :: "adm_env \<Rightarrow> string \<Rightarrow> string \<Rightarrow> adm_db \<Rightarrow> (application \<times> adm_db) adm" where
  "moveToConditionalApproval env i user db =
     (case find_application db i of
        None \<Rightarrow> Inl APPLICATION_NOT_FOUND
      | Some current \<Rightarrow>
          if \<not> transition_allowed (app_status current) Conditional_approval then Inl INVALID_STATUS_TRANSITION
          else if \<not> has_target current then Inl MISSING_TARGET_YEAR_GROUP
          else if seats_available (getAvailableSeats db (target_year current) (target_group current)) = 0
          then Inl CAPACITY_EXHAUSTED
          else
            (case resolveAnnualNetFeeCents env (target_group current) of
               Inl e \<Rightarrow> Inl e
             | Inr (amount, currency) \<Rightarrow>
                 let paymentAmountCents = js_round (of_int amount * env_upfront_percentage env / 100);
                     deadline = env_now env + env_payment_window_days env * 86400000;
                     db1 = update_application i (\<lambda>a. a\<lparr>app_status := Conditional_approval,
                             app_payment_amount_cents := Some paymentAmountCents, app_currency_code := Some currency,
                             app_payment_deadline := Some deadline, app_reviewed_at := Some (env_now env),
                             app_reviewed_by_user_id := Some user\<rparr>) db;
                     db2 = add_note i user (''Moved to Conditional Approval. Seat held. Payment deadline: '' @
                             formatNoteDeadline deadline @ ''.'') Moved_to_conditional_approval db1
                 in Inr (updated_row db1 i, enqueue_job (Payment_link i) db2)))"

subsection \<open>Rejection and withdrawal\<close>

definition release_seat :: "bool \<Rightarrow> application \<Rightarrow> adm_db \<Rightarrow> adm_db" where
  \<comment> \<open>\<open>if (releasedSeat && year && yearGroup) await promoteYearGroup(...)\<close>\<close>
  "release_seat released current db =
     (if released \<and> has_target current
      then snd (promoteYearGroup db (target_year current) (target_group current)) else db)"

definition reject_application :: "adm_env \<Rightarrow> string \<Rightarrow> string \<Rightarrow> string \<Rightarrow> adm_db \<Rightarrow> (application \<times> adm_db) adm" where
  "reject_application env i rawReason user db =
     (let reason = js_trim rawReason
      in if reason = [] then Inl REJECTION_REASON_REQUIRED
         else case find_application db i of
           None \<Rightarrow> Inl APPLICATION_NOT_FOUND
         | Some current \<Rightarrow>
             if \<not> transition_allowed (app_status current) Rejected then Inl INVALID_STATUS_TRANSITION
             else
               let releasedSeat = (app_status current = Conditional_approval);
                   db1 = update_application i (\<lambda>a. a\<lparr>app_status := Rejected, app_rejection_reason := Some reason,
                           app_reviewed_at := Some (env_now env), app_reviewed_by_user_id := Some user\<rparr>) db;
                   txt = (if releasedSeat
                          then ''Application rejected. Reason: '' @ reason @ ''. Seat released: now counted as available in the target year group.''
                          else ''Application rejected. Reason: '' @ reason @ ''.'');
                   db2 = add_note i user txt Note_rejected db1
               in Inr (updated_row db1 i, release_seat releasedSeat current db2))"

definition owns_application :: "adm_db \<Rightarrow> string \<Rightarrow> application \<Rightarrow> bool" where
  \<comment> \<open>the ownership test of a parent's withdrawal\<close>
  "owns_application db user current =
     (case List.find (\<lambda>p. par_user_id p = Some user) (adm_parents db) of
        None \<Rightarrow> False | Some parent \<Rightarrow> app_submitted_by_parent_id current = Some (par_id parent))"

definition withdraw :: "adm_env \<Rightarrow> string \<Rightarrow> string \<Rightarrow> bool \<Rightarrow> adm_db \<Rightarrow> (application \<times> adm_db) adm" where
  "withdraw env i user isParent db =
     (case find_application db i of
        None \<Rightarrow> Inl APPLICATION_NOT_FOUND
      | Some current \<Rightarrow>
          if isParent \<and> \<not> owns_application db user current then Inl NOT_APPLICATION_OWNER
          else if \<not> transition_allowed (app_status current) Withdrawn then Inl INVALID_STATUS_TRANSITION
          else
            let releasedSeat = (app_status current = Conditional_approval);
                db1 = update_application i (\<lambda>a. a\<lparr>app_status := Withdrawn, app_reviewed_at := Some (env_now env),
                        app_reviewed_by_user_id := Some user\<rparr>) db;
                txt = (if releasedSeat
                       then ''Application withdrawn. Seat released: now counted as available in the target year group.''
                       else ''Application withdrawn.'');
                db2 = add_note i user txt Note_withdrawn db1
            in Inr (updated_row db1 i,
                    enqueue_job (Application_withdrawn i) (release_seat releasedSeat current db2)))"

subsection \<open>Manual promotion\<close>

definition manuallyPromoteToReadyToAdmit :: "string \<Rightarrow> string \<Rightarrow> string \<Rightarrow> adm_db \<Rightarrow> (application \<times> adm_db) adm" where
  "manuallyPromoteToReadyToAdmit i user rawJustification db =
     (let justification = js_trim rawJustification
      in if length justification < 10 then Inl JUSTIFICATION_TOO_SHORT
         else case find_application db i of
           None \<Rightarrow> Inl APPLICATION_NOT_FOUND
         | Some current \<Rightarrow>
             if app_status current \<noteq> Waiting_list then Inl INVALID_STATUS_TRANSITION
             else if app_substatus current = Some Awaiting_year_setup then Inl AWAITING_YEAR_SETUP
             else if \<not> has_target current then Inl MISSING_TARGET_YEAR_GROUP
             else
               let capacity = getAvailableSeats db (target_year current) (target_group current);
                   readyToAdmitCount = int (length (with_status db (target_year current) (target_group current) Ready_to_admit))
               in if seats_available capacity - readyToAdmitCount \<le> 0 then Inl CAPACITY_EXHAUSTED
                  else
                    let db1 = update_application i (\<lambda>a. a\<lparr>app_status := Ready_to_admit\<rparr>) db
                    in Inr (updated_row db1 i,
                            add_note i user (''Manually promoted from waiting list (FIFO bypass). Justification: '' @ justification)
                              Manually_promoted db1))"

subsection \<open>Approval and expiry\<close>

datatype payment_source = Stripe | Cash | Bank_transfer | Override

fun source_name :: "payment_source \<Rightarrow> string" where
  "source_name Stripe = ''stripe''"
| "source_name Cash = ''cash''"
| "source_name Bank_transfer = ''bank_transfer''"
| "source_name Override = ''override''"

fun source_action :: "payment_source \<Rightarrow> note_action" where
  "source_action Cash = Cash_recorded"
| "source_action Bank_transfer = Bank_recorded"
| "source_action Stripe = Stripe_completed"
| "source_action Override = Override_approved"

definition markApproved ::
  "adm_env \<Rightarrow> string \<Rightarrow> string option \<Rightarrow> payment_source \<Rightarrow> string option \<Rightarrow> adm_db \<Rightarrow> (application \<times> adm_db) adm" where
  "markApproved env i user source overrideId db =
     (case find_application db i of
        None \<Rightarrow> Inl APPLICATION_NOT_FOUND
      | Some current \<Rightarrow>
          if \<not> transition_allowed (app_status current) Approved then Inl INVALID_STATUS_TRANSITION
          else
            let db1 = update_application i (\<lambda>a. a\<lparr>app_status := Approved, app_override_record_id := overrideId,
                        app_payment_deadline := None, app_reviewed_at := Some (env_now env),
                        app_reviewed_by_user_id := (if truthy user then user else app_reviewed_by_user_id a)\<rparr>) db
            in Inr (updated_row db1 i,
                    add_note i (case user of None \<Rightarrow> SYSTEM_USER_SENTINEL | Some u \<Rightarrow> u)
                      (''Application approved via '' @ source_name source @ ''.'') (source_action source) db1))"

definition back_to_waiting :: "application \<Rightarrow> application" where
  "back_to_waiting a = a\<lparr>app_status := Waiting_list, app_substatus := None, app_payment_amount_cents := None,
     app_payment_deadline := None\<rparr>"

definition revertToWaitingList :: "string \<Rightarrow> adm_db \<Rightarrow> (application \<times> adm_db) adm" where
  "revertToWaitingList i db =
     (case find_application db i of
        None \<Rightarrow> Inl APPLICATION_NOT_FOUND
      | Some current \<Rightarrow>
          if \<not> transition_allowed (app_status current) Waiting_list then Inl INVALID_STATUS_TRANSITION
          else
            let db1 = update_application i back_to_waiting db;
                db2 = add_note i (case app_reviewed_by_user_id current of None \<Rightarrow> SYSTEM_USER_SENTINEL | Some u \<Rightarrow> u)
                        ''Reverted to waiting list (reason: payment_expired). Seat released.'' Reverted_by_expiry db1
            in Inr (updated_row db1 i, release_seat True current db2))"

subsection \<open>The expiry worker\<close>

definition findExpired :: "adm_env \<Rightarrow> adm_db \<Rightarrow> application list" where
  "findExpired env db =
     sort_key app_apply_date
       (filter (\<lambda>a. app_status a = Conditional_approval \<and>
          (case app_payment_deadline a of None \<Rightarrow> False | Some d \<Rightarrow> d < env_now env)) (adm_applications db))"

definition revertApplication :: "adm_env \<Rightarrow> string \<Rightarrow> adm_db \<Rightarrow> (bool \<times> string option) \<times> adm_db" where
  "revertApplication env i db =
     (case List.find (\<lambda>a. app_id a = i \<and> app_status a = Conditional_approval) (adm_applications db) of
        None \<Rightarrow> ((False, None), db)
      | Some current \<Rightarrow>
          (case app_payment_deadline current of
             None \<Rightarrow> ((False, None), db)
           | Some d \<Rightarrow>
               if d \<ge> env_now env then ((False, None), db)
               else
                 let db1 = update_application i back_to_waiting db;
                     db2 = (if truthy (app_reviewed_by_user_id current)
                            then add_note i (the (app_reviewed_by_user_id current))
                                   ''Reverted to waiting list (reason: payment_expired). Seat released.'' Reverted_by_expiry db1
                            else db1)
                 in ((True, app_reviewed_by_user_id current), db2)))"

fun revert_all :: "adm_env \<Rightarrow> application list \<Rightarrow> (string \<times> string) list \<Rightarrow> adm_db \<Rightarrow> (string \<times> string) list \<times> adm_db" where
  \<comment> \<open>phase 1, with the map from year group to the reviewer its promotion is attributed to\<close>
  "revert_all env [] reviewers db = (reviewers, db)"
| "revert_all env (a # as) reviewers db =
     (case revertApplication env (app_id a) db of
        ((False, _), db1) \<Rightarrow> revert_all env as reviewers db1
      | ((True, reviewer), db1) \<Rightarrow>
          let reviewers1 =
                (if has_target a \<and> truthy reviewer
                 then let key = keyFor (target_year a) (target_group a)
                      in if key \<in> fst ` set reviewers then reviewers else reviewers @ [(key, the reviewer)]
                 else reviewers)
          in revert_all env as reviewers1 (enqueue_job (Payment_expired_job (app_id a)) db1))"

definition split_key :: "string \<Rightarrow> string \<times> string" where
  \<comment> \<open>\<open>const [academicYearId, yearGroupId] = key.split(':')\<close>\<close>
  "split_key k = (takeWhile (\<lambda>c. c \<noteq> CHR '':'') k,
                  takeWhile (\<lambda>c. c \<noteq> CHR '':'') (drop 1 (dropWhile (\<lambda>c. c \<noteq> CHR '':'') k)))"

fun promote_all :: "(string \<times> string) list \<Rightarrow> adm_db \<Rightarrow> adm_db" where
  \<comment> \<open>phase 2\<close>
  "promote_all [] db = db"
| "promote_all ((k, reviewer) # ks) db =
     (let (y, g) = split_key k
      in if y = [] \<or> g = [] then promote_all ks db
         else promote_all ks (snd (worker_promoteYearGroup db y g reviewer)))"

definition processTenantBatch :: "adm_env \<Rightarrow> application list \<Rightarrow> adm_db \<Rightarrow> adm_db" where
  "processTenantBatch env apps db = (let (reviewers, db1) = revert_all env apps [] db in promote_all reviewers db1)"

definition payment_expiry_run :: "adm_env \<Rightarrow> adm_db \<Rightarrow> adm_db" where
  \<comment> \<open>the scan, for one tenant: a tenant without expired rows or with the module off is left alone\<close>
  "payment_expiry_run env db =
     (let expired = findExpired env db
      in if length expired = 0 then db
         else if \<not> env_admissions_enabled env then db
         else processTenantBatch env expired db)"

subsection \<open>New classes\<close>

definition create_class :: "class_row \<Rightarrow> adm_db \<Rightarrow> adm_db adm" where
  "create_class c db =
     (let isFirstForPair = (cls_is_active c \<and> cls_year_group_id c \<noteq> None \<and>
            length (filter (\<lambda>d. cls_academic_year_id d = cls_academic_year_id c \<and> cls_year_group_id d = cls_year_group_id c \<and>
              cls_is_active d) (adm_classes db)) = 0);
          db1 = db\<lparr>adm_classes := adm_classes db @ [c]\<rparr>
      in if cls_is_active c \<and> truthy (cls_year_group_id c)
         then (if isFirstForPair
               then Inr (snd (onYearGroupActivated db1 (cls_academic_year_id c) (the (cls_year_group_id c))))
               else map_sum id snd (onClassAdded db1 (cls_id c)))
         else Inr db1)"

end
