(* ===== verification/Admissions_Invariants.thy ===== *)
theory Admissions_Invariants
  imports Admissions_Workflow
begin

text \<open>
  The admissions pipeline as a transition system: what every operation may do to the rows of the application table,
  the invariants of the reachable tables, and the properties of the single operations that rest on them. A step relates
  the status of every row before and after (\<open>rows_step\<close>), so that composed operations (a rejection and the promotion
  pass it triggers) are composed relations.
\<close>

section \<open>Row by row\<close>

type_synonym status_rel = "application_status \<Rightarrow> application_status \<Rightarrow> bool"

definition payment_complete :: "application \<Rightarrow> bool" where
  \<comment> \<open>a row that holds a seat has an amount, a currency and a deadline\<close>
  "payment_complete a \<longleftrightarrow> app_status a \<noteq> Conditional_approval \<or>
     app_payment_amount_cents a \<noteq> None \<and> app_currency_code a \<noteq> None \<and> app_payment_deadline a \<noteq> None"

definition row_rel :: "status_rel \<Rightarrow> application \<Rightarrow> application \<Rightarrow> bool" where
  "row_rel R a b \<longleftrightarrow> app_id b = app_id a \<and> app_target_academic_year_id b = app_target_academic_year_id a \<and>
     app_target_year_group_id b = app_target_year_group_id a \<and> R (app_status a) (app_status b) \<and>
     (payment_complete a \<longrightarrow> payment_complete b)"

definition rows_step :: "status_rel \<Rightarrow> adm_db \<Rightarrow> adm_db \<Rightarrow> bool" where
  "rows_step R db db' \<longleftrightarrow> list_all2 (row_rel R) (adm_applications db) (adm_applications db') \<and>
     adm_classes db' = adm_classes db \<and> adm_enrolments db' = adm_enrolments db"

named_theorems rows_intros \<open>the row relation of the operations\<close>

lemma rows_step_mono: "rows_step R db db' \<Longrightarrow> (\<And>s s'. R s s' \<Longrightarrow> S s s') \<Longrightarrow> rows_step S db db'"
  by (auto simp: rows_step_def row_rel_def elim!: list_all2_mono)

lemma rows_step_trans:
  assumes "rows_step R db db1" "rows_step S db1 db2" shows "rows_step (R OO S) db db2"
proof -
  have "row_rel R a b \<Longrightarrow> row_rel S b c \<Longrightarrow> row_rel (R OO S) a c" for a b c by (auto simp: row_rel_def)
  then have "list_all2 (row_rel R) as bs \<Longrightarrow> list_all2 (row_rel S) bs cs \<Longrightarrow> list_all2 (row_rel (R OO S)) as cs" for as bs cs
    by (rule list_all2_trans)
  with assms show ?thesis by (auto simp: rows_step_def)
qed

lemma rows_step_map:
  assumes "\<And>a. a \<in> set (adm_applications db) \<Longrightarrow> row_rel R a (f a)" "adm_applications db' = map f (adm_applications db)"
    "adm_classes db' = adm_classes db" "adm_enrolments db' = adm_enrolments db"
  shows "rows_step R db db'"
  using assms by (auto simp: rows_step_def list_all2_map2 intro: list.rel_refl_strong)

lemma rows_step_refl [rows_intros]: "(\<And>s. R s s) \<Longrightarrow> rows_step R db db"
  by (rule rows_step_map [where f = id]) (simp_all add: row_rel_def)

lemma rows_step_same:
  assumes "adm_applications db' = adm_applications db" "adm_classes db' = adm_classes db" "adm_enrolments db' = adm_enrolments db"
    and "\<And>s. R s s"
  shows "rows_step R db db'"
  using assms by (intro rows_step_map [where f = id]) (simp_all add: row_rel_def)

lemma rows_step_ids: "rows_step R db db' \<Longrightarrow> map app_id (adm_applications db') = map app_id (adm_applications db)"
proof -
  have "list_all2 (row_rel R) xs ys \<Longrightarrow> map app_id ys = map app_id xs" for xs ys
    by (induction rule: list_all2_induct) (simp_all add: row_rel_def)
  then show "rows_step R db db' \<Longrightarrow> ?thesis" by (simp add: rows_step_def)
qed

lemma rows_step_unique: "rows_step R db db' \<Longrightarrow> ids_unique db' = ids_unique db"
  by (simp add: ids_unique_def rows_step_ids)

lemma rows_step_find:
  assumes "rows_step R db db'" "find_application db i = Some a"
  obtains b where "find_application db' i = Some b" "row_rel R a b"
proof -
  have "list_all2 (row_rel R) xs ys \<Longrightarrow> List.find (\<lambda>a. app_id a = i) xs = Some a \<Longrightarrow>
      \<exists>b. List.find (\<lambda>a. app_id a = i) ys = Some b \<and> row_rel R a b" for xs ys
    by (induction rule: list_all2_induct) (auto simp: row_rel_def split: if_splits)
  with assms that show thesis by (auto simp: rows_step_def find_application_def)
qed

lemma rows_step_count:
  assumes "rows_step R db db'" "\<And>t. R t s \<Longrightarrow> t = s"
  shows "length (with_status db' y g s) \<le> length (with_status db y g s)"
proof -
  let ?P = "\<lambda>a. targets y g a \<and> app_status a = s"
  have "list_all2 (row_rel R) xs ys \<Longrightarrow> length (filter ?P ys) \<le> length (filter ?P xs)" for xs ys
    by (induction rule: list_all2_induct) (use assms(2) in \<open>auto simp: row_rel_def targets_def\<close>)
  with assms(1) show ?thesis by (simp add: rows_step_def with_status_def)
qed

section \<open>The relations of the operations\<close>

definition pass_rel :: status_rel where
  "pass_rel s s' \<longleftrightarrow> s = s' \<or> s = Waiting_list \<and> s' = Ready_to_admit"

definition expire_rel :: status_rel where
  "expire_rel s s' \<longleftrightarrow> s = s' \<or> s = Conditional_approval \<and> s' = Waiting_list"

definition into_rel :: "application_status \<Rightarrow> status_rel" where
  "into_rel t s s' \<longleftrightarrow> s = s' \<or> t \<in> set (VALID_TRANSITIONS s) \<and> s' = t"

lemma rows_update:
  assumes "find_application db i = Some a" "ids_unique db" "row_rel R a (f a)" "\<And>s. R s s"
    "adm_applications db' = adm_applications (update_application i f db)" "adm_classes db' = adm_classes db"
    "adm_enrolments db' = adm_enrolments db"
  shows "rows_step R db db'"
proof (rule rows_step_map [where f = "\<lambda>b. if app_id b = i then f b else b"])
  fix b assume b: "b \<in> set (adm_applications db)"
  have "app_id b = i \<Longrightarrow> b = a"
    using find_application_distinct [of db b] b assms(1,2) by (auto simp: ids_unique_def)
  with assms(3,4) show "row_rel R b (if app_id b = i then f b else b)" by (auto simp: row_rel_def)
qed (use assms(5-7) in \<open>simp_all add: adm_applications_update\<close>)

lemma rows_pass [rows_intros]:
  assumes "ids_unique db" shows "rows_step pass_rel db (snd (promoteYearGroup db y g))"
  using assms service_pass.set_chosen [of _ db y g]
  by (intro rows_step_map [where f = "\<lambda>b. if b \<in> set (service_pass.chosen db y g) then b\<lparr>app_status := Ready_to_admit\<rparr> else b"])
    (auto simp: promoteYearGroup_pass service_pass.pass_applications ids_unique_def row_rel_def payment_complete_def pass_rel_def eligible_def
      pass_frames [unfolded promoteYearGroup_pass])

lemma worker_frames:
  "adm_classes (worker_pass.pass u db y g) = adm_classes db" "adm_enrolments (worker_pass.pass u db y g) = adm_enrolments db"
proof -
  have "adm_classes (fold (worker_mark u) xs db) = adm_classes db \<and> adm_enrolments (fold (worker_mark u) xs db) = adm_enrolments db" for xs
    by (induction xs arbitrary: db) (simp_all add: worker_mark_def)
  then show "adm_classes (worker_pass.pass u db y g) = adm_classes db" "adm_enrolments (worker_pass.pass u db y g) = adm_enrolments db"
    by (simp_all add: worker_pass.pass_def)
qed

lemma rows_worker_pass [rows_intros]:
  assumes "ids_unique db" shows "rows_step pass_rel db (snd (worker_promoteYearGroup db y g u))"
  using assms worker_pass.set_chosen [of _ db y g]
  by (intro rows_step_map [where f = "\<lambda>b. if b \<in> set (worker_pass.chosen db y g) then b\<lparr>app_status := Ready_to_admit\<rparr> else b"])
    (auto simp: worker_promote_pass worker_pass.pass_applications ids_unique_def row_rel_def payment_complete_def pass_rel_def eligible_def worker_frames)

lemma pass_rel_refl [simp]: "pass_rel s s" and expire_rel_refl [simp]: "expire_rel s s" and into_rel_refl [simp]: "into_rel t s s"
  by (simp_all add: pass_rel_def expire_rel_def into_rel_def)

lemma pass_rel_idem: "(pass_rel OO pass_rel) s s' \<Longrightarrow> pass_rel s s'"
  and expire_rel_idem: "(expire_rel OO expire_rel) s s' \<Longrightarrow> expire_rel s s'"
  by (auto simp: pass_rel_def expire_rel_def)

lemma rows_release:
  assumes "ids_unique db" shows "rows_step pass_rel db (release_seat b a db)"
  using assms rows_pass by (simp add: release_seat_def rows_step_refl)

section \<open>Every operation\<close>

lemma frame_enqueue [simp]:
  "rows_step R db (enqueue_job j db') \<longleftrightarrow> rows_step R db db'" "rows_step R (enqueue_job j db) db' \<longleftrightarrow> rows_step R db db'"
  by (simp_all add: rows_step_def)

definition one_row :: "string \<Rightarrow> status_rel \<Rightarrow> adm_db \<Rightarrow> adm_db \<Rightarrow> bool" where
  \<comment> \<open>the row \<open>i\<close> exists and is the only row that changes\<close>
  "one_row i R db db' \<longleftrightarrow> (\<exists>c f. find_application db i = Some c \<and> row_rel R c (f c) \<and>
     adm_applications db' = adm_applications (update_application i f db) \<and>
     adm_classes db' = adm_classes db \<and> adm_enrolments db' = adm_enrolments db)"

lemma one_rowI:
  assumes "find_application db i = Some c" "row_rel R c (f c)" "adm_applications db' = adm_applications (update_application i f db)"
    "adm_classes db' = adm_classes db" "adm_enrolments db' = adm_enrolments db"
  shows "one_row i R db db'"
  using assms unfolding one_row_def by blast

lemma one_row_frames [simp]:
  "one_row i R db (enqueue_job j db') \<longleftrightarrow> one_row i R db db'" "one_row i R db (add_note k u t act db') \<longleftrightarrow> one_row i R db db'"
  by (simp_all add: one_row_def)

lemma one_row_update:
  "find_application db i = Some c \<Longrightarrow> row_rel R c (f c) \<Longrightarrow> one_row i R db (update_application i f db)"
  by (rule one_rowI) simp_all

lemma one_row_found:
  "find_application db i \<noteq> None \<Longrightarrow> row_rel R (the (find_application db i)) (f (the (find_application db i))) \<Longrightarrow>
   one_row i R db (update_application i f db)"
  by (auto intro: one_row_update)

lemma one_row_rows: "one_row i R db db' \<Longrightarrow> ids_unique db \<Longrightarrow> (\<And>s. R s s) \<Longrightarrow> rows_step R db db'"
  by (auto simp: one_row_def intro: rows_update)

lemma rows_then_release:
  assumes "one_row i R db db1" "ids_unique db" "\<And>s. R s s" shows "rows_step (R OO pass_rel) db (release_seat b c db1)"
proof (rule rows_step_trans)
  show r: "rows_step R db db1" using assms by (rule one_row_rows)
  show "rows_step pass_rel db1 (release_seat b c db1)" using r assms(2) by (intro rows_release) (simp add: rows_step_unique)
qed

lemma conditional_one_row:
  "moveToConditionalApproval env i u db = Inr (a, db') \<Longrightarrow> one_row i (into_rel Conditional_approval) db db'"
  by (auto simp: moveToConditionalApproval_def Let_def transition_allowed_def row_rel_def payment_complete_def into_rel_def intro!: one_row_found
      split: option.splits if_splits sum.splits prod.splits)

lemma approved_one_row: "markApproved env i u src ov db = Inr (a, db') \<Longrightarrow> one_row i (into_rel Approved) db db'"
  by (auto simp: markApproved_def Let_def transition_allowed_def row_rel_def payment_complete_def into_rel_def intro!: one_row_found
      split: option.splits if_splits)

lemma manual_one_row: "manuallyPromoteToReadyToAdmit i u j db = Inr (a, db') \<Longrightarrow> one_row i (into_rel Ready_to_admit) db db'"
  by (auto simp: manuallyPromoteToReadyToAdmit_def Let_def row_rel_def payment_complete_def into_rel_def intro!: one_row_found
      split: option.splits if_splits)

lemma reject_rows:
  "reject_application env i r u db = Inr (a, db') \<Longrightarrow> ids_unique db \<Longrightarrow> rows_step (into_rel Rejected OO pass_rel) db db'"
  by (auto simp: reject_application_def Let_def transition_allowed_def row_rel_def payment_complete_def into_rel_def
      intro!: rows_then_release [of i] one_row_found split: option.splits if_splits)

lemma withdraw_rows:
  "withdraw env i u p db = Inr (a, db') \<Longrightarrow> ids_unique db \<Longrightarrow> rows_step (into_rel Withdrawn OO pass_rel) db db'"
  by (auto simp: withdraw_def Let_def transition_allowed_def row_rel_def payment_complete_def into_rel_def
      intro!: rows_then_release [of i] one_row_found split: option.splits if_splits)

lemma revert_rows:
  "revertToWaitingList i db = Inr (a, db') \<Longrightarrow> ids_unique db \<Longrightarrow> rows_step (into_rel Waiting_list OO pass_rel) db db'"
  by (auto simp: revertToWaitingList_def back_to_waiting_def Let_def transition_allowed_def row_rel_def payment_complete_def into_rel_def
      intro!: rows_then_release [of i] one_row_found split: option.splits if_splits)

lemma revertApplication_rows:
  assumes "ids_unique db" shows "rows_step expire_rel db (snd (revertApplication env i db))"
proof (cases "List.find (\<lambda>a. app_id a = i \<and> app_status a = Conditional_approval) (adm_applications db)")
  case (Some c)
  then have c: "c \<in> set (adm_applications db)" "app_id c = i" "app_status c = Conditional_approval" by (auto dest: find_Some_in)
  then have "find_application db i = Some c" using find_application_distinct [of db c] assms by (simp add: ids_unique_def)
  then have "one_row i expire_rel db (update_application i back_to_waiting db)"
    by (rule one_row_update) (simp add: row_rel_def payment_complete_def back_to_waiting_def expire_rel_def c)
  then show ?thesis
    using assms Some
    by (auto simp: revertApplication_def Let_def intro!: one_row_rows rows_step_refl split: option.splits)
qed (simp add: revertApplication_def rows_step_refl)

lemma revert_all_rows: "ids_unique db \<Longrightarrow> rows_step expire_rel db (snd (revert_all env as rs db))"
proof (induction as arbitrary: rs db)
  case (Cons a as)
  obtain o' db1 where r: "revertApplication env (app_id a) db = (o', db1)" by (cases "revertApplication env (app_id a) db")
  have step: "rows_step expire_rel db db1" using revertApplication_rows [OF Cons.prems, of env "app_id a"] r by simp
  then have "ids_unique db1" using Cons.prems by (simp add: rows_step_unique)
  then have u: "ids_unique db1" "ids_unique (enqueue_job j db1)" for j by (simp_all add: ids_unique_def)
  have next': "rows_step expire_rel db1 (snd (revert_all env as rs' (enqueue_job j db1)))"
    "rows_step expire_rel db1 (snd (revert_all env as rs' db1))" for rs' j
    using Cons.IH [OF u(1)] Cons.IH [OF u(2)] by simp_all
  have "\<exists>rs' j. snd (revert_all env (a # as) rs db) \<in>
      {snd (revert_all env as rs' (enqueue_job j db1)), snd (revert_all env as rs' db1)}"
    by (cases o'; cases "fst o'") (auto simp: r Let_def)
  then have "rows_step expire_rel db1 (snd (revert_all env (a # as) rs db))" using next' by fastforce
  from rows_step_trans [OF step this] show ?case by (rule rows_step_mono) (rule expire_rel_idem)
qed (simp add: rows_step_refl)

lemma promote_all_rows: "ids_unique db \<Longrightarrow> rows_step pass_rel db (promote_all ks db)"
proof (induction ks db rule: promote_all.induct)
  case (2 k reviewer ks db)
  obtain y g where k: "split_key k = (y, g)" by (cases "split_key k")
  show ?case
  proof (cases "y = [] \<or> g = []")
    case True
    with "2.IH"(1) [of "(y, g)"] k "2.prems" show ?thesis by simp
  next
    case False
    let ?db = "snd (worker_promoteYearGroup db y g reviewer)"
    have step: "rows_step pass_rel db ?db" by (rule rows_worker_pass [OF "2.prems"])
    then have "ids_unique ?db" using "2.prems" by (simp add: rows_step_unique)
    with "2.IH"(2) [of "(y, g)"] k False have "rows_step pass_rel ?db (promote_all ks ?db)" by simp
    from rows_step_trans [OF step this] have "rows_step pass_rel db (promote_all ks ?db)"
      by (rule rows_step_mono) (rule pass_rel_idem)
    with k False show ?thesis by simp
  qed
qed (simp add: rows_step_refl)

lemma expiry_rows: "ids_unique db \<Longrightarrow> rows_step (expire_rel OO pass_rel) db (payment_expiry_run env db)"
proof -
  assume u: "ids_unique db"
  obtain rs db1 where r: "revert_all env (findExpired env db) [] db = (rs, db1)"
    by (cases "revert_all env (findExpired env db) [] db")
  have step: "rows_step expire_rel db db1" using revert_all_rows [OF u, of env "findExpired env db" "[]"] r by simp
  then have "rows_step pass_rel db1 (promote_all rs db1)" using u by (intro promote_all_rows) (simp add: rows_step_unique)
  from rows_step_trans [OF step this] have "rows_step (expire_rel OO pass_rel) db (processTenantBatch env (findExpired env db) db)"
    by (simp add: processTenantBatch_def r)
  moreover have "rows_step (expire_rel OO pass_rel) db db" by (rule rows_step_refl) (auto simp: expire_rel_def pass_rel_def)
  ultimately show ?thesis by (simp add: payment_expiry_run_def Let_def)
qed

lemma rows_step_payment:
  "rows_step R db db' \<Longrightarrow> list_all payment_complete (adm_applications db) \<Longrightarrow> list_all payment_complete (adm_applications db')"
proof -
  have "list_all2 (row_rel R) xs ys \<Longrightarrow> list_all payment_complete xs \<Longrightarrow> list_all payment_complete ys" for xs ys
    by (induction rule: list_all2_induct) (simp_all add: row_rel_def)
  then show "rows_step R db db' \<Longrightarrow> list_all payment_complete (adm_applications db) \<Longrightarrow> ?thesis" by (auto simp: rows_step_def)
qed

definition submit_rel :: status_rel where
  "submit_rel s s' \<longleftrightarrow> s = s' \<or> s = Submitted \<and> (s' = Ready_to_admit \<or> s' = Waiting_list)"

definition with_row :: "application \<Rightarrow> adm_db \<Rightarrow> adm_db" where
  "with_row a db = db\<lparr>adm_applications := adm_applications db @ [a]\<rparr>"

definition with_class :: "class_row \<Rightarrow> adm_db \<Rightarrow> adm_db" where
  "with_class c db = db\<lparr>adm_classes := adm_classes db @ [c]\<rparr>"

lemma new_application_simps [simp]:
  "app_id (new_application env p i n) = i" "app_status (new_application env p i n) = Submitted"
  by (simp_all add: new_application_def Let_def)

lemma not_conditional: "x = Submitted \<Longrightarrow> x \<noteq> Conditional_approval"
  by simp

lemma submit_rows:
  assumes "submit env p i n db = Inr (a, db')" "find_application db i = None"
  shows "rows_step submit_rel (with_row (new_application env p i n) db) db'"
proof -
  let ?new = "new_application env p i n" and ?db = "with_row (new_application env p i n) db"
  have rows: "rows_step submit_rel ?db (update_application i (\<lambda>b. b\<lparr>app_status := st, app_substatus := sub\<rparr>) ?db)"
    if "st = Ready_to_admit \<or> st = Waiting_list" for st sub
  proof (rule rows_step_map [where f = "\<lambda>b. if app_id b = i then b\<lparr>app_status := st, app_substatus := sub\<rparr> else b"])
    fix b assume "b \<in> set (adm_applications ?db)"
    then consider "b = ?new" | "app_id b \<noteq> i" using assms(2) by (auto simp: with_row_def find_application_def find_None_iff)
    then show "row_rel submit_rel b (if app_id b = i then b\<lparr>app_status := st, app_substatus := sub\<rparr> else b)"
      using that by cases (auto simp: row_rel_def submit_rel_def payment_complete_def)
  qed (simp_all add: adm_applications_update)
  have "st = Ready_to_admit \<or> st = Waiting_list" if "route_target cap = (st, sub)" for cap st sub
    using that by (auto simp: route_target_def split: if_splits)
  with assms(1) rows show ?thesis
    by (auto simp: submit_def routeSubmittedApplication_def with_row_def Let_def split: option.splits if_splits sum.splits prod.splits)
qed

lemma create_class_rows:
  assumes "create_class c db = Inr db'" "ids_unique db"
  shows "rows_step pass_rel (with_class c db) db'"
proof -
  let ?db = "with_class c db"
  have u: "ids_unique ?db" using assms(2) by (simp add: ids_unique_def with_class_def)
  have drop: "rows_step pass_rel ?db (drop_year_setup y g ?db)" for y g
    by (rule rows_step_map [where f = "\<lambda>a. if app_status a = Waiting_list \<and> app_substatus a = Some Awaiting_year_setup \<and> targets y g a
        then a\<lparr>app_substatus := None\<rparr> else a"]) (simp_all add: drop_year_setup_def row_rel_def payment_complete_def)
  then have "ids_unique (drop_year_setup y g ?db)" for y g using u by (metis rows_step_unique)
  then have act: "rows_step pass_rel ?db (snd (onYearGroupActivated ?db y g))" for y g
    unfolding onYearGroupActivated_def
    by (intro rows_step_mono [OF rows_step_trans [OF drop rows_pass]] pass_rel_idem)
  have add: "rows_step pass_rel ?db db2" if "onClassAdded ?db k = Inr (r, db2)" for k r db2
    using that rows_pass [OF u]
    by (auto simp: onClassAdded_def rows_step_refl split: option.splits if_splits) (metis snd_conv)
  have "map_sum id snd (onClassAdded ?db k) = Inr db' \<Longrightarrow> rows_step pass_rel ?db db'" for k
    using add by (cases "onClassAdded ?db k") auto
  with assms(1) act show ?thesis
    by (auto simp: create_class_def with_class_def [symmetric] Let_def rows_step_refl split: if_splits)
qed

section \<open>The pipeline as a transition system\<close>

inductive adm_step :: "adm_db \<Rightarrow> adm_db \<Rightarrow> bool" where
  submitted: "find_application db i = None \<Longrightarrow> submit env p i n db = Inr (a, db') \<Longrightarrow> adm_step db db'"
| conditional: "moveToConditionalApproval env i u db = Inr (a, db') \<Longrightarrow> adm_step db db'"
| rejected: "reject_application env i r u db = Inr (a, db') \<Longrightarrow> adm_step db db'"
| withdrawn: "withdraw env i u parent db = Inr (a, db') \<Longrightarrow> adm_step db db'"
| promoted: "manuallyPromoteToReadyToAdmit i u j db = Inr (a, db') \<Longrightarrow> adm_step db db'"
| approved: "markApproved env i u' src ov db = Inr (a, db') \<Longrightarrow> adm_step db db'"
| reverted: "revertToWaitingList i db = Inr (a, db') \<Longrightarrow> adm_step db db'"
| expired: "adm_step db (payment_expiry_run env db)"
| class_created: "create_class c db = Inr db' \<Longrightarrow> 0 \<le> cls_max_capacity c \<Longrightarrow>
    cls_id c \<notin> enr_class_id ` set (adm_enrolments db) \<Longrightarrow> adm_step db db'"

inductive_cases adm_stepE: "adm_step db db'"

definition within_capacity :: "adm_db \<Rightarrow> bool" where
  \<comment> \<open>no year group has more enrolled students and held seats than places\<close>
  "within_capacity db \<longleftrightarrow> (\<forall>y g. enrolled_count db y g + conditional_count db y g \<le> total_capacity db y g)"

definition adm_start :: "adm_db \<Rightarrow> bool" where
  "adm_start db \<longleftrightarrow> adm_applications db = [] \<and> within_capacity db"

inductive adm_reachable :: "adm_db \<Rightarrow> bool" where
  start: "adm_start db \<Longrightarrow> adm_reachable db"
| step: "adm_reachable db \<Longrightarrow> adm_step db db' \<Longrightarrow> adm_reachable db'"

definition allowed_move :: status_rel where
  \<comment> \<open>nothing, an edge of the table, or the jump of an expired row that its own promotion pass picks up\<close>
  "allowed_move s s' \<longleftrightarrow> s = s' \<or> transition_allowed s s' \<or> s = Conditional_approval \<and> s' = Ready_to_admit"

lemma compose_allowed:
  "t \<in> {Conditional_approval, Approved, Ready_to_admit} \<Longrightarrow> into_rel t s s' \<Longrightarrow> allowed_move s s'"
  "t \<in> {Rejected, Withdrawn, Waiting_list} \<Longrightarrow> (into_rel t OO pass_rel) s s' \<Longrightarrow> allowed_move s s'"
  "(expire_rel OO pass_rel) s s' \<Longrightarrow> allowed_move s s'" "pass_rel s s' \<Longrightarrow> allowed_move s s'"
  by (cases s; auto simp: into_rel_def pass_rel_def expire_rel_def allowed_move_def transition_allowed_def)+

lemma rows_status:
  assumes "rows_step R db db'" "\<And>s s'. R s s' \<Longrightarrow> allowed_move s s'" "status_of db i = Some s"
  shows "\<exists>s'. status_of db' i = Some s' \<and> allowed_move s s'"
proof -
  obtain a where a: "find_application db i = Some a" "s = app_status a" using assms(3) by (auto simp: status_of_def)
  obtain b where "find_application db' i = Some b" "row_rel R a b" by (rule rows_step_find [OF assms(1) a(1)])
  with a(2) assms(2) show ?thesis by (auto simp: status_of_def row_rel_def)
qed

section \<open>Invariants\<close>

definition adm_inv :: "adm_db \<Rightarrow> bool" where
  "adm_inv db \<longleftrightarrow> ids_unique db \<and> list_all payment_complete (adm_applications db) \<and> within_capacity db"

lemma conditional_effect:
  assumes "moveToConditionalApproval env i u db = Inr (a, db')" "ids_unique db"
  obtains c where "find_application db i = Some c" "app_status c = Ready_to_admit" "has_target c"
    "0 < seats_available (getAvailableSeats db (target_year c) (target_group c))"
    "\<And>y g. conditional_count db' y g = conditional_count db y g + of_bool (targets y g c)"
    "adm_classes db' = adm_classes db" "adm_enrolments db' = adm_enrolments db"
proof -
  obtain c where c: "find_application db i = Some c" "transition_allowed (app_status c) Conditional_approval" "has_target c"
      "seats_available (getAvailableSeats db (target_year c) (target_group c)) \<noteq> 0"
    using assms(1) by (auto simp: moveToConditionalApproval_def split: option.splits if_splits)
  from c(2) have ready: "app_status c = Ready_to_admit"
    by (cases "app_status c") (simp_all add: transition_allowed_def)
  from find_application_SomeD [OF c(1)] have mem: "c \<in> set (adm_applications db)" "app_id c = i" by simp_all
  obtain f where f: "adm_applications db' = adm_applications (update_application i f db)"
      "app_status (f c) = Conditional_approval" "\<And>y g. targets y g (f c) = targets y g c"
    using assms(1) c by (auto simp: moveToConditionalApproval_def targets_def Let_def split: sum.splits prod.splits)
  have count: "conditional_count db' y g = conditional_count db y g + of_bool (targets y g c)" for y g
    using length_filter_update [of app_id "adm_applications db" c "\<lambda>a. targets y g a \<and> app_status a = Conditional_approval" f]
      assms(2) mem f ready by (simp add: conditional_count_def with_status_def adm_applications_update ids_unique_def)
  have "adm_classes db' = adm_classes db" "adm_enrolments db' = adm_enrolments db"
    using conditional_one_row [OF assms(1)] by (auto simp: one_row_def)
  with that c ready count show thesis by (simp add: getAvailableSeats_eq)
qed

lemma has_target_targets: "has_target c \<Longrightarrow> targets y g c \<longleftrightarrow> y = target_year c \<and> g = target_group c"
  by (auto simp: has_target_def targets_def target_year_def target_group_def elim!: truthyE)

lemma rows_within:
  assumes "rows_step R db db'" "\<And>s. R s Conditional_approval \<Longrightarrow> s = Conditional_approval" "within_capacity db"
  shows "within_capacity db'"
proof -
  have "conditional_count db' y g \<le> conditional_count db y g" for y g
    using rows_step_count [OF assms(1), of Conditional_approval y g] assms(2) by (simp add: conditional_count_def)
  moreover have "total_capacity db' y g = total_capacity db y g \<and> enrolled_count db' y g = enrolled_count db y g" for y g
    using assms(1) by (intro seats_depend) (simp_all add: rows_step_def)
  ultimately show ?thesis using assms(3) unfolding within_capacity_def by (metis add_left_mono order_trans)
qed

lemma rows_inv:
  assumes "rows_step R db db'" "\<And>s. R s Conditional_approval \<Longrightarrow> s = Conditional_approval" "adm_inv db"
  shows "adm_inv db'"
  using assms rows_within [OF assms(1,2)] rows_step_payment [OF assms(1)] rows_step_unique [OF assms(1)] by (simp add: adm_inv_def)

lemma no_new_seat:
  "t \<noteq> Conditional_approval \<Longrightarrow> into_rel t s Conditional_approval \<Longrightarrow> s = Conditional_approval"
  "t \<noteq> Conditional_approval \<Longrightarrow> (into_rel t OO pass_rel) s Conditional_approval \<Longrightarrow> s = Conditional_approval"
  "(expire_rel OO pass_rel) s Conditional_approval \<Longrightarrow> s = Conditional_approval"
  "pass_rel s Conditional_approval \<Longrightarrow> s = Conditional_approval"
  by (auto simp: into_rel_def pass_rel_def expire_rel_def)

lemma adm_inv_unique: "adm_inv db \<Longrightarrow> ids_unique db"
  by (simp add: adm_inv_def)

lemma inv_into: "rows_step (into_rel t) db db' \<Longrightarrow> t \<noteq> Conditional_approval \<Longrightarrow> adm_inv db \<Longrightarrow> adm_inv db'"
  by (erule rows_inv) (rule no_new_seat(1))

lemma inv_into_pass: "rows_step (into_rel t OO pass_rel) db db' \<Longrightarrow> t \<noteq> Conditional_approval \<Longrightarrow> adm_inv db \<Longrightarrow> adm_inv db'"
  by (erule rows_inv) (rule no_new_seat(2))

lemma inv_expire: "rows_step (expire_rel OO pass_rel) db db' \<Longrightarrow> adm_inv db \<Longrightarrow> adm_inv db'"
  by (erule rows_inv) (rule no_new_seat(3))

lemma inv_pass: "rows_step pass_rel db db' \<Longrightarrow> adm_inv db \<Longrightarrow> adm_inv db'"
  by (erule rows_inv) (rule no_new_seat(4))

lemma conditional_inv:
  assumes "moveToConditionalApproval env i u db = Inr (a, db')" "adm_inv db" shows "adm_inv db'"
proof -
  have u: "ids_unique db" using assms(2) by (simp add: adm_inv_def)
  have rows: "rows_step (into_rel Conditional_approval) db db'"
    using conditional_one_row [OF assms(1)] u by (rule one_row_rows) simp
  obtain c where c: "has_target c" "0 < seats_available (getAvailableSeats db (target_year c) (target_group c))"
    "\<And>y g. conditional_count db' y g = conditional_count db y g + of_bool (targets y g c)"
    "adm_classes db' = adm_classes db" "adm_enrolments db' = adm_enrolments db"
    by (rule conditional_effect [OF assms(1) u]) blast
  have "enrolled_count db' y g + conditional_count db' y g \<le> total_capacity db' y g" for y g
    using assms(2) c(2) seats_depend [OF c(4,5), of y g]
    by (auto simp: c(3) has_target_targets [OF c(1)] adm_inv_def within_capacity_def getAvailableSeats_eq)
  with rows u assms(2) show ?thesis
    by (auto simp: adm_inv_def within_capacity_def rows_step_unique rows_step_payment)
qed

lemma with_row_inv: "adm_inv db \<Longrightarrow> find_application db i = None \<Longrightarrow> adm_inv (with_row (new_application env p i n) db)"
proof -
  assume inv: "adm_inv db" and new: "find_application db i = None"
  let ?db = "with_row (new_application env p i n) db"
  have "conditional_count ?db y g = conditional_count db y g" for y g
    by (simp add: conditional_count_def with_status_def with_row_def)
  moreover have "total_capacity ?db y g = total_capacity db y g \<and> enrolled_count ?db y g = enrolled_count db y g" for y g
    by (rule seats_depend) (simp_all add: with_row_def)
  moreover have "ids_unique ?db"
    using inv new by (auto simp: adm_inv_def ids_unique_def with_row_def find_application_def find_None_iff)
  ultimately show ?thesis
    using inv by (simp add: adm_inv_def within_capacity_def) (simp add: with_row_def payment_complete_def)
qed

lemma with_class_inv:
  assumes "adm_inv db" "0 \<le> cls_max_capacity c" "cls_id c \<notin> enr_class_id ` set (adm_enrolments db)"
  shows "adm_inv (with_class c db)"
proof -
  let ?db = "with_class c db"
  have total: "total_capacity db y g \<le> total_capacity ?db y g" for y g
    using assms(2) by (simp add: total_capacity_def class_list_def with_class_def)
  have other: "enr_class_id e \<noteq> cls_id c" if "e \<in> set (adm_enrolments db)" for e
    using assms(3) that by (metis imageI)
  have "filter (\<lambda>e. enr_is_active e \<and> enr_class_id e \<in> set (map cls_id (class_list ?db y g))) (adm_enrolments db) =
      filter (\<lambda>e. enr_is_active e \<and> enr_class_id e \<in> set (map cls_id (class_list db y g))) (adm_enrolments db)" for y g
    by (intro filter_cong) (auto simp: class_list_def with_class_def dest: other)
  then have "enrolled_count ?db y g = enrolled_count db y g" for y g
    unfolding enrolled_count_def by (simp add: with_class_def)
  moreover have "conditional_count ?db y g = conditional_count db y g" for y g
    by (simp add: conditional_count_def with_status_def with_class_def)
  ultimately have "within_capacity ?db" using assms(1) total unfolding adm_inv_def within_capacity_def by (metis order_trans)
  with assms(1) show ?thesis by (simp add: adm_inv_def ids_unique_def) (simp add: with_class_def)
qed

lemma adm_step_inv: "adm_step db db' \<Longrightarrow> adm_inv db \<Longrightarrow> adm_inv db'"
proof (induction rule: adm_step.induct)
  case (submitted db i env p n a db')
  show ?case
  proof (rule rows_inv [OF submit_rows [OF submitted(2,1)]])
    show "adm_inv (with_row (new_application env p i n) db)" using submitted(3,1) by (rule with_row_inv)
  qed (simp add: submit_rel_def)
next
  case (conditional env i u db a db')
  then show ?case by (rule conditional_inv)
next
  case (rejected env i r u db a db')
  show ?case by (rule inv_into_pass [OF reject_rows [OF rejected(1)]]) (use rejected(2) in \<open>simp_all add: adm_inv_unique\<close>)
next
  case (withdrawn env i u parent db a db')
  show ?case by (rule inv_into_pass [OF withdraw_rows [OF withdrawn(1)]]) (use withdrawn(2) in \<open>simp_all add: adm_inv_unique\<close>)
next
  case (promoted i u j db a db')
  show ?case by (rule inv_into [OF one_row_rows [OF manual_one_row [OF promoted(1)]]]) (use promoted(2) in \<open>simp_all add: adm_inv_unique\<close>)
next
  case (approved env i u' src ov db a db')
  show ?case by (rule inv_into [OF one_row_rows [OF approved_one_row [OF approved(1)]]]) (use approved(2) in \<open>simp_all add: adm_inv_unique\<close>)
next
  case (reverted i db a db')
  show ?case by (rule inv_into_pass [OF revert_rows [OF reverted(1)]]) (use reverted(2) in \<open>simp_all add: adm_inv_unique\<close>)
next
  case (expired db env)
  show ?case using inv_expire [OF expiry_rows [OF adm_inv_unique [OF expired]] expired] .
next
  case (class_created c db db')
  show ?case
    by (rule inv_pass [OF create_class_rows [OF class_created(1)] with_class_inv])
      (use class_created in \<open>simp_all add: adm_inv_unique\<close>)
qed

lemma adm_reachable_inv: "adm_reachable db \<Longrightarrow> adm_inv db"
proof (induction rule: adm_reachable.induct)
  case (start db)
  then show ?case by (simp add: adm_start_def adm_inv_def ids_unique_def)
qed (rule adm_step_inv)

lemma adm_step_status:
  assumes "adm_step db db'" "ids_unique db" "status_of db i = Some s"
  shows "\<exists>s'. status_of db' i = Some s' \<and> allowed_move s s'"
  using assms
proof (induction rule: adm_step.induct)
  case (submitted db k env p n a db')
  obtain c where c: "find_application db i = Some c" "s = app_status c" using submitted.prems(2) by (auto simp: status_of_def)
  let ?new = "new_application env p k n"
  have old: "status_of (with_row ?new db) i = Some s"
    using c by (simp add: status_of_def find_application_def with_row_def find_some_append)
  show ?case by (rule rows_status [OF submit_rows [OF submitted(2,1)] _ old])
      (auto simp: submit_rel_def allowed_move_def transition_allowed_def)
next
  case (conditional env k u db a db')
  show ?case by (rule rows_status [OF one_row_rows [OF conditional_one_row [OF conditional(1)] conditional(2)] compose_allowed(1) conditional(3)]) simp_all
next
  case (rejected env k r u db a db')
  show ?case by (rule rows_status [OF reject_rows [OF rejected(1,2)] compose_allowed(2) rejected(3)]) simp_all
next
  case (withdrawn env k u parent db a db')
  show ?case by (rule rows_status [OF withdraw_rows [OF withdrawn(1,2)] compose_allowed(2) withdrawn(3)]) simp_all
next
  case (promoted k u j db a db')
  show ?case by (rule rows_status [OF one_row_rows [OF manual_one_row [OF promoted(1)] promoted(2)] compose_allowed(1) promoted(3)]) simp_all
next
  case (approved env k u' src ov db a db')
  show ?case by (rule rows_status [OF one_row_rows [OF approved_one_row [OF approved(1)] approved(2)] compose_allowed(1) approved(3)]) simp_all
next
  case (reverted k db a db')
  show ?case by (rule rows_status [OF revert_rows [OF reverted(1,2)] compose_allowed(2) reverted(3)]) simp_all
next
  case (expired db env)
  show ?case by (rule rows_status [OF expiry_rows [OF expired(1)] compose_allowed(3) expired(2)])
next
  case (class_created c db db')
  have "status_of (with_class c db) i = status_of db i" by (simp add: status_of_def find_application_def with_class_def)
  with class_created(5) have old: "status_of (with_class c db) i = Some s" by simp
  show ?case by (rule rows_status [OF create_class_rows [OF class_created(1,4)] compose_allowed(4) old])
qed

end
