(* ===== verification/Admissions_Properties.thy ===== *)
theory Admissions_Properties
  imports Admissions_Invariants
begin

text \<open>
  What the admissions pipeline promises: the status graph, the seats that conditional approvals hold, the outcome of the
  single operations, and two runs that show where the pipeline does not promise what a reader would expect.
\<close>

section \<open>An example run\<close>

definition example_env :: adm_env where
  "example_env = \<lparr>env_now = 1000, env_fee_structures = (\<lambda>_. [\<lparr>fee_amount = 1000, fee_billing_frequency = Term\<rparr>]),
     env_currency = Some ''EUR'', env_upfront_percentage = 50, env_payment_window_days = 7, env_admissions_enabled = True\<rparr>"

definition later_env :: adm_env where
  "later_env = example_env\<lparr>env_now := 604801001\<rparr>"

definition example_params :: submit_params where
  "example_params = \<lparr>sp_form_definition_id = ''f'', sp_first_name = ''A'', sp_last_name = ''B'', sp_date_of_birth = None,
     sp_target_academic_year_id = ''2025'', sp_target_year_group_id = ''y1'', sp_payload = ''{}'',
     sp_submitted_by_parent_id = None, sp_apply_date = None\<rparr>"

definition run0 :: adm_db where
  \<comment> \<open>one class with one place, nobody enrolled\<close>
  "run0 = \<lparr>adm_applications = [], adm_notes = [], adm_classes = [one_class], adm_enrolments = [], adm_students = [],
     adm_parents = [], adm_jobs = []\<rparr>"

definition new_tables :: "(application \<times> adm_db) adm \<Rightarrow> adm_db" where
  "new_tables r = (case r of Inl e \<Rightarrow> run0 | Inr (a, db) \<Rightarrow> db)"

definition run1 :: adm_db where "run1 = new_tables (submit example_env example_params ''a1'' ''N1'' run0)"
definition run2 :: adm_db where "run2 = new_tables (moveToConditionalApproval example_env ''a1'' ''u1'' run1)"
definition run3 :: adm_db where "run3 = new_tables (markApproved example_env ''a1'' (Some ''u1'') Cash None run2)"
definition run4 :: adm_db where "run4 = new_tables (submit example_env example_params ''a2'' ''N2'' run3)"
definition run5 :: adm_db where "run5 = new_tables (moveToConditionalApproval example_env ''a2'' ''u1'' run4)"

lemma new_tablesI: "\<not> isl r \<Longrightarrow> \<exists>a. r = Inr (a, new_tables r)"
  by (cases r) (auto simp: new_tables_def)

lemma run_start: "adm_reachable run0"
  by (rule adm_reachable.start) (auto simp: adm_start_def within_capacity_def run0_def enrolled_count_def conditional_count_def
      with_status_def total_capacity_def class_list_def one_class_def)

lemma run_ok:
  "find_application run0 ''a1'' = None" "\<not> isl (submit example_env example_params ''a1'' ''N1'' run0)"
  "\<not> isl (moveToConditionalApproval example_env ''a1'' ''u1'' run1)"
  "\<not> isl (markApproved example_env ''a1'' (Some ''u1'') Cash None run2)"
  "find_application run3 ''a2'' = None" "\<not> isl (submit example_env example_params ''a2'' ''N2'' run3)"
  "\<not> isl (moveToConditionalApproval example_env ''a2'' ''u1'' run4)"
  by code_simp+

lemma run_reachable: "adm_reachable run1" "adm_reachable run2" "adm_reachable run3" "adm_reachable run4" "adm_reachable run5"
proof -
  have "adm_step run0 run1" using new_tablesI [OF run_ok(2)] run_ok(1) adm_step.submitted unfolding run1_def by blast
  with run_start show 1: "adm_reachable run1" by (rule adm_reachable.step)
  have "adm_step run1 run2" using new_tablesI [OF run_ok(3)] adm_step.conditional unfolding run2_def by blast
  with 1 show 2: "adm_reachable run2" by (rule adm_reachable.step)
  have "adm_step run2 run3" using new_tablesI [OF run_ok(4)] adm_step.approved unfolding run3_def by blast
  with 2 show 3: "adm_reachable run3" by (rule adm_reachable.step)
  have "adm_step run3 run4" using new_tablesI [OF run_ok(6)] run_ok(5) adm_step.submitted unfolding run4_def by blast
  with 3 show 4: "adm_reachable run4" by (rule adm_reachable.step)
  have "adm_step run4 run5" using new_tablesI [OF run_ok(7)] adm_step.conditional unfolding run5_def by blast
  with 4 show "adm_reachable run5" by (rule adm_reachable.step)
qed

section \<open>The status graph\<close>



section \<open>Seats\<close>



text \<open>C17: a conditional approval takes exactly one seat: it succeeds only on an application that is ready to admit while a
  seat is free, leaves one free seat fewer in that year group and the same number in every other, and stores
  the deadline and the rounded upfront share of the annual fee.\<close>

theorem conditional_approval_takes_one_seat:
  assumes "moveToConditionalApproval env i user db = Inr (a, db')" and "ids_unique db"
  shows "\<exists>c fee currency. find_application db i = Some c \<and> app_status c = Ready_to_admit \<and>
    0 < seats_available (getAvailableSeats db (target_year c) (target_group c)) \<and>
    seats_available (getAvailableSeats db' (target_year c) (target_group c)) =
      seats_available (getAvailableSeats db (target_year c) (target_group c)) - 1 \<and>
    \<not> (\<exists>y g. (y, g) \<noteq> (target_year c, target_group c) \<and> getAvailableSeats db' y g \<noteq> getAvailableSeats db y g) \<and>
    resolveAnnualNetFeeCents env (target_group c) = Inr (fee, currency) \<and>
    a = c\<lparr>app_status := Conditional_approval,
      app_payment_amount_cents := Some (js_round (of_int fee * env_upfront_percentage env / 100)),
      app_currency_code := Some currency,
      app_payment_deadline := Some (env_now env + env_payment_window_days env * 86400000),
      app_reviewed_at := Some (env_now env), app_reviewed_by_user_id := Some user\<rparr> \<and>
    find_application db' i = Some a"
proof -
  obtain c where c: "find_application db i = Some c" "app_status c = Ready_to_admit" "has_target c"
    "0 < seats_available (getAvailableSeats db (target_year c) (target_group c))"
    "\<And>y g. conditional_count db' y g = conditional_count db y g + of_bool (targets y g c)"
    "adm_classes db' = adm_classes db" "adm_enrolments db' = adm_enrolments db"
    by (rule conditional_effect [OF assms]) blast
  obtain fee currency where fee: "resolveAnnualNetFeeCents env (target_group c) = Inr (fee, currency)"
    using assms(1) c by (auto simp: moveToConditionalApproval_def Let_def split: sum.splits if_splits)
  have row: "a = c\<lparr>app_status := Conditional_approval,
      app_payment_amount_cents := Some (js_round (of_int fee * env_upfront_percentage env / 100)),
      app_currency_code := Some currency,
      app_payment_deadline := Some (env_now env + env_payment_window_days env * 86400000),
      app_reviewed_at := Some (env_now env), app_reviewed_by_user_id := Some user\<rparr> \<and> find_application db' i = Some a"
    using assms(1) c(1,2,3) fee
    by (auto simp: moveToConditionalApproval_def Let_def updated_row_def find_application_update split: if_splits)
  have seats: "seats_available (getAvailableSeats db' (target_year c) (target_group c)) =
      seats_available (getAvailableSeats db (target_year c) (target_group c)) - 1"
    using c(4) c(5) [of "target_year c" "target_group c"] seats_depend [OF c(6,7), of "target_year c" "target_group c"]
    by (auto simp: getAvailableSeats_eq has_target_targets [OF c(3)])
  have "getAvailableSeats db' y g = getAvailableSeats db y g" if "(y, g) \<noteq> (target_year c, target_group c)" for y g
    using that c(5) [of y g] seats_depend [OF c(6,7), of y g]
    by (auto simp: getAvailableSeats_eq capacity_row_def has_target_targets [OF c(3)])
  with c(1,2,4) fee row seats show ?thesis by blast
qed

lemma conditional_approval_takes_one_seat_witness:
  "\<exists>a c fee currency. find_application run1 ''a1'' = Some c \<and> app_status c = Ready_to_admit \<and>
    0 < seats_available (getAvailableSeats run1 (target_year c) (target_group c)) \<and>
    seats_available (getAvailableSeats run2 (target_year c) (target_group c)) =
      seats_available (getAvailableSeats run1 (target_year c) (target_group c)) - 1 \<and>
    \<not> (\<exists>y g. (y, g) \<noteq> (target_year c, target_group c) \<and> getAvailableSeats run2 y g \<noteq> getAvailableSeats run1 y g) \<and>
    resolveAnnualNetFeeCents example_env (target_group c) = Inr (fee, currency) \<and>
    a = c\<lparr>app_status := Conditional_approval,
      app_payment_amount_cents := Some (js_round (of_int fee * env_upfront_percentage example_env / 100)),
      app_currency_code := Some currency,
      app_payment_deadline := Some (env_now example_env + env_payment_window_days example_env * 86400000),
      app_reviewed_at := Some (env_now example_env), app_reviewed_by_user_id := Some ''u1''\<rparr> \<and>
    find_application run2 ''a1'' = Some a"
proof -
  obtain a where a: "moveToConditionalApproval example_env ''a1'' ''u1'' run1 = Inr (a, run2)"
    using new_tablesI [OF run_ok(3)] unfolding run2_def by blast
  have "ids_unique run1" using adm_reachable_inv [OF run_reachable(1)] by (rule adm_inv_unique)
  from conditional_approval_takes_one_seat [OF a this] show ?thesis by blast
qed

text \<open>C18: the outcome of a conditional approval on every branch: it is refused, in this order, for an unknown application,
  a status that is not \<open>ready_to_admit\<close>, a missing target, a full year group, a missing fee structure or a missing
  currency, and it succeeds in every other case.\<close>

theorem conditional_approval_outcome:
  "(case moveToConditionalApproval env i user db of Inl e \<Rightarrow> Some e | Inr _ \<Rightarrow> None) =
   (case find_application db i of
      None \<Rightarrow> Some APPLICATION_NOT_FOUND
    | Some c \<Rightarrow>
        if app_status c \<noteq> Ready_to_admit then Some INVALID_STATUS_TRANSITION
        else if \<not> has_target c then Some MISSING_TARGET_YEAR_GROUP
        else if total_capacity db (target_year c) (target_group c) \<le>
          enrolled_count db (target_year c) (target_group c) + conditional_count db (target_year c) (target_group c)
        then Some CAPACITY_EXHAUSTED
        else if env_fee_structures env (target_group c) = [] then Some NO_FEE_STRUCTURE_CONFIGURED
        else if \<not> truthy (env_currency env) then Some TENANT_CURRENCY_NOT_CONFIGURED
        else None)"
proof -
  have ready: "transition_allowed s Conditional_approval \<longleftrightarrow> s = Ready_to_admit" for s
    by (cases s) (simp_all add: transition_allowed_def)
  have full: "seats_available (getAvailableSeats db y g) = 0 \<longleftrightarrow>
      total_capacity db y g \<le> enrolled_count db y g + conditional_count db y g" for y g
    by (auto simp: getAvailableSeats_eq max_def)
  show ?thesis
    unfolding moveToConditionalApproval_def ready full
    by (auto simp: resolveAnnualNetFeeCents_def Let_def split: option.splits)
qed

lemma no_substatus: "s \<noteq> Some Awaiting_year_setup \<longleftrightarrow> s = None"
proof (cases s)
  case (Some x)
  then show ?thesis by (cases x) simp
qed simp

text \<open>C20: a manual promotion never lets the queue outgrow the free seats: it succeeds only on a waiting application that is not
  awaiting year setup, and afterwards the applications ready to admit number at most the free seats of the
  year group.\<close>

theorem manual_promotion_respects_queue:
  assumes "manuallyPromoteToReadyToAdmit i user j db = Inr (a, db')" and "ids_unique db"
  shows "\<exists>c. find_application db i = Some c \<and> app_status c = Waiting_list \<and> app_substatus c = None \<and>
    10 \<le> length (js_trim j) \<and> status_of db' i = Some Ready_to_admit \<and>
    int (length (with_status db' (target_year c) (target_group c) Ready_to_admit))
      \<le> seats_available (getAvailableSeats db' (target_year c) (target_group c))"
proof -
  obtain c where c: "find_application db i = Some c" "app_status c = Waiting_list" "app_substatus c = None" "has_target c"
      "10 \<le> length (js_trim j)"
      "int (length (with_status db (target_year c) (target_group c) Ready_to_admit))
        < seats_available (getAvailableSeats db (target_year c) (target_group c))"
    and apps: "adm_applications db' = adm_applications (update_application i (\<lambda>a. a\<lparr>app_status := Ready_to_admit\<rparr>) db)"
    and frames: "adm_classes db' = adm_classes db" "adm_enrolments db' = adm_enrolments db"
    using assms(1) by (auto simp: manuallyPromoteToReadyToAdmit_def no_substatus Let_def not_less split: option.splits if_splits)
  from find_application_SomeD [OF c(1)] have mem: "c \<in> set (adm_applications db)" "app_id c = i" by simp_all
  have count: "int (length (with_status db' y g s)) = int (length (with_status db y g s)) -
      of_bool (targets y g c \<and> app_status c = s) + of_bool (targets y g c \<and> Ready_to_admit = s)" for y g s
    using length_filter_update [of app_id "adm_applications db" c "\<lambda>a. targets y g a \<and> app_status a = s" "\<lambda>a. a\<lparr>app_status := Ready_to_admit\<rparr>"]
      assms(2) mem by (simp add: with_status_def apps adm_applications_update ids_unique_def targets_def)
  have cond: "conditional_count db' y g = conditional_count db y g" for y g
    using count [of y g Conditional_approval] c(2) by (simp add: conditional_count_def)
  have status: "status_of db' i = Some Ready_to_admit"
    using c(1) apps by (simp add: status_of_def find_application_def [of db'])
      (simp add: find_application_def [symmetric] find_application_update)
  have "int (length (with_status db' (target_year c) (target_group c) Ready_to_admit))
      \<le> seats_available (getAvailableSeats db' (target_year c) (target_group c))"
    using c(2,6) count [of "target_year c" "target_group c" Ready_to_admit] seats_depend [OF frames, of "target_year c" "target_group c"]
    by (auto simp: getAvailableSeats_eq cond max_def split: if_splits)
  with c status show ?thesis by blast
qed

definition queue_db :: adm_db where
  \<comment> \<open>one free place and one waiting application\<close>
  "queue_db = run0\<lparr>adm_applications := [blank_application ''a1'' Waiting_list 1]\<rparr>"

definition queue_db' :: adm_db where
  "queue_db' = new_tables (manuallyPromoteToReadyToAdmit ''a1'' ''u1'' ''sibling at the school'' queue_db)"

lemma manual_promotion_respects_queue_witness:
  "\<exists>c. find_application queue_db ''a1'' = Some c \<and> app_status c = Waiting_list \<and> app_substatus c = None \<and>
    10 \<le> length (js_trim ''sibling at the school'') \<and> status_of queue_db' ''a1'' = Some Ready_to_admit \<and>
    int (length (with_status queue_db' (target_year c) (target_group c) Ready_to_admit))
      \<le> seats_available (getAvailableSeats queue_db' (target_year c) (target_group c))"
proof -
  have "\<not> isl (manuallyPromoteToReadyToAdmit ''a1'' ''u1'' ''sibling at the school'' queue_db)" by code_simp
  from new_tablesI [OF this] obtain a where
    "manuallyPromoteToReadyToAdmit ''a1'' ''u1'' ''sibling at the school'' queue_db = Inr (a, queue_db')"
    unfolding queue_db'_def by blast
  from manual_promotion_respects_queue [OF this] show ?thesis by (simp add: queue_db_def ids_unique_def run0_def)
qed

section \<open>Where the promises end\<close>

text \<open>C23: an approval gives its seat back before the student is enrolled: from a school with one place, two applicants can be
  taken through the pipeline so that one is approved and the other holds a seat.\<close>

theorem one_place_two_admissions:
  "\<exists>db. adm_reachable db \<and> total_capacity db ''2025'' ''y1'' = 1 \<and>
    status_of db ''a1'' = Some Approved \<and> status_of db ''a2'' = Some Conditional_approval"
proof (intro exI conjI)
  show "adm_reachable run5" by (rule run_reachable)
qed code_simp+

text \<open>C24: an application reverted for non-payment can be promoted again by its own reversal: with one place and an empty
  waiting list the operation returns a row that says \<open>waiting_list\<close>, while the table says \<open>ready_to_admit\<close>; the expiry run
  does the same.\<close>

theorem reverted_application_promotes_itself:
  "\<exists>db a db' env. adm_reachable db \<and> status_of db ''a1'' = Some Conditional_approval \<and>
    revertToWaitingList ''a1'' db = Inr (a, db') \<and> app_status a = Waiting_list \<and>
    status_of db' ''a1'' = Some Ready_to_admit \<and>
    status_of (payment_expiry_run env db) ''a1'' = Some Ready_to_admit"
proof -
  have ok: "\<not> isl (revertToWaitingList ''a1'' run2)" by code_simp
  from new_tablesI [OF this] obtain a where a: "revertToWaitingList ''a1'' run2 = Inr (a, new_tables (revertToWaitingList ''a1'' run2))"
    by blast
  have row: "app_status (fst (projr (revertToWaitingList ''a1'' run2))) = Waiting_list" by code_simp
  have "app_status (fst (projr (revertToWaitingList ''a1'' run2))) = app_status a"
    by (subst a) (simp only: sum.sel fst_conv)
  with row have "app_status a = Waiting_list" by (simp only:)
  moreover have "status_of (new_tables (revertToWaitingList ''a1'' run2)) ''a1'' = Some Ready_to_admit"
    "status_of run2 ''a1'' = Some Conditional_approval"
    "status_of (payment_expiry_run later_env run2) ''a1'' = Some Ready_to_admit"
    by code_simp+
  ultimately show ?thesis using run_reachable(2) a by blast
qed

end
