(* ===== verification/Row_Tables.thy ===== *)
theory Row_Tables
  imports Prelude_TS
begin

text \<open>
  Tables as lists of rows with a key column, as the services see them through Prisma: \<open>findFirst\<close> and \<open>findUnique\<close>
  by id, \<open>update\<close> and \<open>updateMany\<close> of the matching rows, \<open>create\<close> at the end. The lemmas say what a look-up, a filter or a
  sum over a table returns after an update.
\<close>

definition find_row :: "('r \<Rightarrow> string) \<Rightarrow> string \<Rightarrow> 'r list \<Rightarrow> 'r option" where
  "find_row key i rows = List.find (\<lambda>r. key r = i) rows"

definition update_row :: "('r \<Rightarrow> string) \<Rightarrow> string \<Rightarrow> ('r \<Rightarrow> 'r) \<Rightarrow> 'r list \<Rightarrow> 'r list" where
  "update_row key i f rows = map (\<lambda>r. if key r = i then f r else r) rows"

definition keys_unique :: "('r \<Rightarrow> string) \<Rightarrow> 'r list \<Rightarrow> bool" where
  "keys_unique key rows \<longleftrightarrow> distinct (map key rows)"

lemma find_row_SomeD: "find_row key i rows = Some r \<Longrightarrow> r \<in> set rows \<and> key r = i"
  by (auto simp: find_row_def dest: find_Some_in)

lemma find_row_Nil [simp]: "find_row key i [] = None"
  by (simp add: find_row_def)

lemma find_row_Cons: "find_row key i (r # rs) = (if key r = i then Some r else find_row key i rs)"
  by (simp add: find_row_def)

lemma find_row_append:
  "find_row key i (rs @ ss) = (case find_row key i rs of None \<Rightarrow> find_row key i ss | Some r \<Rightarrow> Some r)"
  by (induction rs) (auto simp: find_row_Cons)

lemma find_row_None_iff: "find_row key i rows = None \<longleftrightarrow> i \<notin> key ` set rows"
  by (induction rows) (auto simp: find_row_Cons)

lemma find_row_in: "keys_unique key rows \<Longrightarrow> r \<in> set rows \<Longrightarrow> find_row key (key r) rows = Some r"
  by (induction rows) (auto simp: find_row_Cons keys_unique_def)

lemma update_row_length [simp]: "length (update_row key i f rows) = length rows"
  by (simp add: update_row_def)

lemma update_row_keys: "(\<And>r. key (f r) = key r) \<Longrightarrow> map key (update_row key i f rows) = map key rows"
  by (induction rows) (auto simp: update_row_def)

lemma keys_unique_update: "(\<And>r. key (f r) = key r) \<Longrightarrow> keys_unique key (update_row key i f rows) = keys_unique key rows"
  by (simp add: keys_unique_def update_row_keys)

lemma keys_unique_snoc: "keys_unique key (rows @ [r]) \<longleftrightarrow> keys_unique key rows \<and> key r \<notin> key ` set rows"
  by (auto simp: keys_unique_def)

lemma find_row_update:
  assumes "\<And>r. key (f r) = key r"
  shows "find_row key j (update_row key i f rows) = map_option (\<lambda>r. if j = i then f r else r) (find_row key j rows)"
  using assms by (induction rows) (auto simp: find_row_Cons update_row_def)

lemma in_update_rowE:
  assumes "r \<in> set (update_row key i f rows)"
  obtains (same) "r \<in> set rows" "key r \<noteq> i"
  | (changed) s where "s \<in> set rows" "key s = i" "r = f s"
  using assms by (auto simp: update_row_def split: if_splits)

lemma update_row_absent: "i \<notin> key ` set rows \<Longrightarrow> update_row key i f rows = rows"
  by (induction rows) (auto simp: update_row_def)

lemma list_all_update_row:
  "list_all P rows \<Longrightarrow> (\<And>r. r \<in> set rows \<Longrightarrow> key r = i \<Longrightarrow> P r \<Longrightarrow> P (f r)) \<Longrightarrow> list_all P (update_row key i f rows)"
  by (auto simp: list_all_iff elim!: in_update_rowE)

lemma unique_same_row:
  "keys_unique key rows \<Longrightarrow> r \<in> set rows \<Longrightarrow> s \<in> set rows \<Longrightarrow> key r = key s \<Longrightarrow> r = s"
  by (metis find_row_in option.inject)

lemma filter_update_row:
  "(\<And>r. P (f r) = P r) \<Longrightarrow> filter P (update_row key i f rows) = update_row key i f (filter P rows)"
  by (induction rows) (auto simp: update_row_def)

lemma map_update_row_frame: "(\<And>r. g (f r) = g r) \<Longrightarrow> map g (update_row key i f rows) = map g rows"
  by (induction rows) (auto simp: update_row_def)

end
