(* ===== verification/Approvals_Requests.thy ===== *)
theory Approvals_Requests
  imports Row_Tables
begin

text \<open>
  The approval engine of \<open>apps/api/src/modules/approvals\<close> for one tenant: the request and workflow tables, the
  queues that carry the callbacks, every operation of \<open>approval-requests.service.ts\<close> and
  \<open>approval-workflows.service.ts\<close>, and the reconciliation worker \<open>callback-reconciliation.processor.ts\<close>. Operations
  that run outside a transaction can fail after they changed a row, so an operation returns an error or a result
  together with the new state. A queue accepts a job or fails with a message (\<open>enqueue_outcome\<close>).
\<close>

section \<open>Rows\<close>

datatype approval_status =
  Pending_approval | Req_approved | Req_rejected | Req_executed | Req_cancelled | Req_expired

datatype callback_status = Cb_pending | Cb_executed | Cb_failed | Cb_already_done | Cb_skipped

record approval_request =
  ar_id :: string
  ar_action_type :: string
  ar_entity_type :: string
  ar_entity_id :: string
  ar_requester :: string
  ar_approver :: "string option"
  ar_status :: approval_status
  ar_decision_comment :: "string option"
  ar_decided_at :: "int option"
  ar_executed_at :: "int option"
  ar_callback_status :: "callback_status option"
  ar_callback_error :: "string option"
  ar_callback_attempts :: int

record approval_workflow =
  aw_id :: string
  aw_action_type :: string
  aw_approver_role_id :: string
  aw_is_enabled :: bool

datatype queue_name = Notifications_queue | Finance_queue | Payroll_queue

record callback_job =
  cj_queue :: queue_name
  cj_name :: string
  cj_request_id :: string
  cj_entity_id :: string
  cj_approver :: "string option"

record ap_db =
  ap_requests :: "approval_request list"
  ap_workflows :: "approval_workflow list"
  ap_jobs :: "callback_job list"

datatype ap_error =
  APPROVAL_REQUEST_NOT_FOUND | INVALID_STATUS | SELF_APPROVAL_BLOCKED | SELF_REJECTION_BLOCKED | NOT_REQUESTER
| APPROVAL_DECISION_CONFLICT | CALLBACK_NOT_RETRYABLE | CALLBACK_NOT_STALE | NO_CALLBACK_MAPPING
| CALLBACK_ENQUEUE_FAILED | DUPLICATE_APPROVAL_REQUEST | ROLE_NOT_FOUND | WORKFLOW_EXISTS | WORKFLOW_NOT_FOUND
| WORKFLOW_HAS_PENDING_REQUESTS

type_synonym enqueue_outcome = "string option"
  \<comment> \<open>\<open>None\<close>: the queue took the job; \<open>Some message\<close>: \<open>queue.add\<close> threw\<close>

type_synonym 'a ap_result = "(ap_error + 'a) \<times> ap_db"

definition buildModeACallbacks :: "string \<Rightarrow> (queue_name \<times> string) option" where
  "buildModeACallbacks action =
     (if action = ''announcement_publish'' then Some (Notifications_queue, ''communications:on-approval'')
      else if action = ''invoice_issue'' then Some (Finance_queue, ''finance:on-approval'')
      else if action = ''payroll_finalise'' then Some (Payroll_queue, ''payroll:on-approval'')
      else None)"

abbreviation find_request :: "ap_db \<Rightarrow> string \<Rightarrow> approval_request option" where
  "find_request db i \<equiv> find_row ar_id i (ap_requests db)"

definition update_request :: "string \<Rightarrow> (approval_request \<Rightarrow> approval_request) \<Rightarrow> ap_db \<Rightarrow> ap_db" where
  "update_request i f db = db\<lparr>ap_requests := update_row ar_id i f (ap_requests db)\<rparr>"

definition add_job :: "callback_job \<Rightarrow> ap_db \<Rightarrow> ap_db" where
  "add_job j db = db\<lparr>ap_jobs := ap_jobs db @ [j]\<rparr>"

definition job_of :: "approval_request \<Rightarrow> queue_name \<times> string \<Rightarrow> string option \<Rightarrow> callback_job" where
  "job_of r = (\<lambda>(q, name) approver.
     \<lparr>cj_queue = q, cj_name = name, cj_request_id = ar_id r, cj_entity_id = ar_entity_id r, cj_approver = approver\<rparr>)"

section \<open>Decisions\<close>

record pending_decision =
  pd_status :: approval_status
  pd_approver :: "string option"
  pd_decided_at :: int
  pd_comment :: "string option"
  pd_callback :: bool

definition apply_decision :: "pending_decision \<Rightarrow> approval_request \<Rightarrow> approval_request" where
  \<comment> \<open>the columns of \<open>PendingDecisionUpdate\<close>; an absent approver or callback leaves the column alone\<close>
  "apply_decision d r =
     (let r1 = r\<lparr>ar_status := pd_status d,
                 ar_approver := (case pd_approver d of None \<Rightarrow> ar_approver r | Some u \<Rightarrow> Some u),
                 ar_decided_at := Some (pd_decided_at d), ar_decision_comment := pd_comment d\<rparr>
      in if pd_callback d
         then r1\<lparr>ar_callback_status := Some Cb_pending, ar_callback_attempts := 0, ar_callback_error := None\<rparr>
         else r1)"

definition transitionPendingRequest :: "string \<Rightarrow> pending_decision \<Rightarrow> ap_db \<Rightarrow> unit ap_result" where
  "transitionPendingRequest i d db =
     (let matches = filter (\<lambda>r. ar_id r = i \<and> ar_status r = Pending_approval) (ap_requests db)
      in if length matches > 0
         then (Inr (), update_request i (\<lambda>r. if ar_status r = Pending_approval then apply_decision d r else r) db)
         else (case find_request db i of
                 None \<Rightarrow> (Inl APPROVAL_REQUEST_NOT_FOUND, db)
               | Some latest \<Rightarrow> (Inl APPROVAL_DECISION_CONFLICT, db)))"

definition markCallbackFailure :: "string \<Rightarrow> string \<Rightarrow> ap_db \<Rightarrow> ap_db" where
  "markCallbackFailure i msg db =
     update_request i (\<lambda>r. r\<lparr>ar_callback_status := Some Cb_failed,
       ar_callback_error := Some (''Enqueue failed: '' @ msg)\<rparr>) db"

definition getRequest :: "string \<Rightarrow> ap_db \<Rightarrow> approval_request ap_result" where
  "getRequest i db =
     (case find_request db i of None \<Rightarrow> (Inl APPROVAL_REQUEST_NOT_FOUND, db) | Some r \<Rightarrow> (Inr r, db))"

definition listRequests ::
  "int \<Rightarrow> int \<Rightarrow> approval_status option \<Rightarrow> callback_status option \<Rightarrow> ap_db \<Rightarrow> approval_request list \<times> nat" where
  \<comment> \<open>newest first: rows are created at the end of the table\<close>
  "listRequests page pageSize st cb db =
     (let hits = filter (\<lambda>r. (case st of None \<Rightarrow> True | Some s \<Rightarrow> ar_status r = s) \<and>
                             (case cb of None \<Rightarrow> True | Some c \<Rightarrow> ar_callback_status r = Some c)) (rev (ap_requests db))
      in (take (nat pageSize) (drop (nat ((page - 1) * pageSize)) hits), length hits))"

definition approve_guard :: "string \<Rightarrow> approval_request \<Rightarrow> ap_error option" where
  "approve_guard approver r =
     (if ar_status r \<noteq> Pending_approval then Some INVALID_STATUS
      else if ar_requester r = approver then Some SELF_APPROVAL_BLOCKED
      else None)"

definition approve_decision :: "int \<Rightarrow> string \<Rightarrow> string option \<Rightarrow> approval_request \<Rightarrow> pending_decision" where
  "approve_decision now approver comment r =
     \<lparr>pd_status = Req_approved, pd_approver = Some approver, pd_decided_at = now, pd_comment = comment,
      pd_callback = (buildModeACallbacks (ar_action_type r) \<noteq> None)\<rparr>"

definition dispatch_callback :: "enqueue_outcome \<Rightarrow> string \<Rightarrow> approval_request \<Rightarrow> ap_db \<Rightarrow> ap_db" where
  "dispatch_callback q approver r db =
     (case buildModeACallbacks (ar_action_type r) of
        None \<Rightarrow> db
      | Some cb \<Rightarrow>
          (case q of
             None \<Rightarrow> add_job (job_of r cb (Some approver)) db
           | Some msg \<Rightarrow> markCallbackFailure (ar_id r) msg db))"

definition approve ::
  "int \<Rightarrow> enqueue_outcome \<Rightarrow> string \<Rightarrow> string \<Rightarrow> string option \<Rightarrow> ap_db \<Rightarrow> approval_request ap_result" where
  "approve now q i approver comment db =
     (case find_request db i of
        None \<Rightarrow> (Inl APPROVAL_REQUEST_NOT_FOUND, db)
      | Some request \<Rightarrow>
          (case approve_guard approver request of
             Some e \<Rightarrow> (Inl e, db)
           | None \<Rightarrow>
               (case transitionPendingRequest i (approve_decision now approver comment request) db of
                  (Inl e, db1) \<Rightarrow> (Inl e, db1)
                | (Inr _, db1) \<Rightarrow> getRequest i (dispatch_callback q approver request db1))))"

definition reject_guard :: "string \<Rightarrow> approval_request \<Rightarrow> ap_error option" where
  "reject_guard approver r =
     (if ar_status r \<noteq> Pending_approval then Some INVALID_STATUS
      else if ar_requester r = approver then Some SELF_REJECTION_BLOCKED
      else None)"

definition reject_decision :: "int \<Rightarrow> string \<Rightarrow> string option \<Rightarrow> pending_decision" where
  "reject_decision now approver comment =
     \<lparr>pd_status = Req_rejected, pd_approver = Some approver, pd_decided_at = now, pd_comment = comment, pd_callback = False\<rparr>"

definition cancel_guard :: "string \<Rightarrow> approval_request \<Rightarrow> ap_error option" where
  "cancel_guard requester r =
     (if ar_status r \<noteq> Pending_approval then Some INVALID_STATUS
      else if ar_requester r \<noteq> requester then Some NOT_REQUESTER
      else None)"

definition cancel_decision :: "int \<Rightarrow> string option \<Rightarrow> pending_decision" where
  "cancel_decision now comment =
     \<lparr>pd_status = Req_cancelled, pd_approver = None, pd_decided_at = now, pd_comment = comment, pd_callback = False\<rparr>"

definition decide ::
  "(approval_request \<Rightarrow> ap_error option) \<Rightarrow> pending_decision \<Rightarrow> string \<Rightarrow> ap_db \<Rightarrow> approval_request ap_result" where
  \<comment> \<open>the common body of \<open>reject\<close> and \<open>cancel\<close>\<close>
  "decide guard d i db =
     (case find_request db i of
        None \<Rightarrow> (Inl APPROVAL_REQUEST_NOT_FOUND, db)
      | Some request \<Rightarrow>
          (case guard request of
             Some e \<Rightarrow> (Inl e, db)
           | None \<Rightarrow>
               (case transitionPendingRequest i d db of
                  (Inl e, db1) \<Rightarrow> (Inl e, db1)
                | (Inr _, db1) \<Rightarrow> getRequest i db1)))"

definition reject_request :: "int \<Rightarrow> string \<Rightarrow> string \<Rightarrow> string option \<Rightarrow> ap_db \<Rightarrow> approval_request ap_result" where
  "reject_request now i approver comment = decide (reject_guard approver) (reject_decision now approver comment) i"

definition cancel_request :: "int \<Rightarrow> string \<Rightarrow> string \<Rightarrow> string option \<Rightarrow> ap_db \<Rightarrow> approval_request ap_result" where
  "cancel_request now i requester comment = decide (cancel_guard requester) (cancel_decision now comment) i"

section \<open>Callback retries\<close>

definition reset_callback :: "approval_request \<Rightarrow> approval_request" where
  "reset_callback r = r\<lparr>ar_callback_status := Some Cb_pending, ar_callback_attempts := 0, ar_callback_error := None\<rparr>"

definition stale_threshold_ms :: int where "stale_threshold_ms = 30 * 60 * 1000"

datatype retry_outcome = Already_executed string | Retried approval_request

definition retry_guard :: "int \<Rightarrow> approval_request \<Rightarrow> ap_error + bool" where
  \<comment> \<open>\<open>Inr True\<close>: the early return for a callback that has been executed; \<open>Inr False\<close>: go on with the retry\<close>
  "retry_guard now r =
     (if ar_status r \<noteq> Req_approved then Inl INVALID_STATUS
      else if ar_callback_status r = Some Cb_executed then Inr True
      else if ar_callback_status r \<noteq> Some Cb_failed \<and> ar_callback_status r \<noteq> Some Cb_pending then Inl CALLBACK_NOT_RETRYABLE
      else if ar_callback_status r = Some Cb_pending \<and>
              (case ar_decided_at r of None \<Rightarrow> False | Some d \<Rightarrow> now - d < stale_threshold_ms) then Inl CALLBACK_NOT_STALE
      else if buildModeACallbacks (ar_action_type r) = None then Inl NO_CALLBACK_MAPPING
      else Inr False)"

definition retryCallback :: "int \<Rightarrow> enqueue_outcome \<Rightarrow> string \<Rightarrow> ap_db \<Rightarrow> retry_outcome ap_result" where
  "retryCallback now q i db =
     (case find_request db i of
        None \<Rightarrow> (Inl APPROVAL_REQUEST_NOT_FOUND, db)
      | Some request \<Rightarrow>
          (case retry_guard now request of
             Inl e \<Rightarrow> (Inl e, db)
           | Inr True \<Rightarrow> (Inr (Already_executed i), db)
           | Inr False \<Rightarrow>
               let db1 = update_request i reset_callback db;
                   mapping = the (buildModeACallbacks (ar_action_type request))
               in (case q of
                     None \<Rightarrow>
                       (case getRequest i (add_job (job_of request mapping (ar_approver request)) db1) of
                          (Inl e, db2) \<Rightarrow> (Inl e, db2) | (Inr r, db2) \<Rightarrow> (Inr (Retried r), db2))
                   | Some msg \<Rightarrow>
                       (Inl CALLBACK_ENQUEUE_FAILED,
                        update_request i (\<lambda>r. r\<lparr>ar_callback_status := Some Cb_failed,
                          ar_callback_error := Some (''Manual retry enqueue failed: '' @ msg)\<rparr>) db1))))"

definition decided_key :: "approval_request \<Rightarrow> int" where
  "decided_key r = (case ar_decided_at r of None \<Rightarrow> 0 | Some d \<Rightarrow> d)"

definition stuck_requests :: "int \<Rightarrow> callback_status list \<Rightarrow> ap_db \<Rightarrow> approval_request list" where
  \<comment> \<open>approved, callback in the list, decided more than thirty minutes ago; oldest decision first\<close>
  "stuck_requests now filters db =
     sort_key decided_key
       (filter (\<lambda>r. ar_status r = Req_approved \<and>
          (case ar_callback_status r of None \<Rightarrow> False | Some c \<Rightarrow> c \<in> set filters) \<and>
          (case ar_decided_at r of None \<Rightarrow> False | Some d \<Rightarrow> d < now - stale_threshold_ms)) (ap_requests db))"

fun bulk_retry_all :: "(string \<Rightarrow> enqueue_outcome) \<Rightarrow> approval_request list \<Rightarrow> nat \<times> nat \<Rightarrow> ap_db \<Rightarrow> (nat \<times> nat) \<times> ap_db" where
  \<comment> \<open>the loop of the bulk retry; the first argument is what the queue does with each request's job\<close>
  "bulk_retry_all q [] counts db = (counts, db)"
| "bulk_retry_all q (r # rs) (retried, skipped) db =
     (case buildModeACallbacks (ar_action_type r) of
        None \<Rightarrow> bulk_retry_all q rs (retried, skipped + 1) db
      | Some mapping \<Rightarrow>
          let db1 = update_request (ar_id r) reset_callback db
          in (case q (ar_id r) of
                None \<Rightarrow> bulk_retry_all q rs (retried + 1, skipped) (add_job (job_of r mapping (ar_approver r)) db1)
              | Some msg \<Rightarrow>
                  bulk_retry_all q rs (retried, skipped + 1)
                    (update_request (ar_id r) (\<lambda>r. r\<lparr>ar_callback_status := Some Cb_failed,
                       ar_callback_error := Some (''Bulk retry enqueue failed: '' @ msg)\<rparr>) db1)))"

definition bulkRetryCallbacks ::
  "int \<Rightarrow> (string \<Rightarrow> enqueue_outcome) \<Rightarrow> callback_status option \<Rightarrow> nat \<Rightarrow> ap_db \<Rightarrow> (nat \<times> nat) \<times> ap_db" where
  "bulkRetryCallbacks now q statusFilter maxCount db =
     (let filters = (case statusFilter of None \<Rightarrow> [Cb_failed, Cb_pending] | Some s \<Rightarrow> [s])
      in bulk_retry_all q (take maxCount (stuck_requests now filters db)) (0, 0) db)"

record callback_health =
  ch_pending :: nat
  ch_failed :: nat
  ch_executed :: nat
  ch_total :: nat

definition count_approved :: "(approval_request \<Rightarrow> bool) \<Rightarrow> ap_db \<Rightarrow> nat" where
  "count_approved P db = length (filter (\<lambda>r. ar_status r = Req_approved \<and> P r) (ap_requests db))"

definition getCallbackHealth :: "ap_db \<Rightarrow> callback_health" where
  "getCallbackHealth db =
     \<lparr>ch_pending = count_approved (\<lambda>r. ar_callback_status r = Some Cb_pending) db,
      ch_failed = count_approved (\<lambda>r. ar_callback_status r = Some Cb_failed) db,
      ch_executed = count_approved (\<lambda>r. ar_callback_status r = Some Cb_executed) db,
      ch_total = count_approved (\<lambda>r. ar_callback_status r \<noteq> None) db\<rparr>"

section \<open>Requests\<close>

datatype approval_check = Auto_approved | Approval_needed string

definition open_request :: "string \<Rightarrow> string \<Rightarrow> string \<Rightarrow> approval_request \<Rightarrow> bool" where
  "open_request action etype eid r \<longleftrightarrow>
     ar_entity_type r = etype \<and> ar_entity_id r = eid \<and> ar_action_type r = action \<and> ar_status r = Pending_approval"

definition new_request :: "string \<Rightarrow> string \<Rightarrow> string \<Rightarrow> string \<Rightarrow> string \<Rightarrow> approval_request" where
  "new_request i action etype eid requester =
     \<lparr>ar_id = i, ar_action_type = action, ar_entity_type = etype, ar_entity_id = eid, ar_requester = requester,
      ar_approver = None, ar_status = Pending_approval, ar_decision_comment = None, ar_decided_at = None,
      ar_executed_at = None, ar_callback_status = None, ar_callback_error = None, ar_callback_attempts = 0\<rparr>"

definition checkAndCreateIfNeeded ::
  "string \<Rightarrow> string \<Rightarrow> string \<Rightarrow> string \<Rightarrow> string \<Rightarrow> bool \<Rightarrow> ap_db \<Rightarrow> approval_check ap_result" where
  \<comment> \<open>the first argument is the id that the database gives to a new request\<close>
  "checkAndCreateIfNeeded i action etype eid requester hasDirectAuthority db =
     (if filter (\<lambda>w. aw_action_type w = action \<and> aw_is_enabled w) (ap_workflows db) = [] then (Inr Auto_approved, db)
      else if hasDirectAuthority then (Inr Auto_approved, db)
      else if filter (open_request action etype eid) (ap_requests db) \<noteq> [] then (Inl DUPLICATE_APPROVAL_REQUEST, db)
      else (Inr (Approval_needed i),
            db\<lparr>ap_requests := ap_requests db @ [new_request i action etype eid requester]\<rparr>))"

section \<open>Workflows\<close>

definition createWorkflow ::
  "string list \<Rightarrow> string \<Rightarrow> string \<Rightarrow> string \<Rightarrow> bool \<Rightarrow> ap_db \<Rightarrow> approval_workflow ap_result" where
  \<comment> \<open>the first argument holds the ids of the tenant's roles\<close>
  "createWorkflow roles i action role enabled db =
     (if role \<notin> set roles then (Inl ROLE_NOT_FOUND, db)
      else if filter (\<lambda>w. aw_action_type w = action) (ap_workflows db) \<noteq> [] then (Inl WORKFLOW_EXISTS, db)
      else let w = \<lparr>aw_id = i, aw_action_type = action, aw_approver_role_id = role, aw_is_enabled = enabled\<rparr>
           in (Inr w, db\<lparr>ap_workflows := ap_workflows db @ [w]\<rparr>))"

definition updateWorkflow ::
  "string list \<Rightarrow> string \<Rightarrow> string option \<Rightarrow> bool option \<Rightarrow> ap_db \<Rightarrow> approval_workflow ap_result" where
  "updateWorkflow roles i role enabled db =
     (case find_row aw_id i (ap_workflows db) of
        None \<Rightarrow> (Inl WORKFLOW_NOT_FOUND, db)
      | Some w \<Rightarrow>
          if truthy role \<and> the role \<notin> set roles then (Inl ROLE_NOT_FOUND, db)
          else
            let f = (\<lambda>w. w\<lparr>aw_approver_role_id := (case role of None \<Rightarrow> aw_approver_role_id w | Some r \<Rightarrow> r),
                           aw_is_enabled := (case enabled of None \<Rightarrow> aw_is_enabled w | Some b \<Rightarrow> b)\<rparr>)
            in (Inr (f w), db\<lparr>ap_workflows := update_row aw_id i f (ap_workflows db)\<rparr>))"

definition deleteWorkflow :: "string \<Rightarrow> ap_db \<Rightarrow> unit ap_result" where
  "deleteWorkflow i db =
     (case find_row aw_id i (ap_workflows db) of
        None \<Rightarrow> (Inl WORKFLOW_NOT_FOUND, db)
      | Some w \<Rightarrow>
          let pendingCount = length (filter (\<lambda>r. ar_action_type r = aw_action_type w \<and> ar_status r = Pending_approval)
                               (ap_requests db))
          in if pendingCount > 0 then (Inl WORKFLOW_HAS_PENDING_REQUESTS, db)
             else (Inr (), db\<lparr>ap_workflows := filter (\<lambda>v. aw_id v \<noteq> i) (ap_workflows db)\<rparr>))"

section \<open>The reconciliation worker\<close>

definition MAX_CALLBACK_ATTEMPTS :: int where "MAX_CALLBACK_ATTEMPTS = 5"

definition reconcilable :: "int \<Rightarrow> ap_db \<Rightarrow> approval_request list" where
  "reconcilable now db =
     take 100 (filter (\<lambda>r. ar_callback_attempts r < MAX_CALLBACK_ATTEMPTS) (stuck_requests now [Cb_pending, Cb_failed] db))"

definition exhaust_callback :: "int \<Rightarrow> approval_request \<Rightarrow> approval_request" where
  "exhaust_callback n r =
     r\<lparr>ar_callback_status := Some Cb_failed, ar_callback_error := Some ''Reconciliation exhausted after 5 attempts'',
       ar_callback_attempts := n\<rparr>"

definition requeued_callback :: "int \<Rightarrow> approval_request \<Rightarrow> approval_request" where
  "requeued_callback n r = r\<lparr>ar_callback_status := Some Cb_pending, ar_callback_attempts := n, ar_callback_error := None\<rparr>"

definition requeue_failed :: "int \<Rightarrow> string \<Rightarrow> approval_request \<Rightarrow> approval_request" where
  "requeue_failed n msg r =
     r\<lparr>ar_callback_status := Some Cb_failed, ar_callback_error := Some (''Reconciliation enqueue failed: '' @ msg),
       ar_callback_attempts := n\<rparr>"

definition reconcile_one :: "enqueue_outcome \<Rightarrow> approval_request \<Rightarrow> ap_db \<Rightarrow> ap_db" where
  "reconcile_one q request db =
     (case buildModeACallbacks (ar_action_type request) of
        None \<Rightarrow> db
      | Some mapping \<Rightarrow>
          let newAttemptCount = ar_callback_attempts request + 1
          in if newAttemptCount \<ge> MAX_CALLBACK_ATTEMPTS
             then update_request (ar_id request) (exhaust_callback newAttemptCount) db
             else (case q of
                     None \<Rightarrow> update_request (ar_id request) (requeued_callback newAttemptCount)
                               (add_job (job_of request mapping (ar_approver request)) db)
                   | Some msg \<Rightarrow> update_request (ar_id request) (requeue_failed newAttemptCount msg) db))"

fun reconcile_all :: "(string \<Rightarrow> enqueue_outcome) \<Rightarrow> approval_request list \<Rightarrow> ap_db \<Rightarrow> ap_db" where
  "reconcile_all q [] db = db"
| "reconcile_all q (r # rs) db = reconcile_all q rs (reconcile_one (q (ar_id r)) r db)"

definition reconciliation_run :: "int \<Rightarrow> (string \<Rightarrow> enqueue_outcome) \<Rightarrow> ap_db \<Rightarrow> ap_db" where
  "reconciliation_run now q db = reconcile_all q (reconcilable now db) db"

end
