(* ===== verification/Finance_Types.thy ===== *)
theory Finance_Types
  imports Approvals_Requests
begin

text \<open>
  The rows of the finance module (\<open>apps/api/src/modules/finance\<close>) for one tenant, money, document numbers and the
  invoice and payment state tables. Amounts are exact rationals in place of doubles; \<open>roundMoney\<close> is the code's
  rounding to cents, and \<open>numeric2\<close> what the database does to a value written to a \<open>Decimal(_, 2)\<close> column. Times are
  milliseconds since 1970. The approval tables of \<open>Approvals_Requests\<close> are part of the state.
\<close>

section \<open>Money\<close>

definition roundMoney :: "rat \<Rightarrow> rat" where
  "roundMoney v = of_int (js_round (v * 100)) / 100"

definition numeric2 :: "rat \<Rightarrow> rat" where
  \<comment> \<open>rounding of a \<open>Decimal(_, 2)\<close> column: half away from zero\<close>
  "numeric2 v = (if v \<ge> 0 then roundMoney v else - roundMoney (- v))"

definition cents :: "int \<Rightarrow> rat" where "cents n = of_int n / 100"

definition is_money :: "rat \<Rightarrow> bool" where "is_money v \<longleftrightarrow> roundMoney v = v"

lemma is_money_cents [simp]: "is_money (cents n)"
  by (simp add: is_money_def cents_def roundMoney_def)

lemma roundMoney_cents: "\<exists>n. roundMoney v = cents n"
  by (auto simp: roundMoney_def cents_def)

lemma is_money_iff: "is_money v \<longleftrightarrow> (\<exists>n. v = cents n)"
  by (metis is_money_cents is_money_def roundMoney_cents)

lemma is_money_roundMoney [simp]: "is_money (roundMoney v)"
  using is_money_iff roundMoney_cents by blast

lemma cents_simps [simp]:
  "cents a + cents b = cents (a + b)" "cents a - cents b = cents (a - b)" "- cents a = cents (- a)"
  "cents a \<le> cents b \<longleftrightarrow> a \<le> b" "cents a < cents b \<longleftrightarrow> a < b" "cents a = cents b \<longleftrightarrow> a = b"
  "cents 0 = 0" "min (cents a) (cents b) = cents (min a b)" "\<bar>cents a\<bar> = cents \<bar>a\<bar>"
  by (auto simp: cents_def add_divide_distrib diff_divide_distrib divide_le_cancel divide_less_cancel min_def abs_if)

lemma is_moneyE: assumes "is_money v" obtains n where "v = cents n"
  using assms is_money_iff by blast

lemma is_money_0 [simp]: "is_money 0"
  using is_money_cents [of 0] by simp

lemma is_money_arith [intro]:
  assumes "is_money v" "is_money w"
  shows "is_money (v + w)" "is_money (v - w)" "is_money (min v w)"
  using assms by (auto simp: is_money_iff)

lemma roundMoney_id [simp]: "is_money v \<Longrightarrow> roundMoney v = v"
  by (simp add: is_money_def)

lemma roundMoney_neg_cents: "roundMoney (cents n) = cents n"
  by simp

lemma numeric2_id [simp]: "is_money v \<Longrightarrow> numeric2 v = v"
  by (auto elim!: is_moneyE simp: numeric2_def)

lemma is_money_numeric2 [simp]: "is_money (numeric2 v)"
proof (cases "v \<ge> 0")
  case False
  obtain n where "roundMoney (- v) = cents n" using roundMoney_cents by blast
  with False have "numeric2 v = cents (- n)" by (simp add: numeric2_def del: cents_simps(3) flip: cents_simps(3))
  then show ?thesis by simp
qed (simp add: numeric2_def)

lemma is_money_sum_list: "list_all (\<lambda>r. is_money (f r)) rs \<Longrightarrow> is_money (sum_list (map f rs))"
  by (induction rs) auto

lemma foldl_plus: "foldl (\<lambda>s r. s + f r) (a :: rat) rs = a + sum_list (map f rs)"
  by (induction rs arbitrary: a) simp_all

section \<open>Statuses\<close>

datatype invoice_status =
  Draft | Inv_pending_approval | Issued | Partially_paid | Paid | Overdue | Void | Cancelled | Written_off

datatype payment_status = Pay_pending | Posted | Pay_failed | Voided | Refunded_partial | Refunded_full

datatype refund_status = Ref_pending_approval | Ref_approved | Ref_executed | Ref_failed | Ref_rejected

datatype installment_status = Ins_pending | Ins_paid | Ins_overdue

datatype payment_method = Stripe_method | Cash_method | Bank_transfer_method | Card_manual

fun VALID_INVOICE_TRANSITIONS :: "invoice_status \<Rightarrow> invoice_status list" where
  "VALID_INVOICE_TRANSITIONS Draft = [Inv_pending_approval, Issued, Cancelled]"
| "VALID_INVOICE_TRANSITIONS Inv_pending_approval = [Issued, Cancelled]"
| "VALID_INVOICE_TRANSITIONS Issued = [Partially_paid, Paid, Overdue, Void, Written_off]"
| "VALID_INVOICE_TRANSITIONS Partially_paid = [Paid, Written_off]"
| "VALID_INVOICE_TRANSITIONS Overdue = [Partially_paid, Paid, Void, Written_off]"
| "VALID_INVOICE_TRANSITIONS Paid = []"
| "VALID_INVOICE_TRANSITIONS Void = []"
| "VALID_INVOICE_TRANSITIONS Cancelled = []"
| "VALID_INVOICE_TRANSITIONS Written_off = []"

definition TERMINAL_INVOICE_STATUSES :: "invoice_status list" where
  "TERMINAL_INVOICE_STATUSES = [Paid, Void, Cancelled, Written_off]"

definition PAYABLE_INVOICE_STATUSES :: "invoice_status list" where
  "PAYABLE_INVOICE_STATUSES = [Issued, Partially_paid, Overdue]"

fun invoice_status_name :: "invoice_status \<Rightarrow> string" where
  "invoice_status_name Draft = ''draft''"
| "invoice_status_name Inv_pending_approval = ''pending_approval''"
| "invoice_status_name Issued = ''issued''"
| "invoice_status_name Partially_paid = ''partially_paid''"
| "invoice_status_name Paid = ''paid''"
| "invoice_status_name Overdue = ''overdue''"
| "invoice_status_name Void = ''void''"
| "invoice_status_name Cancelled = ''cancelled''"
| "invoice_status_name Written_off = ''written_off''"

definition quoted :: "string \<Rightarrow> string" where
  "quoted s = [CHR 0x22] @ s @ [CHR 0x22]"

definition isValidInvoiceTransition :: "invoice_status \<Rightarrow> invoice_status \<Rightarrow> bool" where
  "isValidInvoiceTransition s t \<longleftrightarrow> t \<in> set (VALID_INVOICE_TRANSITIONS s)"

definition isPayableStatus :: "invoice_status \<Rightarrow> bool" where
  "isPayableStatus s \<longleftrightarrow> s \<in> set PAYABLE_INVOICE_STATUSES"

definition deriveInvoiceStatus :: "int \<Rightarrow> invoice_status \<Rightarrow> rat \<Rightarrow> rat \<Rightarrow> int \<Rightarrow> rat option \<Rightarrow> invoice_status" where
  \<comment> \<open>the first argument is the clock\<close>
  "deriveInvoiceStatus now current balance totalAmount due writeOff =
     (if current \<in> {Void, Cancelled, Inv_pending_approval} then current
      else if (case writeOff of None \<Rightarrow> False | Some w \<Rightarrow> w > 0) \<and> \<bar>balance\<bar> < 5 / 1000 then Written_off
      else if \<bar>balance\<bar> < 5 / 1000 then Paid
      else if balance > 5 / 1000 \<and> \<bar>balance - totalAmount\<bar> > 5 / 1000 then Partially_paid
      else if \<bar>balance - totalAmount\<bar> < 5 / 1000 \<and> due < now then Overdue
      else Issued)"

section \<open>Rows\<close>

record invoice =
  inv_id :: string
  inv_household_id :: string
  inv_number :: string
  inv_status :: invoice_status
  inv_issue_date :: "int option"
  inv_due_date :: int
  inv_subtotal :: rat
  inv_discount :: rat
  inv_total :: rat
  inv_balance :: rat
  inv_currency :: string
  inv_write_off_amount :: "rat option"
  inv_write_off_reason :: "string option"
  inv_last_overdue_notified_at :: "int option"
  inv_approval_request_id :: "string option"
  inv_created_by :: string
  inv_updated_at :: int

record invoice_line =
  il_invoice_id :: string
  il_description :: string
  il_quantity :: rat
  il_unit_amount :: rat
  il_line_total :: rat
  il_student_id :: "string option"
  il_fee_structure_id :: "string option"

record installment =
  ins_invoice_id :: string
  ins_due_date :: int
  ins_amount :: rat
  ins_status :: installment_status

record payment =
  pay_id :: string
  pay_household_id :: string
  pay_reference :: string
  pay_method :: payment_method
  pay_external_event_id :: "string option"
  pay_amount :: rat
  pay_currency :: string
  pay_status :: payment_status
  pay_received_at :: int
  pay_posted_by :: "string option"
  pay_reason :: "string option"

record allocation =
  al_id :: nat
  al_payment_id :: string
  al_invoice_id :: string
  al_amount :: rat

record receipt =
  rc_payment_id :: string
  rc_number :: string
  rc_locale :: string
  rc_issued_at :: int
  rc_issued_by :: "string option"

record refund =
  rf_id :: string
  rf_payment_id :: string
  rf_reference :: string
  rf_amount :: rat
  rf_status :: refund_status
  rf_reason :: string
  rf_requested_by :: string
  rf_approved_by :: "string option"
  rf_failure_reason :: "string option"
  rf_executed_at :: "int option"

record credit_note =
  cn_id :: string
  cn_household_id :: string
  cn_number :: string
  cn_amount :: rat
  cn_remaining :: rat
  cn_reason :: string
  cn_issued_by :: string

record credit_application =
  ca_credit_note_id :: string
  ca_invoice_id :: string
  ca_amount :: rat
  ca_applied_by :: string

datatype late_fee_type = Fixed_fee | Percent_fee

record late_fee_config =
  lf_id :: string
  lf_name :: string
  lf_type :: late_fee_type
  lf_value :: rat
  lf_grace_period_days :: int
  lf_max_applications :: int
  lf_frequency_days :: "int option"
  lf_active :: bool

record late_fee_application =
  la_invoice_id :: string
  la_config_id :: string
  la_amount :: rat
  la_applied_at :: int

record fin_db =
  fin_invoices :: "invoice list"
  fin_lines :: "invoice_line list"
  fin_installments :: "installment list"
  fin_payments :: "payment list"
  fin_allocations :: "allocation list"
  fin_next_allocation :: nat
  fin_receipts :: "receipt list"
  fin_refunds :: "refund list"
  fin_credit_notes :: "credit_note list"
  fin_credit_applications :: "credit_application list"
  fin_late_fee_configs :: "late_fee_config list"
  fin_late_fees :: "late_fee_application list"
  fin_sequences :: "(string \<times> int) list"
  fin_approvals :: ap_db

record fin_env =
  fe_now :: int
  fe_households :: "string list"
  fe_currency :: string
  fe_invoice_prefix :: "string option"
  fe_receipt_prefix :: "string option"
  fe_require_approval :: bool
  fe_finance_enabled :: bool

datatype fin_error =
  INVOICE_NOT_FOUND | HOUSEHOLD_NOT_FOUND | INVALID_INVOICE_TRANSITION | CONCURRENT_MODIFICATION | PAYMENTS_EXIST
| INSTALLMENT_SUM_MISMATCH | PAYMENT_NOT_FOUND | INVALID_PAYMENT_STATUS | ALLOCATION_EXCEEDS_PAYMENT
| HOUSEHOLD_MISMATCH | ALLOCATION_EXCEEDS_BALANCE | REFUND_NOT_FOUND | REFUND_EXCEEDS_AVAILABLE
| INVOICE_VOID_OR_WRITTEN_OFF | SELF_REFUND_APPROVAL_BLOCKED | INVALID_REFUND_STATUS | STRIPE_REFUND_FAILED
| CREDIT_NOTE_NOT_FOUND | INSUFFICIENT_CREDIT_BALANCE | INVALID_INVOICE_STATUS | INVOICE_ALREADY_PAID
| LATE_FEE_CONFIG_NOT_FOUND | WITHIN_GRACE_PERIOD | MAX_LATE_FEE_APPLICATIONS_REACHED | TOO_SOON_FOR_NEXT_APPLICATION
| Approval_error ap_error | JOB_FAILED

type_synonym 'a fin = "fin_error + 'a"

abbreviation find_invoice :: "fin_db \<Rightarrow> string \<Rightarrow> invoice option" where
  "find_invoice db i \<equiv> find_row inv_id i (fin_invoices db)"

definition update_invoice :: "fin_env \<Rightarrow> string \<Rightarrow> (invoice \<Rightarrow> invoice) \<Rightarrow> fin_db \<Rightarrow> fin_db" where
  \<comment> \<open>\<open>updated_at\<close> is maintained by every update\<close>
  "update_invoice env i f db =
     db\<lparr>fin_invoices := update_row inv_id i (\<lambda>v. (f v)\<lparr>inv_updated_at := fe_now env\<rparr>) (fin_invoices db)\<rparr>"

definition date_of :: "int \<Rightarrow> int" where
  \<comment> \<open>a time written to a \<open>Date\<close> column\<close>
  "date_of t = (t div 86400000) * 86400000"

section \<open>Document numbers\<close>

definition pad_start :: "nat \<Rightarrow> string \<Rightarrow> string" where
  "pad_start n s = replicate (n - length s) (CHR ''0'') @ s"

definition formatNumber :: "int \<Rightarrow> string \<Rightarrow> string" where
  \<comment> \<open>every caller of the finance module passes a prefix\<close>
  "formatNumber value prefix = prefix @ ''-'' @ pad_start 6 (int_str value)"

definition nextNumber :: "string \<Rightarrow> string \<Rightarrow> fin_db \<Rightarrow> string \<times> fin_db" where
  "nextNumber sequenceType prefix db =
     (let newValue = map_get (fin_sequences db) sequenceType 0 + 1
      in (formatNumber newValue prefix, db\<lparr>fin_sequences := AList.update sequenceType newValue (fin_sequences db)\<rparr>))"

end
