(* ===== verification/Finance_Invoices.thy ===== *)
theory Finance_Invoices
  imports Finance_Types
begin

text \<open>
  Invoices: the operations of \<open>invoices.service.ts\<close>, the approval callback job \<open>invoice-approval-callback.processor.ts\<close>,
  the overdue job \<open>overdue-detection.processor.ts\<close>, credit notes (\<open>credit-notes.service.ts\<close>) and late fees
  (\<open>late-fees.service.ts\<close>). Every operation runs alone; an error leaves the tables as they were.
\<close>

section \<open>Drafts\<close>

record line_dto =
  ld_description :: string
  ld_quantity :: rat
  ld_unit_amount :: rat
  ld_student_id :: "string option"
  ld_fee_structure_id :: "string option"

definition line_total :: "line_dto \<Rightarrow> rat" where
  "line_total l = roundMoney (ld_quantity l * ld_unit_amount l)"

definition line_of :: "string \<Rightarrow> line_dto \<Rightarrow> invoice_line" where
  "line_of i l =
     \<lparr>il_invoice_id = i, il_description = ld_description l, il_quantity = numeric2 (ld_quantity l),
      il_unit_amount = numeric2 (ld_unit_amount l), il_line_total = line_total l, il_student_id = ld_student_id l,
      il_fee_structure_id = ld_fee_structure_id l\<rparr>"

definition lines_total :: "line_dto list \<Rightarrow> rat" where
  "lines_total ls = roundMoney (foldl (\<lambda>subtotal l. subtotal + line_total l) 0 ls)"

definition create_invoice ::
  "fin_env \<Rightarrow> string \<Rightarrow> string \<Rightarrow> string \<Rightarrow> int \<Rightarrow> line_dto list \<Rightarrow> fin_db \<Rightarrow> (invoice \<times> fin_db) fin" where
  \<comment> \<open>id of the new row, user, household, due date, lines\<close>
  "create_invoice env i user household due ls db =
     (if household \<notin> set (fe_households env) then Inl HOUSEHOLD_NOT_FOUND
      else
        let (number, db1) = nextNumber ''invoice'' (case fe_invoice_prefix env of None \<Rightarrow> ''INV'' | Some p \<Rightarrow> p) db;
            totalAmount = lines_total ls;
            v = \<lparr>inv_id = i, inv_household_id = household, inv_number = number, inv_status = Draft, inv_issue_date = None,
                 inv_due_date = due, inv_subtotal = totalAmount, inv_discount = 0, inv_total = totalAmount,
                 inv_balance = totalAmount, inv_currency = fe_currency env, inv_write_off_amount = None,
                 inv_write_off_reason = None, inv_last_overdue_notified_at = None, inv_approval_request_id = None,
                 inv_created_by = user, inv_updated_at = fe_now env\<rparr>
        in Inr (v, db1\<lparr>fin_invoices := fin_invoices db1 @ [v], fin_lines := fin_lines db1 @ map (line_of i) ls\<rparr>))"

definition update_draft ::
  "fin_env \<Rightarrow> string \<Rightarrow> line_dto list option \<Rightarrow> int option \<Rightarrow> int option \<Rightarrow> fin_db \<Rightarrow> fin_db fin" where
  \<comment> \<open>lines, due date, expected \<open>updated_at\<close>\<close>
  "update_draft env i ls due expected db =
     (case find_invoice db i of
        None \<Rightarrow> Inl INVOICE_NOT_FOUND
      | Some existing \<Rightarrow>
          if inv_status existing \<noteq> Draft then Inl INVALID_INVOICE_TRANSITION
          else if (case expected of None \<Rightarrow> False | Some t \<Rightarrow> \<bar>t - inv_updated_at existing\<bar> > 1000)
          then Inl CONCURRENT_MODIFICATION
          else Inr
            (case ls of
               Some ls \<Rightarrow>
                 update_invoice env i (\<lambda>v. v\<lparr>inv_subtotal := lines_total ls, inv_total := lines_total ls,
                     inv_balance := lines_total ls,
                     inv_due_date := (case due of None \<Rightarrow> inv_due_date v | Some d \<Rightarrow> d)\<rparr>)
                   (db\<lparr>fin_lines := filter (\<lambda>l. il_invoice_id l \<noteq> i) (fin_lines db) @ map (line_of i) ls\<rparr>)
             | None \<Rightarrow>
                 (case due of
                    None \<Rightarrow> db
                  | Some d \<Rightarrow> update_invoice env i (\<lambda>v. v\<lparr>inv_due_date := d\<rparr>) db)))"

section \<open>Issue, void, cancel, write off\<close>

definition set_issued :: "fin_env \<Rightarrow> invoice \<Rightarrow> invoice" where
  "set_issued env v = v\<lparr>inv_status := Issued, inv_issue_date := Some (date_of (fe_now env))\<rparr>"

definition issue_invoice :: "fin_env \<Rightarrow> string \<Rightarrow> string \<Rightarrow> string \<Rightarrow> bool \<Rightarrow> fin_db \<Rightarrow> fin_db fin" where
  \<comment> \<open>id that a new approval request gets, invoice, user, direct authority\<close>
  "issue_invoice env rid i user hasDirectAuthority db =
     (case find_invoice db i of
        None \<Rightarrow> Inl INVOICE_NOT_FOUND
      | Some v \<Rightarrow>
          if inv_status v \<noteq> Draft then Inl INVALID_INVOICE_TRANSITION
          else if fe_require_approval env then
            (case checkAndCreateIfNeeded rid ''invoice_issue'' ''invoice'' i user hasDirectAuthority (fin_approvals db) of
               (Inl e, _) \<Rightarrow> Inl (Approval_error e)
             | (Inr (Approval_needed q), ap) \<Rightarrow>
                 Inr (update_invoice env i (\<lambda>v. v\<lparr>inv_status := Inv_pending_approval, inv_approval_request_id := Some q\<rparr>)
                        (db\<lparr>fin_approvals := ap\<rparr>))
             | (Inr Auto_approved, ap) \<Rightarrow> Inr (update_invoice env i (set_issued env) (db\<lparr>fin_approvals := ap\<rparr>)))
          else Inr (update_invoice env i (set_issued env) db))"

definition voidInvoice :: "fin_env \<Rightarrow> string \<Rightarrow> fin_db \<Rightarrow> fin_db fin" where
  "voidInvoice env i db =
     (case find_invoice db i of
        None \<Rightarrow> Inl INVOICE_NOT_FOUND
      | Some v \<Rightarrow>
          if \<bar>inv_balance v - inv_total v\<bar> > 1 / 100 then Inl PAYMENTS_EXIST
          else if \<not> isValidInvoiceTransition (inv_status v) Void then Inl INVALID_INVOICE_TRANSITION
          else Inr (update_invoice env i (\<lambda>v. v\<lparr>inv_status := Void\<rparr>) db))"

definition cancel_invoice :: "fin_env \<Rightarrow> string \<Rightarrow> string \<Rightarrow> fin_db \<Rightarrow> fin_db fin" where
  "cancel_invoice env i user db =
     (case find_invoice db i of
        None \<Rightarrow> Inl INVOICE_NOT_FOUND
      | Some v \<Rightarrow>
          if \<not> isValidInvoiceTransition (inv_status v) Cancelled then Inl INVALID_INVOICE_TRANSITION
          else
            let set_cancelled = update_invoice env i (\<lambda>v. v\<lparr>inv_status := Cancelled\<rparr>)
            in if inv_status v = Inv_pending_approval \<and> truthy (inv_approval_request_id v)
               then (case cancel_request (fe_now env) (the (inv_approval_request_id v)) user None (fin_approvals db) of
                       (Inl e, _) \<Rightarrow> Inl (Approval_error e)
                     | (Inr _, ap) \<Rightarrow> Inr (set_cancelled (db\<lparr>fin_approvals := ap\<rparr>)))
               else Inr (set_cancelled db))"

definition writeOff :: "fin_env \<Rightarrow> string \<Rightarrow> string \<Rightarrow> fin_db \<Rightarrow> fin_db fin" where
  "writeOff env i reason db =
     (case find_invoice db i of
        None \<Rightarrow> Inl INVOICE_NOT_FOUND
      | Some v \<Rightarrow>
          if \<not> isValidInvoiceTransition (inv_status v) Written_off then Inl INVALID_INVOICE_TRANSITION
          else Inr (update_invoice env i (\<lambda>v. v\<lparr>inv_status := Written_off, inv_write_off_amount := Some (inv_balance v),
                      inv_write_off_reason := Some reason, inv_balance := 0\<rparr>) db))"

section \<open>Balances\<close>

definition allocated_to :: "fin_db \<Rightarrow> string \<Rightarrow> rat" where
  "allocated_to db i = sum_list (map al_amount (filter (\<lambda>a. al_invoice_id a = i) (fin_allocations db)))"

definition write_off_value :: "invoice \<Rightarrow> rat" where
  \<comment> \<open>\<open>Number(invoice.write_off_amount ?? 0)\<close>\<close>
  "write_off_value v = (case inv_write_off_amount v of None \<Rightarrow> 0 | Some w \<Rightarrow> w)"

definition rebalanced :: "fin_env \<Rightarrow> fin_db \<Rightarrow> invoice \<Rightarrow> invoice" where
  "rebalanced env db v =
     (let newBalance = roundMoney (inv_total v - allocated_to db (inv_id v) - write_off_value v)
      in v\<lparr>inv_balance := newBalance,
           inv_status := deriveInvoiceStatus (fe_now env) (inv_status v) newBalance (inv_total v) (inv_due_date v)
                           (Some (write_off_value v))\<rparr>)"

definition recalculateBalance :: "fin_env \<Rightarrow> string \<Rightarrow> fin_db \<Rightarrow> fin_db fin" where
  "recalculateBalance env i db =
     (case find_invoice db i of
        None \<Rightarrow> Inl INVOICE_NOT_FOUND
      | Some _ \<Rightarrow> Inr (update_invoice env i (rebalanced env db) db))"

section \<open>Installments\<close>

definition createInstallments :: "string \<Rightarrow> (int \<times> rat) list \<Rightarrow> fin_db \<Rightarrow> fin_db fin" where
  "createInstallments i items db =
     (case find_invoice db i of
        None \<Rightarrow> Inl INVOICE_NOT_FOUND
      | Some v \<Rightarrow>
          if \<bar>roundMoney (foldl (\<lambda>s (d, a). s + a) 0 items) - inv_total v\<bar> > 1 / 100 then Inl INSTALLMENT_SUM_MISMATCH
          else Inr (db\<lparr>fin_installments := filter (\<lambda>n. ins_invoice_id n \<noteq> i) (fin_installments db) @
                 map (\<lambda>(d, a). \<lparr>ins_invoice_id = i, ins_due_date = d, ins_amount = numeric2 a, ins_status = Ins_pending\<rparr>) items\<rparr>))"

definition deleteInstallments :: "string \<Rightarrow> fin_db \<Rightarrow> fin_db fin" where
  "deleteInstallments i db =
     (case find_invoice db i of
        None \<Rightarrow> Inl INVOICE_NOT_FOUND
      | Some _ \<Rightarrow> Inr (db\<lparr>fin_installments := filter (\<lambda>n. ins_invoice_id n \<noteq> i) (fin_installments db)\<rparr>))"

section \<open>Jobs\<close>

definition past_due :: "int \<Rightarrow> invoice \<Rightarrow> bool" where
  "past_due cutoff v \<longleftrightarrow>
     inv_status v \<in> {Issued, Partially_paid} \<and> inv_due_date v < cutoff \<and> inv_last_overdue_notified_at v = None"

definition overdue_job :: "fin_env \<Rightarrow> int option \<Rightarrow> fin_db \<Rightarrow> fin_db" where
  "overdue_job env as_of db =
     (let cutoff = (case as_of of None \<Rightarrow> fe_now env | Some t \<Rightarrow> t)
      in if \<not> fe_finance_enabled env then db
         else db\<lparr>fin_invoices := map (\<lambda>v. if past_due cutoff v
                     then v\<lparr>inv_status := Overdue, inv_last_overdue_notified_at := Some (fe_now env), inv_updated_at := fe_now env\<rparr>
                     else v) (fin_invoices db),
                 fin_installments := map (\<lambda>n. if ins_status n = Ins_pending \<and> ins_due_date n < cutoff
                     then n\<lparr>ins_status := Ins_overdue\<rparr> else n) (fin_installments db)\<rparr>)"

definition executed_request :: "int \<Rightarrow> approval_request \<Rightarrow> approval_request" where
  "executed_request now r = r\<lparr>ar_status := Req_executed, ar_executed_at := Some now, ar_callback_status := Some Cb_executed,
     ar_callback_error := None\<rparr>"

definition healed_request :: "int \<Rightarrow> approval_request \<Rightarrow> approval_request" where
  "healed_request now r = r\<lparr>ar_status := Req_executed, ar_executed_at := Some now, ar_callback_status := Some Cb_already_done,
     ar_callback_error := Some (''Self-healed: invoice already in status '' @ quoted ''issued'')\<rparr>"

definition skipped_request :: "invoice_status \<Rightarrow> approval_request \<Rightarrow> approval_request" where
  "skipped_request s r = r\<lparr>ar_callback_status := Some Cb_skipped,
     ar_callback_error := Some (''Skipped: invoice was in unexpected status '' @ quoted (invoice_status_name s) @
       '', expected '' @ quoted ''pending_approval'')\<rparr>"

definition touch_request :: "string \<Rightarrow> (approval_request \<Rightarrow> approval_request) \<Rightarrow> fin_db \<Rightarrow> fin_db fin" where
  \<comment> \<open>\<open>tx.approvalRequest.update\<close>, which fails when there is no such row\<close>
  "touch_request rid f db =
     (case find_request (fin_approvals db) rid of
        None \<Rightarrow> Inl JOB_FAILED
      | Some _ \<Rightarrow> Inr (db\<lparr>fin_approvals := update_request rid f (fin_approvals db)\<rparr>))"

definition invoice_approval_callback :: "fin_env \<Rightarrow> string \<Rightarrow> string \<Rightarrow> fin_db \<Rightarrow> fin_db fin" where
  \<comment> \<open>request and invoice of the job's payload\<close>
  "invoice_approval_callback env rid i db =
     (if \<not> fe_finance_enabled env then Inr db
      else case find_invoice db i of
        None \<Rightarrow> Inl JOB_FAILED
      | Some v \<Rightarrow>
          if inv_status v \<noteq> Inv_pending_approval
          then touch_request rid (if inv_status v = Issued then healed_request (fe_now env) else skipped_request (inv_status v)) db
          else touch_request rid (executed_request (fe_now env)) (update_invoice env i (set_issued env) db))"

section \<open>Credit notes\<close>

definition create_credit_note ::
  "fin_env \<Rightarrow> string \<Rightarrow> string \<Rightarrow> string \<Rightarrow> rat \<Rightarrow> string \<Rightarrow> fin_db \<Rightarrow> fin_db fin" where
  "create_credit_note env i user household amount reason db =
     (if household \<notin> set (fe_households env) then Inl HOUSEHOLD_NOT_FOUND
      else let (number, db1) = nextNumber ''credit_note'' ''CN'' db
           in Inr (db1\<lparr>fin_credit_notes := fin_credit_notes db1 @
                 [\<lparr>cn_id = i, cn_household_id = household, cn_number = number, cn_amount = numeric2 amount,
                   cn_remaining = numeric2 amount, cn_reason = reason, cn_issued_by = user\<rparr>]\<rparr>))"

definition applyToInvoice :: "fin_env \<Rightarrow> string \<Rightarrow> string \<Rightarrow> string \<Rightarrow> rat \<Rightarrow> fin_db \<Rightarrow> fin_db fin" where
  "applyToInvoice env user cid i amount db =
     (case find_row cn_id cid (fin_credit_notes db) of
        None \<Rightarrow> Inl CREDIT_NOTE_NOT_FOUND
      | Some cn \<Rightarrow>
          if cn_remaining cn < amount - 5 / 1000 then Inl INSUFFICIENT_CREDIT_BALANCE
          else (case find_invoice db i of
                  None \<Rightarrow> Inl INVOICE_NOT_FOUND
                | Some v \<Rightarrow>
                    if \<not> isPayableStatus (inv_status v) then Inl INVALID_INVOICE_STATUS
                    else
                      let appliedAmount = roundMoney (min amount (inv_balance v))
                      in if appliedAmount \<le> 0 then Inl INVOICE_ALREADY_PAID
                         else
                           let newBalance = roundMoney (inv_balance v - appliedAmount)
                           in Inr (update_invoice env i (\<lambda>v. v\<lparr>inv_balance := newBalance,
                                     inv_status := (if newBalance < 5 / 1000 then Paid else Partially_paid)\<rparr>)
                                (db\<lparr>fin_credit_applications := fin_credit_applications db @
                                      [\<lparr>ca_credit_note_id = cid, ca_invoice_id = i, ca_amount = appliedAmount, ca_applied_by = user\<rparr>],
                                    fin_credit_notes := update_row cn_id cid
                                      (\<lambda>n. n\<lparr>cn_remaining := roundMoney (cn_remaining cn - appliedAmount)\<rparr>) (fin_credit_notes db)\<rparr>))))"

section \<open>Late fees\<close>

definition find_config :: "string option \<Rightarrow> fin_db \<Rightarrow> late_fee_config option" where
  \<comment> \<open>the named active configuration, or the newest active one\<close>
  "find_config cid db =
     (if truthy cid then List.find (\<lambda>c. lf_id c = the cid \<and> lf_active c) (fin_late_fee_configs db)
      else List.find lf_active (rev (fin_late_fee_configs db)))"

definition create_late_fee_config :: "late_fee_config \<Rightarrow> fin_db \<Rightarrow> fin_db" where
  \<comment> \<open>with the column values after the defaults of \<open>createConfig\<close>\<close>
  "create_late_fee_config c db =
     db\<lparr>fin_late_fee_configs := fin_late_fee_configs db @ [c\<lparr>lf_value := numeric2 (lf_value c), lf_active := True\<rparr>]\<rparr>"

record late_fee_patch =
  lp_name :: "string option"
  lp_type :: "late_fee_type option"
  lp_value :: "rat option"
  lp_grace_period_days :: "int option"
  lp_max_applications :: "int option"
  lp_frequency_days :: "int option option"
  lp_active :: "bool option"

definition patched :: "'a option \<Rightarrow> 'a \<Rightarrow> 'a" where
  \<comment> \<open>a field that is absent from the request keeps its value\<close>
  "patched new old = (case new of None \<Rightarrow> old | Some x \<Rightarrow> x)"

definition update_late_fee_config :: "string \<Rightarrow> late_fee_patch \<Rightarrow> fin_db \<Rightarrow> fin_db fin" where
  "update_late_fee_config cid p db =
     (case find_row lf_id cid (fin_late_fee_configs db) of
        None \<Rightarrow> Inl LATE_FEE_CONFIG_NOT_FOUND
      | Some _ \<Rightarrow> Inr (db\<lparr>fin_late_fee_configs := update_row lf_id cid
          (\<lambda>c. c\<lparr>lf_name := patched (lp_name p) (lf_name c), lf_type := patched (lp_type p) (lf_type c),
                lf_value := patched (map_option numeric2 (lp_value p)) (lf_value c),
                lf_grace_period_days := patched (lp_grace_period_days p) (lf_grace_period_days c),
                lf_max_applications := patched (lp_max_applications p) (lf_max_applications c),
                lf_frequency_days := patched (lp_frequency_days p) (lf_frequency_days c),
                lf_active := patched (lp_active p) (lf_active c)\<rparr>) (fin_late_fee_configs db)\<rparr>))"

definition days_between :: "int \<Rightarrow> int \<Rightarrow> int" where
  "days_between later earlier = (later - earlier) div (1000 * 60 * 60 * 24)"

definition late_fee_amount :: "late_fee_config \<Rightarrow> invoice \<Rightarrow> rat" where
  "late_fee_amount c v =
     (case lf_type c of Percent_fee \<Rightarrow> roundMoney (inv_total v * (lf_value c / 100)) | Fixed_fee \<Rightarrow> roundMoney (lf_value c))"

definition too_soon :: "int \<Rightarrow> late_fee_config \<Rightarrow> late_fee_application list \<Rightarrow> bool" where
  "too_soon now c existing =
     (case lf_frequency_days c of
        None \<Rightarrow> False
      | Some f \<Rightarrow> f \<noteq> 0 \<and> length existing > 0 \<and> days_between now (la_applied_at (last existing)) < f)"

definition applyLateFee :: "fin_env \<Rightarrow> string \<Rightarrow> string option \<Rightarrow> fin_db \<Rightarrow> fin_db fin" where
  "applyLateFee env i cid db =
     (case find_invoice db i of
        None \<Rightarrow> Inl INVOICE_NOT_FOUND
      | Some v \<Rightarrow>
          if \<not> isPayableStatus (inv_status v) then Inl INVALID_INVOICE_STATUS
          else (case find_config cid db of
                  None \<Rightarrow> Inl LATE_FEE_CONFIG_NOT_FOUND
                | Some c \<Rightarrow>
                    let existing = filter (\<lambda>a. la_invoice_id a = i \<and> la_config_id a = lf_id c) (fin_late_fees db);
                        fee = late_fee_amount c v
                    in if days_between (fe_now env) (inv_due_date v) < lf_grace_period_days c then Inl WITHIN_GRACE_PERIOD
                       else if int (length existing) \<ge> lf_max_applications c then Inl MAX_LATE_FEE_APPLICATIONS_REACHED
                       else if too_soon (fe_now env) c existing then Inl TOO_SOON_FOR_NEXT_APPLICATION
                       else Inr (update_invoice env i
                              (\<lambda>v. v\<lparr>inv_total := roundMoney (inv_total v + fee), inv_balance := roundMoney (inv_balance v + fee)\<rparr>)
                              (db\<lparr>fin_late_fees := fin_late_fees db @
                                    [\<lparr>la_invoice_id = i, la_config_id = lf_id c, la_amount = fee, la_applied_at = fe_now env\<rparr>],
                                  fin_lines := fin_lines db @
                                    [\<lparr>il_invoice_id = i, il_description = ''Late fee: '' @ lf_name c, il_quantity = 1,
                                      il_unit_amount = fee, il_line_total = fee, il_student_id = None,
                                      il_fee_structure_id = None\<rparr>]\<rparr>))))"

end
