(* ===== verification/Finance_Payments.thy ===== *)
theory Finance_Payments
  imports Finance_Invoices
begin

text \<open>
  Payments, allocations and refunds: the operations of \<open>payments.service.ts\<close> and \<open>refunds.service.ts\<close>, the receipt
  that an allocation creates (\<open>receipts.service.ts\<close>) and the invoice branch of the Stripe webhook
  (\<open>stripe.service.ts\<close>, \<open>handleCheckoutCompleted\<close>). The allocation table is in creation order; what Stripe answers to a
  refund call is an argument of \<open>execute_refund\<close>.
\<close>

section \<open>Payments and allocations\<close>

abbreviation find_payment :: "fin_db \<Rightarrow> string \<Rightarrow> payment option" where
  "find_payment db p \<equiv> find_row pay_id p (fin_payments db)"

definition allocations_of :: "fin_db \<Rightarrow> string \<Rightarrow> allocation list" where
  "allocations_of db p = filter (\<lambda>a. al_payment_id a = p) (fin_allocations db)"

definition allocated_from :: "fin_db \<Rightarrow> string \<Rightarrow> rat" where
  "allocated_from db p = foldl (\<lambda>s a. s + al_amount a) 0 (allocations_of db p)"

definition add_allocation :: "string \<Rightarrow> string \<Rightarrow> rat \<Rightarrow> fin_db \<Rightarrow> fin_db" where
  "add_allocation p i amount db =
     db\<lparr>fin_allocations := fin_allocations db @
          [\<lparr>al_id = fin_next_allocation db, al_payment_id = p, al_invoice_id = i, al_amount = numeric2 amount\<rparr>],
        fin_next_allocation := Suc (fin_next_allocation db)\<rparr>"

definition createManual ::
  "fin_env \<Rightarrow> string \<Rightarrow> string \<Rightarrow> string \<Rightarrow> payment_method \<Rightarrow> rat \<Rightarrow> int \<Rightarrow> string option \<Rightarrow> fin_db \<Rightarrow> fin_db fin" where
  "createManual env p user household method amount received reason db =
     (if household \<notin> set (fe_households env) then Inl HOUSEHOLD_NOT_FOUND
      else let (ref, db1) = nextNumber ''payment'' ''PAYREF'' db
           in Inr (db1\<lparr>fin_payments := fin_payments db1 @
                 [\<lparr>pay_id = p, pay_household_id = household, pay_reference = ref, pay_method = method,
                   pay_external_event_id = None, pay_amount = numeric2 amount, pay_currency = fe_currency env,
                   pay_status = Posted, pay_received_at = received, pay_posted_by = Some user, pay_reason = reason\<rparr>]\<rparr>))"

definition unpaid :: "string \<Rightarrow> invoice \<Rightarrow> bool" where
  "unpaid household v \<longleftrightarrow>
     inv_household_id v = household \<and> inv_status v \<in> {Issued, Partially_paid, Overdue} \<and> inv_balance v > 0"

fun suggest_loop :: "invoice list \<Rightarrow> rat \<Rightarrow> (string \<times> rat) list" where
  "suggest_loop [] remaining = []"
| "suggest_loop (v # vs) remaining =
     (if remaining \<le> 0 then []
      else let suggestedAmount = roundMoney (min remaining (inv_balance v))
           in (inv_id v, suggestedAmount) # suggest_loop vs (roundMoney (remaining - suggestedAmount)))"

definition suggestAllocations :: "string \<Rightarrow> fin_db \<Rightarrow> (string \<times> rat) list fin" where
  "suggestAllocations p db =
     (case find_payment db p of
        None \<Rightarrow> Inl PAYMENT_NOT_FOUND
      | Some pay \<Rightarrow>
          let remaining = roundMoney (pay_amount pay - allocated_from db p)
          in if remaining \<le> 0 then Inr []
             else Inr (suggest_loop (sort_key inv_due_date (filter (unpaid (pay_household_id pay)) (fin_invoices db))) remaining))"

fun check_allocations :: "fin_db \<Rightarrow> payment \<Rightarrow> (string \<times> rat) list \<Rightarrow> fin_error option" where
  "check_allocations db pay [] = None"
| "check_allocations db pay ((i, amount) # allocs) =
     (case find_invoice db i of
        None \<Rightarrow> Some INVOICE_NOT_FOUND
      | Some v \<Rightarrow>
          if inv_household_id v \<noteq> pay_household_id pay then Some HOUSEHOLD_MISMATCH
          else if roundMoney amount > inv_balance v + 1 / 100 then Some ALLOCATION_EXCEEDS_BALANCE
          else check_allocations db pay allocs)"

fun add_allocations :: "string \<Rightarrow> (string \<times> rat) list \<Rightarrow> fin_db \<Rightarrow> fin_db" where
  "add_allocations p [] db = db"
| "add_allocations p ((i, amount) # allocs) db = add_allocations p allocs (add_allocation p i amount db)"

fun recalculate_all :: "fin_env \<Rightarrow> string list \<Rightarrow> fin_db \<Rightarrow> fin_db fin" where
  "recalculate_all env [] db = Inr db"
| "recalculate_all env (i # is) db =
     (case recalculateBalance env i db of Inl e \<Rightarrow> Inl e | Inr db1 \<Rightarrow> recalculate_all env is db1)"

definition createForPayment :: "fin_env \<Rightarrow> string \<Rightarrow> string option \<Rightarrow> string \<Rightarrow> fin_db \<Rightarrow> fin_db" where
  "createForPayment env p user locale_code db =
     (let (number, db1) = nextNumber ''receipt'' (case fe_receipt_prefix env of None \<Rightarrow> ''REC'' | Some x \<Rightarrow> x) db
      in db1\<lparr>fin_receipts := fin_receipts db1 @
           [\<lparr>rc_payment_id = p, rc_number = number, rc_locale = locale_code, rc_issued_at = fe_now env, rc_issued_by = user\<rparr>]\<rparr>)"

definition confirmAllocations ::
  "fin_env \<Rightarrow> string \<Rightarrow> string \<Rightarrow> (string \<times> rat) list \<Rightarrow> fin_db \<Rightarrow> fin_db fin" where
  \<comment> \<open>the payment is read again under its row lock inside the transaction; run alone, both reads agree\<close>
  "confirmAllocations env p user allocs db =
     (case find_payment db p of
        None \<Rightarrow> Inl PAYMENT_NOT_FOUND
      | Some pay \<Rightarrow>
          if pay_status pay \<noteq> Posted then Inl INVALID_PAYMENT_STATUS
          else
            let newTotal = foldl (\<lambda>s (i, a). s + a) 0 allocs;
                remaining = roundMoney (pay_amount pay - allocated_from db p)
            in if roundMoney newTotal > remaining + 1 / 100 then Inl ALLOCATION_EXCEEDS_PAYMENT
               else (case check_allocations db pay allocs of
                       Some e \<Rightarrow> Inl e
                     | None \<Rightarrow>
                         (case recalculate_all env (map fst allocs) (add_allocations p allocs db) of
                            Inl e \<Rightarrow> Inl e
                          | Inr db1 \<Rightarrow>
                              if filter (\<lambda>r. rc_payment_id r = p) (fin_receipts db1) = []
                              then Inr (createForPayment env p (Some user) ''en'' db1)
                              else Inr db1)))"

definition handleCheckoutCompleted ::
  "fin_env \<Rightarrow> string \<Rightarrow> string option \<Rightarrow> string option \<Rightarrow> int option \<Rightarrow> string \<Rightarrow> fin_db \<Rightarrow> fin_db fin" where
  \<comment> \<open>id of the new payment, invoice and household of the metadata, amount in cents, payment intent\<close>
  "handleCheckoutCompleted env p invoiceId householdId amountCents intent db =
     (if \<not> truthy invoiceId \<or> \<not> truthy householdId then Inr db
      else
        let amountTotal = (case amountCents of None \<Rightarrow> 0 | Some c \<Rightarrow> roundMoney (of_int c / 100));
            i = the invoiceId
        in if amountTotal \<le> 0 then Inr db
           else if filter (\<lambda>x. pay_external_event_id x = Some intent) (fin_payments db) \<noteq> [] then Inr db
           else
             let (ref, db1) = nextNumber ''payment'' ''PAYREF'' db;
                 db2 = db1\<lparr>fin_payments := fin_payments db1 @
                   [\<lparr>pay_id = p, pay_household_id = the householdId, pay_reference = ref, pay_method = Stripe_method,
                     pay_external_event_id = Some intent, pay_amount = amountTotal, pay_currency = fe_currency env,
                     pay_status = Posted, pay_received_at = fe_now env, pay_posted_by = None, pay_reason = None\<rparr>]\<rparr>
             in (case (case find_invoice db2 i of
                         None \<Rightarrow> Inr db2
                       | Some v \<Rightarrow>
                           if inv_balance v > 0
                           then recalculateBalance env i
                                  (add_allocation p i (roundMoney (min amountTotal (inv_balance v))) db2)
                           else Inr db2) of
                   Inl e \<Rightarrow> Inl e
                 | Inr db3 \<Rightarrow> Inr (createForPayment env p None ''en'' db3)))"

section \<open>Refunds\<close>

abbreviation find_refund :: "fin_db \<Rightarrow> string \<Rightarrow> refund option" where
  "find_refund db r \<equiv> find_row rf_id r (fin_refunds db)"

definition refunds_of :: "fin_db \<Rightarrow> string \<Rightarrow> refund list" where
  "refunds_of db p = filter (\<lambda>r. rf_payment_id r = p) (fin_refunds db)"

definition refund_total :: "(refund_status \<Rightarrow> bool) \<Rightarrow> fin_db \<Rightarrow> string \<Rightarrow> rat" where
  "refund_total P db p = foldl (\<lambda>s r. s + rf_amount r) 0 (filter (\<lambda>r. P (rf_status r)) (refunds_of db p))"

definition counted :: "refund_status \<Rightarrow> bool" where
  "counted s \<longleftrightarrow> s \<noteq> Ref_rejected \<and> s \<noteq> Ref_failed"

definition allocated_to_closed :: "fin_db \<Rightarrow> string \<Rightarrow> bool" where
  \<comment> \<open>some allocation of the payment goes to a void or written-off invoice\<close>
  "allocated_to_closed db p =
     list_ex (\<lambda>a. case find_invoice db (al_invoice_id a) of None \<Rightarrow> False | Some v \<Rightarrow> inv_status v \<in> {Void, Written_off})
       (allocations_of db p)"

definition create_refund ::
  "fin_env \<Rightarrow> string \<Rightarrow> string \<Rightarrow> string \<Rightarrow> rat \<Rightarrow> string \<Rightarrow> fin_db \<Rightarrow> fin_db fin" where
  "create_refund env r user p amount reason db =
     (case find_payment db p of
        None \<Rightarrow> Inl PAYMENT_NOT_FOUND
      | Some pay \<Rightarrow>
          if pay_status pay \<notin> {Posted, Refunded_partial} then Inl INVALID_PAYMENT_STATUS
          else
            let unrefunded = roundMoney (pay_amount pay - refund_total counted db p)
            in if amount > unrefunded + 1 / 100 then Inl REFUND_EXCEEDS_AVAILABLE
               else if allocated_to_closed db p then Inl INVOICE_VOID_OR_WRITTEN_OFF
               else
                 let prefix = (if truthy (fe_receipt_prefix env) then ''REF-'' @ the (fe_receipt_prefix env) else ''REF'');
                     (ref, db1) = nextNumber ''refund'' prefix db
                 in Inr (db1\<lparr>fin_refunds := fin_refunds db1 @
                      [\<lparr>rf_id = r, rf_payment_id = p, rf_reference = ref, rf_amount = numeric2 amount,
                        rf_status = Ref_pending_approval, rf_reason = reason, rf_requested_by = user, rf_approved_by = None,
                        rf_failure_reason = None, rf_executed_at = None\<rparr>]\<rparr>))"

definition update_refund :: "string \<Rightarrow> (refund \<Rightarrow> refund) \<Rightarrow> fin_db \<Rightarrow> fin_db" where
  "update_refund r f db = db\<lparr>fin_refunds := update_row rf_id r f (fin_refunds db)\<rparr>"

definition approve_refund :: "string \<Rightarrow> string \<Rightarrow> fin_db \<Rightarrow> fin_db fin" where
  "approve_refund r approver db =
     (case find_refund db r of
        None \<Rightarrow> Inl REFUND_NOT_FOUND
      | Some refund \<Rightarrow>
          if rf_requested_by refund = approver then Inl SELF_REFUND_APPROVAL_BLOCKED
          else if rf_status refund \<noteq> Ref_pending_approval then Inl INVALID_REFUND_STATUS
          else Inr (update_refund r (\<lambda>x. x\<lparr>rf_status := Ref_approved, rf_approved_by := Some approver\<rparr>) db))"

definition reject_refund :: "string \<Rightarrow> string \<Rightarrow> string \<Rightarrow> fin_db \<Rightarrow> fin_db fin" where
  "reject_refund r approver comment db =
     (case find_refund db r of
        None \<Rightarrow> Inl REFUND_NOT_FOUND
      | Some refund \<Rightarrow>
          if rf_status refund \<noteq> Ref_pending_approval then Inl INVALID_REFUND_STATUS
          else Inr (update_refund r (\<lambda>x. x\<lparr>rf_status := Ref_rejected, rf_approved_by := Some approver,
                      rf_failure_reason := Some comment\<rparr>) db))"

fun reverse_loop :: "fin_env \<Rightarrow> allocation list \<Rightarrow> rat \<Rightarrow> fin_db \<Rightarrow> fin_db fin" where
  "reverse_loop env [] remaining db = Inr db"
| "reverse_loop env (a # as) remaining db =
     (if remaining \<le> 0 then Inr db
      else
        let allocAmount = al_amount a;
            reverseAmount = roundMoney (min remaining allocAmount);
            db1 = (if reverseAmount \<ge> allocAmount - 1 / 100
                   then db\<lparr>fin_allocations := filter (\<lambda>b. al_id b \<noteq> al_id a) (fin_allocations db)\<rparr>
                   else db\<lparr>fin_allocations := map (\<lambda>b. if al_id b = al_id a
                            then b\<lparr>al_amount := roundMoney (allocAmount - reverseAmount)\<rparr> else b) (fin_allocations db)\<rparr>)
        in (case recalculateBalance env (al_invoice_id a) db1 of
              Inl e \<Rightarrow> Inl e
            | Inr db2 \<Rightarrow> reverse_loop env as (roundMoney (remaining - reverseAmount)) db2))"

definition reverseAllocationsLifo :: "fin_env \<Rightarrow> string \<Rightarrow> rat \<Rightarrow> fin_db \<Rightarrow> fin_db fin" where
  "reverseAllocationsLifo env p refundAmount db =
     (case find_payment db p of
        None \<Rightarrow> Inr db
      | Some pay \<Rightarrow>
          let allocations = rev (allocations_of db p);
              unallocated = roundMoney (pay_amount pay - foldl (\<lambda>s a. s + al_amount a) 0 allocations);
              remaining = (if unallocated > 0 then roundMoney (refundAmount - min refundAmount unallocated) else refundAmount)
          in reverse_loop env allocations remaining db)"

definition refunded_status :: "rat \<Rightarrow> rat \<Rightarrow> payment_status" where
  "refunded_status totalRefunded paymentAmount =
     (if totalRefunded \<ge> paymentAmount - 1 / 100 then Refunded_full
      else if totalRefunded > 0 then Refunded_partial
      else Posted)"

definition set_payment_status :: "string \<Rightarrow> fin_db \<Rightarrow> fin_db" where
  "set_payment_status p db =
     db\<lparr>fin_payments := update_row pay_id p
          (\<lambda>x. x\<lparr>pay_status := refunded_status (refund_total (\<lambda>s. s = Ref_executed) db p) (pay_amount x)\<rparr>) (fin_payments db)\<rparr>"

definition settle_refund :: "fin_env \<Rightarrow> refund \<Rightarrow> fin_db \<Rightarrow> fin_db fin" where
  \<comment> \<open>the local transaction of \<open>execute\<close>\<close>
  "settle_refund env refund db =
     (case reverseAllocationsLifo env (rf_payment_id refund) (rf_amount refund)
            (update_refund (rf_id refund) (\<lambda>x. x\<lparr>rf_status := Ref_executed, rf_executed_at := Some (fe_now env)\<rparr>) db) of
        Inl e \<Rightarrow> Inl e
      | Inr db1 \<Rightarrow> Inr (set_payment_status (rf_payment_id refund) db1))"

definition execute_refund :: "fin_env \<Rightarrow> string option \<Rightarrow> string \<Rightarrow> fin_db \<Rightarrow> unit fin \<times> fin_db" where
  \<comment> \<open>second argument: the message with which Stripe refuses the refund, if it does\<close>
  "execute_refund env stripeError r db =
     (case find_refund db r of
        None \<Rightarrow> (Inl REFUND_NOT_FOUND, db)
      | Some refund \<Rightarrow>
          if rf_status refund \<noteq> Ref_approved then (Inl INVALID_REFUND_STATUS, db)
          else (case settle_refund env refund db of
                  Inl e \<Rightarrow> (Inl e, db)
                | Inr db1 \<Rightarrow>
                    let viaStripe = (case find_payment db (rf_payment_id refund) of
                          None \<Rightarrow> False
                        | Some pay \<Rightarrow> pay_method pay = Stripe_method \<and> truthy (pay_external_event_id pay))
                    in (case stripeError of
                          Some msg \<Rightarrow>
                            if viaStripe
                            then (Inl STRIPE_REFUND_FAILED,
                                  update_refund r (\<lambda>x. x\<lparr>rf_status := Ref_failed,
                                    rf_failure_reason := Some (''Stripe refund failed: '' @ msg)\<rparr>) db1)
                            else (Inr (), db1)
                        | None \<Rightarrow> (Inr (), db1))))"

end
