(* ===== verification/Finance_Ledger.thy ===== *)
theory Finance_Ledger
  imports Finance_Payments
begin

text \<open>
  The ledger as a transition system: the finance operations as steps, the invariant they keep (every balance is the
  total less the allocations and the write-off, no payment is allocated or refunded beyond its amount, every refund
  is approved by a second person), and what a refund does to the allocations of its payment.
\<close>

section \<open>Frames\<close>

named_theorems fin_frames \<open>which tables an operation touches\<close>

lemma update_invoice_frame [simp, fin_frames]:
  "fin_allocations (update_invoice env i f db) = fin_allocations db"
  "fin_next_allocation (update_invoice env i f db) = fin_next_allocation db"
  "fin_payments (update_invoice env i f db) = fin_payments db"
  "fin_refunds (update_invoice env i f db) = fin_refunds db"
  "fin_receipts (update_invoice env i f db) = fin_receipts db"
  "fin_credit_applications (update_invoice env i f db) = fin_credit_applications db"
  "fin_approvals (update_invoice env i f db) = fin_approvals db"
  by (simp_all add: update_invoice_def)

lemma nextNumber_frame [simp]:
  assumes "nextNumber t pre db = (n, db')"
  shows "fin_invoices db' = fin_invoices db" "fin_allocations db' = fin_allocations db"
    "fin_next_allocation db' = fin_next_allocation db" "fin_payments db' = fin_payments db"
    "fin_refunds db' = fin_refunds db" "fin_receipts db' = fin_receipts db"
    "fin_credit_notes db' = fin_credit_notes db" "fin_lines db' = fin_lines db"
    "fin_credit_applications db' = fin_credit_applications db" "fin_approvals db' = fin_approvals db"
  using assms by (auto simp: nextNumber_def Let_def)

lemma createForPayment_frame [simp, fin_frames]:
  "fin_invoices (createForPayment env p u l db) = fin_invoices db"
  "fin_allocations (createForPayment env p u l db) = fin_allocations db"
  "fin_next_allocation (createForPayment env p u l db) = fin_next_allocation db"
  "fin_payments (createForPayment env p u l db) = fin_payments db"
  "fin_refunds (createForPayment env p u l db) = fin_refunds db"
  by (auto simp: createForPayment_def split: prod.splits)

lemma add_allocation_frame [simp, fin_frames]:
  "fin_invoices (add_allocation p i a db) = fin_invoices db" "fin_payments (add_allocation p i a db) = fin_payments db"
  "fin_refunds (add_allocation p i a db) = fin_refunds db" "fin_receipts (add_allocation p i a db) = fin_receipts db"
  by (simp_all add: add_allocation_def)

section \<open>The invariant\<close>

definition row_ok :: "fin_db \<Rightarrow> invoice \<Rightarrow> bool" where
  "row_ok db v \<longleftrightarrow>
     inv_balance v = inv_total v - allocated_to db (inv_id v) - write_off_value v \<and>
     (inv_status v = Draft \<longrightarrow> inv_write_off_amount v = None \<and> inv_id v \<notin> al_invoice_id ` set (fin_allocations db))"

definition invoice_money :: "invoice \<Rightarrow> bool" where
  "invoice_money v \<longleftrightarrow> is_money (inv_total v) \<and> is_money (write_off_value v)"

definition allocation_ok :: "fin_db \<Rightarrow> allocation \<Rightarrow> bool" where
  "allocation_ok db a \<longleftrightarrow> is_money (al_amount a) \<and> 0 \<le> al_amount a \<and> al_id a < fin_next_allocation db \<and>
     al_invoice_id a \<in> inv_id ` set (fin_invoices db) \<and> al_payment_id a \<in> pay_id ` set (fin_payments db)"

definition payment_ok :: "fin_db \<Rightarrow> payment \<Rightarrow> bool" where
  "payment_ok db x \<longleftrightarrow> is_money (pay_amount x) \<and> 0 \<le> pay_amount x \<and>
     allocated_from db (pay_id x) \<le> pay_amount x + 1 / 100 \<and> refund_total counted db (pay_id x) \<le> pay_amount x + 1 / 100"

definition refund_ok :: "fin_db \<Rightarrow> refund \<Rightarrow> bool" where
  "refund_ok db r \<longleftrightarrow> is_money (rf_amount r) \<and> 0 \<le> rf_amount r \<and> rf_payment_id r \<in> pay_id ` set (fin_payments db) \<and>
     (rf_status r \<in> {Ref_approved, Ref_executed, Ref_failed} \<longrightarrow>
        (\<exists>u. rf_approved_by r = Some u \<and> u \<noteq> rf_requested_by r))"

definition ids_ok :: "fin_db \<Rightarrow> bool" where
  "ids_ok db \<longleftrightarrow> keys_unique inv_id (fin_invoices db) \<and> keys_unique pay_id (fin_payments db) \<and>
     keys_unique rf_id (fin_refunds db) \<and> distinct (map al_id (fin_allocations db))"

definition base_ok :: "fin_db \<Rightarrow> bool" where
  "base_ok db \<longleftrightarrow> ids_ok db \<and> list_all invoice_money (fin_invoices db) \<and> list_all (allocation_ok db) (fin_allocations db) \<and>
     list_all (payment_ok db) (fin_payments db) \<and> list_all (refund_ok db) (fin_refunds db)"

definition rows_ok :: "string set \<Rightarrow> fin_db \<Rightarrow> bool" where
  \<comment> \<open>all balances are right, except perhaps those of the invoices in the set\<close>
  "rows_ok S db \<longleftrightarrow> list_all (\<lambda>v. inv_id v \<notin> S \<longrightarrow> row_ok db v) (fin_invoices db)"

definition fin_inv :: "fin_db \<Rightarrow> bool" where
  "fin_inv db \<longleftrightarrow> base_ok db \<and> rows_ok {} db"

lemma allocated_from_alt: "allocated_from db p = sum_list (map al_amount (allocations_of db p))"
  by (simp add: allocated_from_def foldl_plus)

lemma refund_total_alt:
  "refund_total P db p = sum_list (map rf_amount (filter (\<lambda>r. P (rf_status r)) (refunds_of db p)))"
  by (simp add: refund_total_def foldl_plus)

lemma money_allocated_to: "base_ok db \<Longrightarrow> is_money (allocated_to db i)"
  unfolding allocated_to_def by (rule is_money_sum_list) (auto simp: base_ok_def allocation_ok_def list_all_iff)

lemma money_allocated_from: "base_ok db \<Longrightarrow> is_money (allocated_from db p)"
  unfolding allocated_from_alt allocations_of_def
  by (rule is_money_sum_list) (auto simp: base_ok_def allocation_ok_def list_all_iff)

lemma money_refund_total: "base_ok db \<Longrightarrow> is_money (refund_total P db p)"
  unfolding refund_total_alt refunds_of_def
  by (rule is_money_sum_list) (auto simp: base_ok_def refund_ok_def list_all_iff)

text \<open>What the invariant reads.\<close>

lemma row_ok_frame: "fin_allocations db' = fin_allocations db \<Longrightarrow> row_ok db' v = row_ok db v"
  by (simp add: row_ok_def allocated_to_def)

lemma base_ok_frame:
  assumes "fin_invoices db' = fin_invoices db" "fin_allocations db' = fin_allocations db"
    "fin_next_allocation db' = fin_next_allocation db" "fin_payments db' = fin_payments db" "fin_refunds db' = fin_refunds db"
  shows "base_ok db' = base_ok db" "rows_ok S db' = rows_ok S db" "fin_inv db' = fin_inv db"
proof -
  have "allocation_ok db' = allocation_ok db" "payment_ok db' = payment_ok db" "refund_ok db' = refund_ok db"
    "row_ok db' = row_ok db"
    using assms
    by (auto simp: fun_eq_iff allocation_ok_def payment_ok_def refund_ok_def row_ok_def allocated_from_def allocations_of_def
        refund_total_def refunds_of_def allocated_to_def)
  then show "base_ok db' = base_ok db" "rows_ok S db' = rows_ok S db" by (simp_all add: base_ok_def ids_ok_def rows_ok_def assms)
  then show "fin_inv db' = fin_inv db" by (simp add: fin_inv_def rows_ok_def \<open>row_ok db' = row_ok db\<close> assms)
qed

section \<open>Updating one invoice\<close>

lemma update_invoice_base:
  assumes "base_ok db" "\<And>v. inv_id (f v) = inv_id v"
    and money: "\<And>v. v \<in> set (fin_invoices db) \<Longrightarrow> inv_id v = i \<Longrightarrow> invoice_money v \<Longrightarrow> invoice_money (f v)"
  shows "base_ok (update_invoice env i f db)"
proof -
  let ?db = "update_invoice env i f db"
  let ?g = "\<lambda>v. (f v)\<lparr>inv_updated_at := fe_now env\<rparr>"
  have inv: "fin_invoices ?db = update_row inv_id i ?g (fin_invoices db)" by (simp add: update_invoice_def)
  have ids: "map inv_id (fin_invoices ?db) = map inv_id (fin_invoices db)"
    unfolding inv by (rule update_row_keys) (simp add: assms(2))
  then have idset: "inv_id ` set (fin_invoices ?db) = inv_id ` set (fin_invoices db)" by (metis set_map)
  have "list_all invoice_money (fin_invoices ?db)"
    unfolding inv
  proof (rule list_all_update_row)
    show "list_all invoice_money (fin_invoices db)" using assms(1) by (simp add: base_ok_def)
    fix v assume "v \<in> set (fin_invoices db)" "inv_id v = i" "invoice_money v"
    from money [OF this] show "invoice_money (?g v)" by (simp add: invoice_money_def write_off_value_def)
  qed
  moreover have "allocation_ok ?db = allocation_ok db" using idset by (auto simp: allocation_ok_def)
  moreover have "payment_ok ?db = payment_ok db"
    by (auto simp: payment_ok_def allocated_from_def allocations_of_def refund_total_def refunds_of_def)
  moreover have "refund_ok ?db = refund_ok db" by (auto simp: refund_ok_def)
  ultimately show ?thesis using assms(1) ids by (simp add: base_ok_def ids_ok_def keys_unique_def)
qed

lemma update_invoice_rows:
  assumes "rows_ok S db" "\<And>v. inv_id (f v) = inv_id v"
    and row: "\<And>v. v \<in> set (fin_invoices db) \<Longrightarrow> inv_id v = i \<Longrightarrow> (i \<notin> S \<Longrightarrow> row_ok db v) \<Longrightarrow> row_ok db (f v)"
  shows "rows_ok (S - {i}) (update_invoice env i f db)"
proof -
  have upd: "row_ok (update_invoice env i f db) = row_ok db" by (rule ext, rule row_ok_frame) simp
  have touch: "row_ok db (v\<lparr>inv_updated_at := t\<rparr>) = row_ok db v" for v t by (simp add: row_ok_def write_off_value_def)
  have "row_ok db ((f v)\<lparr>inv_updated_at := fe_now env\<rparr>)" if "v \<in> set (fin_invoices db)" "inv_id v = i" for v
    using row [OF that] assms(1) that by (auto simp: touch rows_ok_def list_all_iff)
  then show ?thesis
    using assms(1) unfolding rows_ok_def upd
    by (auto simp: list_all_iff update_invoice_def elim!: in_update_rowE)
qed

lemma update_invoice_inv:
  assumes "fin_inv db" "\<And>v. inv_id (f v) = inv_id v"
    and "\<And>v. v \<in> set (fin_invoices db) \<Longrightarrow> inv_id v = i \<Longrightarrow> invoice_money v \<Longrightarrow> row_ok db v \<Longrightarrow> invoice_money (f v) \<and> row_ok db (f v)"
  shows "fin_inv (update_invoice env i f db)"
proof -
  have b: "base_ok db" and r: "rows_ok {} db" using assms(1) by (auto simp: fin_inv_def)
  have m: "invoice_money v \<and> row_ok db v" if "v \<in> set (fin_invoices db)" for v
    using b r that by (auto simp: base_ok_def rows_ok_def list_all_iff)
  have "base_ok (update_invoice env i f db)"
    using assms(3) m by (intro update_invoice_base [OF b assms(2)]) blast
  moreover have "rows_ok ({} - {i}) (update_invoice env i f db)"
    using assms(3) m by (intro update_invoice_rows [OF r assms(2)]) blast
  ultimately show ?thesis by (simp add: fin_inv_def)
qed

lemma derive_not_Draft: "deriveInvoiceStatus now s b t d w \<noteq> Draft"
  by (auto simp: deriveInvoiceStatus_def)

lemma rebalanced_id [simp]: "inv_id (rebalanced env db v) = inv_id v"
  by (simp add: rebalanced_def Let_def)

lemma rebalanced_row:
  assumes "base_ok db" "v \<in> set (fin_invoices db)"
  shows "row_ok db (rebalanced env db v)" "invoice_money (rebalanced env db v)"
    "inv_balance (rebalanced env db v) = inv_total v - allocated_to db (inv_id v) - write_off_value v"
proof -
  have "invoice_money v" using assms by (auto simp: base_ok_def list_all_iff)
  moreover from this have "is_money (inv_total v - allocated_to db (inv_id v) - write_off_value v)"
    by (intro is_money_arith money_allocated_to [OF assms(1)]) (auto simp: invoice_money_def)
  ultimately show "row_ok db (rebalanced env db v)" "invoice_money (rebalanced env db v)"
    "inv_balance (rebalanced env db v) = inv_total v - allocated_to db (inv_id v) - write_off_value v"
    by (auto simp: rebalanced_def row_ok_def invoice_money_def write_off_value_def Let_def derive_not_Draft)
qed

lemma recalculate_ok:
  assumes "base_ok db" "rows_ok S db" "recalculateBalance env i db = Inr db'"
  shows "base_ok db'" "rows_ok (S - {i}) db'" "fin_allocations db' = fin_allocations db"
    "fin_payments db' = fin_payments db" "fin_refunds db' = fin_refunds db"
proof -
  have db': "db' = update_invoice env i (rebalanced env db) db"
    using assms(3) by (auto simp: recalculateBalance_def split: option.splits)
  have "base_ok (update_invoice env i (rebalanced env db) db)"
    by (rule update_invoice_base [OF assms(1)]) (simp_all add: rebalanced_row(2) [OF assms(1)] rebalanced_id)
  then show "base_ok db'" by (simp only: db')
  have "rows_ok (S - {i}) (update_invoice env i (rebalanced env db) db)"
    by (rule update_invoice_rows [OF assms(2)]) (simp_all add: rebalanced_row(1) [OF assms(1)] rebalanced_id)
  then show "rows_ok (S - {i}) db'" by (simp only: db')
qed (use assms(3) in \<open>auto simp: recalculateBalance_def split: option.splits\<close>)

section \<open>Operations on one invoice\<close>

lemma fin_invE:
  assumes "fin_inv db" "v \<in> set (fin_invoices db)"
  shows "invoice_money v" "row_ok db v"
  using assms by (auto simp: fin_inv_def base_ok_def rows_ok_def list_all_iff)

lemma find_invoice_unique:
  "fin_inv db \<Longrightarrow> find_invoice db i = Some v \<Longrightarrow> w \<in> set (fin_invoices db) \<Longrightarrow> inv_id w = i \<Longrightarrow> w = v"
  by (metis base_ok_def fin_inv_def find_row_SomeD ids_ok_def unique_same_row)

lemma update_invoice_only:
  \<comment> \<open>an update of the row that a guard has read\<close>
  assumes "fin_inv db" "find_invoice db i = Some v" "\<And>w. inv_id (f w) = inv_id w"
    and "invoice_money v \<Longrightarrow> row_ok db v \<Longrightarrow> invoice_money (f v) \<and> row_ok db (f v)"
  shows "fin_inv (update_invoice env i f db)"
proof (rule update_invoice_inv [OF assms(1,3)])
  fix w assume "w \<in> set (fin_invoices db)" "inv_id w = i" "invoice_money w" "row_ok db w"
  moreover from this have "w = v" by (auto intro: find_invoice_unique [OF assms(1,2)])
  ultimately show "invoice_money (f w) \<and> row_ok db (f w)" using assms(4) by simp
qed

lemma status_only_row:
  \<comment> \<open>a change of status that does not make a draft\<close>
  "row_ok db v \<Longrightarrow> inv_id w = inv_id v \<Longrightarrow> inv_balance w = inv_balance v \<Longrightarrow> inv_total w = inv_total v \<Longrightarrow>
   inv_write_off_amount w = inv_write_off_amount v \<Longrightarrow> inv_status w \<noteq> Draft \<Longrightarrow> row_ok db w"
  "invoice_money v \<Longrightarrow> inv_total w = inv_total v \<Longrightarrow> inv_write_off_amount w = inv_write_off_amount v \<Longrightarrow> invoice_money w"
  by (auto simp: row_ok_def write_off_value_def invoice_money_def)

lemma void_inv: "fin_inv db \<Longrightarrow> voidInvoice env i db = Inr db' \<Longrightarrow> fin_inv db'"
  by (auto simp: voidInvoice_def split: option.splits if_splits intro!: update_invoice_only elim: status_only_row)

lemma fin_inv_approvals [simp]: "fin_inv (db\<lparr>fin_approvals := ap\<rparr>) = fin_inv db"
  by (rule base_ok_frame) simp_all

lemma find_invoice_approvals [simp]: "find_invoice (db\<lparr>fin_approvals := ap\<rparr>) i = find_invoice db i"
  by simp

lemma issue_inv: "fin_inv db \<Longrightarrow> issue_invoice env rid i u auth db = Inr db' \<Longrightarrow> fin_inv db'"
  by (auto simp: issue_invoice_def set_issued_def split: option.splits if_splits prod.splits sum.splits approval_check.splits
      intro!: update_invoice_only elim: status_only_row)

lemma cancel_inv: "fin_inv db \<Longrightarrow> cancel_invoice env i u db = Inr db' \<Longrightarrow> fin_inv db'"
  by (auto simp: cancel_invoice_def Let_def split: option.splits if_splits prod.splits sum.splits
      intro!: update_invoice_only elim: status_only_row)

lemma writeOff_inv:
  assumes "fin_inv db" "find_invoice db i = Some v" "inv_write_off_amount v = None" "writeOff env i r db = Inr db'"
  shows "fin_inv db'"
proof -
  let ?f = "\<lambda>v. v\<lparr>inv_status := Written_off, inv_write_off_amount := Some (inv_balance v), inv_write_off_reason := Some r, inv_balance := 0\<rparr>"
  have v: "invoice_money v" "row_ok db v" using fin_invE [OF assms(1)] assms(2) find_row_SomeD by metis+
  have "is_money (inv_balance v)"
    using v money_allocated_to assms(1) by (auto simp: row_ok_def invoice_money_def fin_inv_def)
  with v assms(3) have "invoice_money (?f v) \<and> row_ok db (?f v)"
    by (auto simp: row_ok_def invoice_money_def write_off_value_def)
  then have "fin_inv (update_invoice env i ?f db)" by (intro update_invoice_only [OF assms(1,2)]) auto
  with assms(2,4) show ?thesis by (auto simp: writeOff_def split: if_splits)
qed

lemma update_draft_inv:
  assumes "fin_inv db" "update_draft env i ls due ex db = Inr db'"
  shows "fin_inv db'"
proof -
  obtain v where v: "find_invoice db i = Some v" "inv_status v = Draft"
    using assms(2) by (auto simp: update_draft_def split: option.splits if_splits)
  have m: "is_money (lines_total l)" for l by (simp add: lines_total_def)
  have none: "allocated_to db (inv_id v) = 0" if "row_ok db v" for db
    using that v(2) by (auto simp: row_ok_def allocated_to_def intro!: sum_list_0 [THEN arg_cong, of \<open>\<lambda>_. _\<close>, THEN fun_cong])
       (metis (mono_tags, lifting) filter_False image_eqI list.simps(8) sum_list.Nil)
  show ?thesis
  proof (cases ls)
    case None
    with assms v show ?thesis
      by (auto simp: update_draft_def split: option.splits if_splits intro!: update_invoice_only
          simp: row_ok_def invoice_money_def write_off_value_def)
  next
    case (Some l)
    let ?db = "db\<lparr>fin_lines := filter (\<lambda>l. il_invoice_id l \<noteq> i) (fin_lines db) @ map (line_of i) l\<rparr>"
    let ?f = "\<lambda>v. v\<lparr>inv_subtotal := lines_total l, inv_total := lines_total l, inv_balance := lines_total l,
                 inv_due_date := (case due of None \<Rightarrow> inv_due_date v | Some d \<Rightarrow> d)\<rparr>"
    have inv: "fin_inv ?db" using assms(1) by (subst base_ok_frame(3) [of ?db db]) simp_all
    have "invoice_money (?f v) \<and> row_ok ?db (?f v)" if "row_ok ?db v"
      using that none [OF that] v(2) m by (auto simp: row_ok_def invoice_money_def write_off_value_def)
    then have "fin_inv (update_invoice env i ?f ?db)" using v(1) by (intro update_invoice_only [OF inv]) auto
    with Some assms(2) v show ?thesis by (auto simp: update_draft_def split: if_splits)
  qed
qed

lemma set_issued_inv: "fin_inv db \<Longrightarrow> find_invoice db i = Some v \<Longrightarrow> fin_inv (update_invoice env i (set_issued env) db)"
  by (rule update_invoice_only) (auto simp: set_issued_def elim: status_only_row)

lemma callback_inv: "fin_inv db \<Longrightarrow> invoice_approval_callback env rid i db = Inr db' \<Longrightarrow> fin_inv db'"
  by (auto simp: invoice_approval_callback_def touch_request_def set_issued_inv split: option.splits if_splits)

lemma late_fee_inv:
  assumes "fin_inv db" "applyLateFee env i cid db = Inr db'"
  shows "fin_inv db'"
proof -
  obtain v c where v: "find_invoice db i = Some v" "isPayableStatus (inv_status v)" and c: "find_config cid db = Some c"
    using assms(2) by (auto simp: applyLateFee_def split: option.splits if_splits)
  let ?fee = "late_fee_amount c v"
  let ?f = "\<lambda>v. v\<lparr>inv_total := roundMoney (inv_total v + ?fee), inv_balance := roundMoney (inv_balance v + ?fee)\<rparr>"
  obtain xs ys where db': "db' = update_invoice env i ?f (db\<lparr>fin_late_fees := xs, fin_lines := ys\<rparr>)"
    using assms(2) v c by (auto simp: applyLateFee_def Let_def split: if_splits)
  let ?db = "db\<lparr>fin_late_fees := xs, fin_lines := ys\<rparr>"
  have inv: "fin_inv ?db" using assms(1) by (subst base_ok_frame(3) [of ?db db]) simp_all
  have fee: "is_money ?fee" by (simp add: late_fee_amount_def split: late_fee_type.splits)
  have "invoice_money (?f v) \<and> row_ok ?db (?f v)" if m: "invoice_money v" and r: "row_ok ?db v"
  proof -
    have "is_money (inv_balance v)"
      using m r money_allocated_to [of ?db] inv by (auto simp: row_ok_def invoice_money_def fin_inv_def)
    with fee m have "is_money (inv_total v + ?fee)" "is_money (inv_balance v + ?fee)" by (auto simp: invoice_money_def)
    with m r v(2) show ?thesis
      by (auto simp: row_ok_def invoice_money_def write_off_value_def isPayableStatus_def PAYABLE_INVOICE_STATUSES_def)
  qed
  then have "fin_inv (update_invoice env i ?f ?db)" using v(1) by (intro update_invoice_only [OF inv]) auto
  with db' show ?thesis by simp
qed

end
