(* ===== verification/Finance_Moves.thy ===== *)
theory Finance_Moves
  imports Finance_Ledger
begin

text \<open>
  The operations that add rows or move money between them - new invoices, payments and refunds, allocations, the
  Stripe webhook - keep the ledger invariant of \<open>Finance_Ledger\<close>.
\<close>

section \<open>New rows\<close>

lemma invoice_added:
  assumes "base_ok db" "rows_ok S db" "inv_id v \<notin> inv_id ` set (fin_invoices db)" "invoice_money v"
    "inv_balance v = inv_total v - write_off_value v" "inv_status v = Draft \<Longrightarrow> inv_write_off_amount v = None"
    and db': "fin_invoices db' = fin_invoices db @ [v]" "fin_allocations db' = fin_allocations db"
    "fin_next_allocation db' = fin_next_allocation db" "fin_payments db' = fin_payments db" "fin_refunds db' = fin_refunds db"
  shows "base_ok db'" "rows_ok S db'"
proof -
  have aok: "allocation_ok db a" if "a \<in> set (fin_allocations db)" for a using assms(1) that by (auto simp: base_ok_def list_all_iff)
  then have "list_all (allocation_ok db') (fin_allocations db')" by (auto simp: allocation_ok_def list_all_iff db')
  moreover have "payment_ok db' = payment_ok db" "refund_ok db' = refund_ok db"
    by (auto simp: fun_eq_iff payment_ok_def refund_ok_def allocated_from_def allocations_of_def refund_total_def refunds_of_def db')
  ultimately show "base_ok db'"
    using assms by (auto simp: base_ok_def ids_ok_def keys_unique_snoc)
  have fresh: "inv_id v \<notin> al_invoice_id ` set (fin_allocations db)" using aok assms(3) by (auto simp: allocation_ok_def)
  then have "allocated_to db (inv_id v) = 0"
    by (auto simp: allocated_to_def) (metis (mono_tags, lifting) filter_False image_eqI list.simps(8) sum_list.Nil)
  with fresh assms have "row_ok db v" by (auto simp: row_ok_def)
  with assms(2) show "rows_ok S db'"
    by (simp add: rows_ok_def list_all_iff db' row_ok_frame [of db' db])
qed

lemma create_invoice_inv:
  assumes "fin_inv db" "i \<notin> inv_id ` set (fin_invoices db)" "create_invoice env i u h due ls db = Inr (v, db')"
  shows "fin_inv db'"
proof -
  obtain n db1 where nn: "nextNumber ''invoice'' (case fe_invoice_prefix env of None \<Rightarrow> ''INV'' | Some p \<Rightarrow> p) db = (n, db1)"
    by fastforce
  note fr = nextNumber_frame [OF nn]
  have v: "inv_id v = i" "invoice_money v" "inv_balance v = inv_total v - write_off_value v" "inv_write_off_amount v = None"
      and db': "fin_invoices db' = fin_invoices db @ [v]" "fin_allocations db' = fin_allocations db"
        "fin_next_allocation db' = fin_next_allocation db" "fin_payments db' = fin_payments db" "fin_refunds db' = fin_refunds db"
    using assms(3) nn fr by (auto simp: create_invoice_def Let_def invoice_money_def write_off_value_def lines_total_def split: if_splits)
  show ?thesis unfolding fin_inv_def
    by (intro conjI invoice_added(1,2) [OF _ _ _ v(2,3) _ db'])
      (use assms(1,2) v in \<open>auto simp: fin_inv_def\<close>)
qed

lemma sum_filter_none: "(\<And>x. x \<in> set xs \<Longrightarrow> \<not> P x) \<Longrightarrow> sum_list (map f (filter P xs)) = 0"
  by (induction xs) auto

lemma payment_added:
  assumes "base_ok db" "rows_ok S db" "pay_id x \<notin> pay_id ` set (fin_payments db)" "is_money (pay_amount x)" "0 \<le> pay_amount x"
    and db': "fin_invoices db' = fin_invoices db" "fin_allocations db' = fin_allocations db"
    "fin_next_allocation db' = fin_next_allocation db" "fin_payments db' = fin_payments db @ [x]" "fin_refunds db' = fin_refunds db"
  shows "base_ok db'" "rows_ok S db'"
proof -
  have a: "allocation_ok db a" if "a \<in> set (fin_allocations db)" for a using assms(1) that by (auto simp: base_ok_def list_all_iff)
  have r: "refund_ok db r" if "r \<in> set (fin_refunds db)" for r using assms(1) that by (auto simp: base_ok_def list_all_iff)
  have na: "al_payment_id b \<noteq> pay_id x" if "b \<in> set (fin_allocations db)" for b
    using a [OF that] assms(3) by (metis allocation_ok_def)
  have nr: "rf_payment_id b \<noteq> pay_id x" if "b \<in> set (fin_refunds db)" for b
    using r [OF that] assms(3) by (metis refund_ok_def)
  have "allocated_from db' (pay_id x) = 0" "refund_total counted db' (pay_id x) = 0"
    unfolding allocated_from_alt refund_total_alt allocations_of_def refunds_of_def filter_filter db'
    by (rule sum_filter_none, use na nr in blast)+
  then have "payment_ok db' x" using assms by (auto simp: payment_ok_def)
  moreover have "payment_ok db' = payment_ok db"
    by (auto simp: fun_eq_iff payment_ok_def allocated_from_def allocations_of_def refund_total_def refunds_of_def db')
  moreover have "list_all (allocation_ok db') (fin_allocations db')" using a by (auto simp: allocation_ok_def list_all_iff db')
  moreover have "list_all (refund_ok db') (fin_refunds db')" using r by (auto simp: refund_ok_def list_all_iff db')
  ultimately show "base_ok db'" using assms by (auto simp: base_ok_def ids_ok_def keys_unique_snoc)
  show "rows_ok S db'" using assms(2) by (simp add: rows_ok_def db' row_ok_frame [of db' db] list_all_iff)
qed

lemma money_nonneg_numeric2: "0 \<le> a \<Longrightarrow> 0 \<le> numeric2 a"
  by (simp add: numeric2_def roundMoney_def js_round_def)

lemma createManual_inv:
  assumes "fin_inv db" "p \<notin> pay_id ` set (fin_payments db)" "0 \<le> a" "createManual env p u h m a t r db = Inr db'"
  shows "fin_inv db'"
proof -
  obtain n db1 where nn: "nextNumber ''payment'' ''PAYREF'' db = (n, db1)" by fastforce
  note fr = nextNumber_frame [OF nn]
  define x where "x = last (fin_payments db')"
  have x: "pay_id x = p" "pay_amount x = numeric2 a" "fin_payments db' = fin_payments db @ [x]"
      and db': "fin_invoices db' = fin_invoices db" "fin_allocations db' = fin_allocations db"
        "fin_next_allocation db' = fin_next_allocation db" "fin_refunds db' = fin_refunds db"
    using assms(4) nn fr by (auto simp: createManual_def x_def split: if_splits)
  show ?thesis unfolding fin_inv_def
    by (intro conjI payment_added(1,2) [of db _ x db'])
      (use assms(1-3) x db' in \<open>auto simp: fin_inv_def money_nonneg_numeric2\<close>)
qed

section \<open>Refund rows\<close>

lemma roundMoney_mono: "v \<le> w \<Longrightarrow> roundMoney v \<le> roundMoney w"
  by (simp add: roundMoney_def divide_right_mono js_round_mono)

lemma numeric2_le_money: "0 \<le> a \<Longrightarrow> is_money m \<Longrightarrow> a \<le> m \<Longrightarrow> numeric2 a \<le> m"
  using roundMoney_mono [of a m] by (simp add: numeric2_def)

lemma is_money_hundredth [simp]: "is_money (1 / 100)"
  using is_money_cents [of 1] by (simp add: cents_def)

lemma create_refund_inv:
  assumes "fin_inv db" "r \<notin> rf_id ` set (fin_refunds db)" "0 \<le> a" "create_refund env r u p a reason db = Inr db'"
  shows "fin_inv db'"
proof -
  obtain pay where pay: "find_payment db p = Some pay" and le: "a \<le> roundMoney (pay_amount pay - refund_total counted db p) + 1 / 100"
    using assms(4) by (auto simp: create_refund_def Let_def split: option.splits if_splits)
  define pre where "pre = (if truthy (fe_receipt_prefix env) then ''REF-'' @ the (fe_receipt_prefix env) else ''REF'')"
  obtain n db1 where nn: "nextNumber ''refund'' pre db = (n, db1)" by fastforce
  note fr = nextNumber_frame [OF nn]
  define x where "x = last (fin_refunds db')"
  have x: "rf_id x = r" "rf_payment_id x = p" "rf_amount x = numeric2 a" "rf_status x = Ref_pending_approval"
      "fin_refunds db' = fin_refunds db @ [x]"
      and db': "fin_invoices db' = fin_invoices db" "fin_allocations db' = fin_allocations db"
        "fin_next_allocation db' = fin_next_allocation db" "fin_payments db' = fin_payments db"
    using assms(4) pay nn fr
    by (auto simp: create_refund_def Let_def x_def simp flip: pre_def split: if_splits)
  have b: "base_ok db" using assms(1) by (simp add: fin_inv_def)
  have pin: "pay \<in> set (fin_payments db)" "pay_id pay = p" using find_row_SomeD [OF pay] by auto
  have m: "is_money (pay_amount pay)" using b pin by (auto simp: base_ok_def payment_ok_def list_all_iff)
  have "numeric2 a \<le> pay_amount pay - refund_total counted db p + 1 / 100"
    using le roundMoney_id [OF is_money_arith(2) [OF m money_refund_total [OF b]]]
    by (intro numeric2_le_money assms(3) is_money_arith m money_refund_total [OF b]) simp_all
  moreover have tot: "refund_total counted db' q = refund_total counted db q + (if q = p then numeric2 a else 0)" for q
    by (simp add: refund_total_alt refunds_of_def x counted_def)
  ultimately have "payment_ok db' y" if y: "y \<in> set (fin_payments db)" for y
  proof -
    have "payment_ok db y" using b y by (auto simp: base_ok_def list_all_iff)
    moreover have "y = pay" if "pay_id y = p"
      using b y pin that unique_same_row [of pay_id "fin_payments db" y pay] by (auto simp: base_ok_def ids_ok_def)
    ultimately show ?thesis
      using tot [of "pay_id y"] \<open>numeric2 a \<le> _\<close> by (auto simp: payment_ok_def allocated_from_def allocations_of_def db')
  qed
  moreover have "refund_ok db' x" using x pin assms(3) db' by (force simp: refund_ok_def money_nonneg_numeric2)
  moreover have "refund_ok db' = refund_ok db" "allocation_ok db' = allocation_ok db"
    by (auto simp: fun_eq_iff refund_ok_def allocation_ok_def db')
  ultimately have "base_ok db'"
    using b assms(2) x by (auto simp: base_ok_def ids_ok_def keys_unique_snoc list_all_iff db')
  moreover have "rows_ok {} db'"
    using assms(1) by (simp add: fin_inv_def rows_ok_def db' row_ok_frame [of db' db] list_all_iff)
  ultimately show ?thesis by (simp add: fin_inv_def)
qed

lemma sum_update_row_le:
  fixes g :: "'r \<Rightarrow> rat"
  assumes "\<And>r. r \<in> set rs \<Longrightarrow> key r = i \<Longrightarrow> P (f r) \<Longrightarrow> P r \<and> g (f r) \<le> g r" "\<And>r. r \<in> set rs \<Longrightarrow> 0 \<le> g r"
  shows "sum_list (map g (filter P (update_row key i f rs))) \<le> sum_list (map g (filter P rs))"
  using assms by (induction rs) (auto simp: update_row_def add_mono add_increasing2 split: if_splits intro: order_trans)

lemma update_refund_base:
  assumes "base_ok db"
    and keep: "\<And>x. rf_id (f x) = rf_id x \<and> rf_payment_id (f x) = rf_payment_id x \<and> rf_amount (f x) = rf_amount x \<and>
           rf_requested_by (f x) = rf_requested_by x"
    and live: "\<And>x. x \<in> set (fin_refunds db) \<Longrightarrow> rf_id x = r \<Longrightarrow> counted (rf_status (f x)) \<Longrightarrow> counted (rf_status x)"
    and eyes: "\<And>x. x \<in> set (fin_refunds db) \<Longrightarrow> rf_id x = r \<Longrightarrow> refund_ok db x \<Longrightarrow> refund_ok db (f x)"
  shows "base_ok (update_refund r f db)"
proof -
  let ?db = "update_refund r f db"
  have fr: "fin_invoices ?db = fin_invoices db" "fin_payments ?db = fin_payments db" "fin_allocations ?db = fin_allocations db"
    "fin_next_allocation ?db = fin_next_allocation db" "fin_refunds ?db = update_row rf_id r f (fin_refunds db)"
    by (simp_all add: update_refund_def)
  have nonneg: "0 \<le> rf_amount x" if "x \<in> set (fin_refunds db)" for x
    using assms(1) that by (auto simp: base_ok_def refund_ok_def list_all_iff)
  have "refund_total counted ?db p \<le> refund_total counted db p" for p
    unfolding refund_total_alt refunds_of_def filter_filter fr
    by (rule sum_update_row_le) (use keep live nonneg in auto)
  then have "payment_ok ?db y" if "payment_ok db y" for y
    using that by (auto simp: payment_ok_def allocated_from_def allocations_of_def fr intro: order_trans)
  moreover have "allocation_ok ?db = allocation_ok db" "refund_ok ?db = refund_ok db"
    by (auto simp: fun_eq_iff allocation_ok_def refund_ok_def fr)
  moreover have "list_all (refund_ok db) (fin_refunds ?db)"
    unfolding fr using assms(1) eyes by (intro list_all_update_row) (auto simp: base_ok_def)
  ultimately show ?thesis
    using assms(1) keep by (auto simp: base_ok_def ids_ok_def fr keys_unique_update list_all_iff)
qed

lemma update_refund_rows: "rows_ok S (update_refund r f db) = rows_ok S db"
  by (simp add: rows_ok_def update_refund_def row_ok_frame [of "update_refund r f db" db] row_ok_def allocated_to_def)

lemma refund_here: "base_ok db \<Longrightarrow> find_refund db r = Some x \<Longrightarrow> y \<in> set (fin_refunds db) \<Longrightarrow> rf_id y = r \<Longrightarrow> y = x"
  by (metis base_ok_def find_row_SomeD ids_ok_def unique_same_row)

lemma approve_refund_inv:
  assumes "fin_inv db" "approve_refund r u db = Inr db'"
  shows "fin_inv db'"
proof -
  obtain x where x: "find_refund db r = Some x" "rf_requested_by x \<noteq> u" "rf_status x = Ref_pending_approval"
      and db': "db' = update_refund r (\<lambda>x. x\<lparr>rf_status := Ref_approved, rf_approved_by := Some u\<rparr>) db"
    using assms(2) by (auto simp: approve_refund_def split: option.splits if_splits)
  have b: "base_ok db" and w: "rows_ok {} db" using assms(1) by (auto simp: fin_inv_def)
  have "base_ok db'" unfolding db'
    by (rule update_refund_base [OF b]) (use x refund_here [OF b x(1)] in \<open>auto simp: counted_def refund_ok_def\<close>)
  with w show ?thesis by (simp add: fin_inv_def db' update_refund_rows)
qed

lemma reject_refund_inv:
  assumes "fin_inv db" "reject_refund r u c db = Inr db'"
  shows "fin_inv db'"
proof -
  obtain x where x: "find_refund db r = Some x" "rf_status x = Ref_pending_approval"
      and db': "db' = update_refund r (\<lambda>x. x\<lparr>rf_status := Ref_rejected, rf_approved_by := Some u, rf_failure_reason := Some c\<rparr>) db"
    using assms(2) by (auto simp: reject_refund_def split: option.splits if_splits)
  have b: "base_ok db" and w: "rows_ok {} db" using assms(1) by (auto simp: fin_inv_def)
  have "base_ok db'" unfolding db'
    by (rule update_refund_base [OF b]) (use x refund_here [OF b x(1)] in \<open>auto simp: counted_def refund_ok_def\<close>)
  with w show ?thesis by (simp add: fin_inv_def db' update_refund_rows)
qed

end
