(* ===== verification/Finance_Allocations.thy ===== *)
theory Finance_Allocations
  imports Finance_Moves
begin

text \<open>
  Allocations: confirming allocations, the Stripe webhook and the overdue job keep the ledger invariant, and a
  confirmation succeeds whenever its checks do.
\<close>

section \<open>New allocations\<close>

lemma add_allocations_frame [simp, fin_frames]:
  "fin_invoices (add_allocations p as db) = fin_invoices db" "fin_payments (add_allocations p as db) = fin_payments db"
  "fin_refunds (add_allocations p as db) = fin_refunds db" "fin_receipts (add_allocations p as db) = fin_receipts db"
  by (induction p as db rule: add_allocations.induct) auto

lemma add_allocations_news:
  obtains news where "fin_allocations (add_allocations p as db) = fin_allocations db @ news"
    "map al_invoice_id news = map fst as" "map al_amount news = map (numeric2 \<circ> snd) as" "list_all (\<lambda>a. al_payment_id a = p) news"
    "map al_id news = [fin_next_allocation db ..< fin_next_allocation db + length as]"
    "fin_next_allocation (add_allocations p as db) = fin_next_allocation db + length as"
proof -
  have "\<exists>news. fin_allocations (add_allocations p as db) = fin_allocations db @ news \<and>
    map al_invoice_id news = map fst as \<and> map al_amount news = map (numeric2 \<circ> snd) as \<and> list_all (\<lambda>a. al_payment_id a = p) news \<and>
    map al_id news = [fin_next_allocation db ..< fin_next_allocation db + length as] \<and>
    fin_next_allocation (add_allocations p as db) = fin_next_allocation db + length as"
  proof (induction p as db rule: add_allocations.induct)
    case (2 p i a as db)
    let ?n = "\<lparr>al_id = fin_next_allocation db, al_payment_id = p, al_invoice_id = i, al_amount = numeric2 a\<rparr>"
    from 2 obtain news where "fin_allocations (add_allocations p as (add_allocation p i a db)) = fin_allocations (add_allocation p i a db) @ news"
      "map al_invoice_id news = map fst as" "map al_amount news = map (numeric2 \<circ> snd) as" "list_all (\<lambda>a. al_payment_id a = p) news"
      "map al_id news = [Suc (fin_next_allocation db) ..< Suc (fin_next_allocation db) + length as]"
      "fin_next_allocation (add_allocations p as (add_allocation p i a db)) = Suc (fin_next_allocation db) + length as"
      by (auto simp: add_allocation_def)
    then show ?case by (intro exI [of _ "?n # news"]) (auto simp: add_allocation_def upt_rec)
  qed auto
  then show thesis using that by blast
qed

definition news_ok :: "fin_db \<Rightarrow> string \<Rightarrow> allocation list \<Rightarrow> fin_db \<Rightarrow> bool" where
  \<comment> \<open>\<open>db'\<close> is \<open>db\<close> with new allocations of one payment, within its amount\<close>
  "news_ok db p news db' \<longleftrightarrow>
     fin_invoices db' = fin_invoices db \<and> fin_payments db' = fin_payments db \<and> fin_refunds db' = fin_refunds db \<and>
     fin_allocations db' = fin_allocations db @ news \<and>
     map al_id news = [fin_next_allocation db ..< fin_next_allocation db + length news] \<and>
     fin_next_allocation db' = fin_next_allocation db + length news \<and>
     list_all (\<lambda>a. is_money (al_amount a) \<and> 0 \<le> al_amount a \<and> al_payment_id a = p \<and>
       al_invoice_id a \<in> inv_id ` set (fin_invoices db)) news \<and>
     (\<exists>x. find_payment db p = Some x \<and> allocated_from db p + sum_list (map al_amount news) \<le> pay_amount x + 1 / 100)"

lemma allocated_from_append:
  "fin_allocations db' = fin_allocations db @ news \<Longrightarrow>
   allocated_from db' q = allocated_from db q + sum_list (map al_amount (filter (\<lambda>a. al_payment_id a = q) news))"
  by (simp add: allocated_from_alt allocations_of_def)

lemma allocated_to_append:
  "fin_allocations db' = fin_allocations db @ news \<Longrightarrow>
   allocated_to db' i = allocated_to db i + sum_list (map al_amount (filter (\<lambda>a. al_invoice_id a = i) news))"
  by (simp add: allocated_to_def)

lemma allocations_added:
  assumes "base_ok db" "rows_ok S db" "news_ok db p news db'"
  shows "base_ok db'" "rows_ok (S \<union> al_invoice_id ` set news) db'"
proof -
  obtain x where x: "find_payment db p = Some x" and cap: "allocated_from db p + sum_list (map al_amount news) \<le> pay_amount x + 1 / 100"
    using assms(3) by (auto simp: news_ok_def)
  have xp: "x \<in> set (fin_payments db)" "pay_id x = p" using find_row_SomeD [OF x] by auto
  have eq: "fin_invoices db' = fin_invoices db" "fin_payments db' = fin_payments db" "fin_refunds db' = fin_refunds db"
    "fin_allocations db' = fin_allocations db @ news" "fin_next_allocation db' = fin_next_allocation db + length news"
    and ids: "map al_id news = [fin_next_allocation db ..< fin_next_allocation db + length news]"
    and new: "list_all (\<lambda>a. is_money (al_amount a) \<and> 0 \<le> al_amount a \<and> al_payment_id a = p \<and>
       al_invoice_id a \<in> inv_id ` set (fin_invoices db)) news"
    using assms(3) by (auto simp: news_ok_def)
  have old: "allocation_ok db a" if "a \<in> set (fin_allocations db)" for a using assms(1) that by (auto simp: base_ok_def list_all_iff)
  have idset: "al_id ` set news = {fin_next_allocation db ..< fin_next_allocation db + length news}"
    using arg_cong [OF ids, of set] by simp
  have "allocation_ok db' a" if "a \<in> set (fin_allocations db')" for a
  proof (cases "a \<in> set news")
    case True
    then have "al_id a \<in> al_id ` set news" by blast
    with True new xp idset show ?thesis by (auto simp: allocation_ok_def list_all_iff eq)
  next
    case False
    with that have "allocation_ok db a" using old by (simp add: eq)
    then show ?thesis by (simp add: allocation_ok_def eq)
  qed
  moreover have "payment_ok db' y" if y: "y \<in> set (fin_payments db)" for y
  proof -
    have oky: "payment_ok db y" using assms(1) y by (auto simp: base_ok_def list_all_iff)
    have "y = x" if "pay_id y = p"
      using assms(1) y xp that unique_same_row [of pay_id "fin_payments db" y x] by (auto simp: base_ok_def ids_ok_def)
    moreover have "filter (\<lambda>a. al_payment_id a = q) news = (if q = p then news else [])" for q
      using new by (induction news) (auto simp: list_all_iff)
    ultimately show ?thesis
      using oky cap xp by (auto simp: payment_ok_def allocated_from_append [OF eq(4)] refund_total_def refunds_of_def eq(3))
  qed
  moreover have "distinct (map al_id (fin_allocations db'))"
  proof -
    have "al_id a < fin_next_allocation db" if "a \<in> set (fin_allocations db)" for a using old [OF that] by (simp add: allocation_ok_def)
    then have "al_id ` set (fin_allocations db) \<subseteq> {..< fin_next_allocation db}" by auto
    moreover have "{..< n} \<inter> {n ..< n + k} = {}" for n k :: nat by auto
    ultimately have "al_id ` set (fin_allocations db) \<inter> al_id ` set news = {}" unfolding idset by blast
    moreover have "distinct (map al_id news)" unfolding ids by simp
    ultimately show ?thesis using assms(1) by (simp add: base_ok_def ids_ok_def eq(4))
  qed
  moreover have "refund_ok db' = refund_ok db" by (auto simp: fun_eq_iff refund_ok_def eq)
  ultimately show "base_ok db'" using assms(1) by (auto simp: base_ok_def ids_ok_def list_all_iff eq(1-3))
  have "row_ok db' v" if "row_ok db v" "inv_id v \<notin> al_invoice_id ` set news" for v
  proof -
    have "al_invoice_id a \<noteq> inv_id v" if "a \<in> set news" for a using that \<open>inv_id v \<notin> _\<close> by (metis image_eqI)
    then have "filter (\<lambda>a. al_invoice_id a = inv_id v) news = []" by (simp add: filter_empty_conv)
    with that show ?thesis by (auto simp: row_ok_def allocated_to_append [OF eq(4)] eq(4))
  qed
  with assms(2) show "rows_ok (S \<union> al_invoice_id ` set news) db'" by (auto simp: rows_ok_def list_all_iff eq(1))
qed

section \<open>Recalculation of several invoices\<close>

lemma recalculate_Inr: "i \<in> inv_id ` set (fin_invoices db) \<Longrightarrow> \<exists>db'. recalculateBalance env i db = Inr db'"
  by (cases "find_invoice db i") (auto simp: recalculateBalance_def find_row_None_iff)

lemma recalculate_ids: "recalculateBalance env i db = Inr db' \<Longrightarrow> map inv_id (fin_invoices db') = map inv_id (fin_invoices db)"
  by (auto simp: recalculateBalance_def update_invoice_def update_row_keys split: option.splits)

lemma recalculate_all_ok:
  assumes "base_ok db" "rows_ok S db" "recalculate_all env is db = Inr db'"
  shows "base_ok db' \<and> rows_ok (S - set is) db' \<and> fin_allocations db' = fin_allocations db \<and> fin_payments db' = fin_payments db \<and>
    fin_refunds db' = fin_refunds db \<and> map inv_id (fin_invoices db') = map inv_id (fin_invoices db)"
  using assms
proof (induction env "is" db arbitrary: S rule: recalculate_all.induct)
  case (2 env i "is" db)
  then obtain db1 where db1: "recalculateBalance env i db = Inr db1" "recalculate_all env is db1 = Inr db'" by (auto split: sum.splits)
  note ok = recalculate_ok [OF 2(2,3) db1(1)]
  from 2(1) [OF db1(1) ok(1,2) db1(2)] ok(3-5) recalculate_ids [OF db1(1)]
  show ?case by (simp add: Diff_insert2 [of S i "set is"])
qed auto

lemma recalculate_all_Inr:
  assumes "base_ok db" "rows_ok S db" "set is \<subseteq> inv_id ` set (fin_invoices db)"
  shows "\<exists>db'. recalculate_all env is db = Inr db'"
  using assms
proof (induction env "is" db arbitrary: S rule: recalculate_all.induct)
  case (2 env i "is" db)
  obtain db1 where db1: "recalculateBalance env i db = Inr db1" using recalculate_Inr 2(4) by (metis insert_subset list.set(2))
  have "set is \<subseteq> inv_id ` set (fin_invoices db1)" using 2(4) recalculate_ids [OF db1] by (metis insert_subset list.set(2) set_map)
  from 2(1) [OF db1 recalculate_ok(1,2) [OF 2(2,3) db1] this] db1 show ?case by auto
qed auto

section \<open>Confirming allocations\<close>

lemma check_allocations_ids: "check_allocations db pay as = None \<Longrightarrow> fst ` set as \<subseteq> inv_id ` set (fin_invoices db)"
  by (induction db pay as rule: check_allocations.induct) (auto split: option.splits if_splits dest!: find_row_SomeD)

definition whole_cents :: "(string \<times> rat) list \<Rightarrow> bool" where
  "whole_cents as \<longleftrightarrow> list_all (\<lambda>(i, a). is_money a \<and> 0 < a) as"

lemma whole_cents_sum:
  assumes "whole_cents as"
  shows "map (numeric2 \<circ> snd) as = map snd as" "foldl (\<lambda>s (i, a). s + a) 0 as = sum_list (map snd as)"
    "is_money (sum_list (map snd as))" "\<And>i a. (i, a) \<in> set as \<Longrightarrow> is_money a \<and> 0 < a"
proof -
  show "map (numeric2 \<circ> snd) as = map snd as" "is_money (sum_list (map snd as))"
    using assms by (induction as) (auto simp: whole_cents_def)
  have "foldl (\<lambda>s (i, a). s + a) b as = b + sum_list (map snd as)" for b
    by (induction as arbitrary: b) auto
  then show "foldl (\<lambda>s (i, a). s + a) 0 as = sum_list (map snd as)" by simp
qed (use assms in \<open>auto simp: whole_cents_def list_all_iff\<close>)

lemma confirm_news:
  assumes "fin_inv db" "whole_cents as" "find_payment db p = Some x" "check_allocations db x as = None"
    "sum_list (map snd as) \<le> roundMoney (pay_amount x - allocated_from db p) + 1 / 100"
  obtains news where "news_ok db p news (add_allocations p as db)" "map al_invoice_id news = map fst as"
    "map al_amount news = map snd as"
proof -
  note w = whole_cents_sum [OF assms(2)]
  have b: "base_ok db" using assms(1) by (simp add: fin_inv_def)
  have xp: "x \<in> set (fin_payments db)" "pay_id x = p" using find_row_SomeD [OF assms(3)] by auto
  have "is_money (pay_amount x)" using b xp by (auto simp: base_ok_def payment_ok_def list_all_iff)
  then have le: "allocated_from db p + sum_list (map snd as) \<le> pay_amount x + 1 / 100"
    using assms(5) roundMoney_id [OF is_money_arith(2) [OF _ money_allocated_from [OF b]], of "pay_amount x" p] by simp
  obtain news where news: "fin_allocations (add_allocations p as db) = fin_allocations db @ news"
    "map al_invoice_id news = map fst as" "map al_amount news = map (numeric2 \<circ> snd) as" "list_all (\<lambda>a. al_payment_id a = p) news"
    "map al_id news = [fin_next_allocation db ..< fin_next_allocation db + length as]"
    "fin_next_allocation (add_allocations p as db) = fin_next_allocation db + length as"
    by (rule add_allocations_news [of p as db])
  have am: "map al_amount news = map snd as" using news(3) w(1) by simp
  have len: "length news = length as" using arg_cong [OF am, of length] by simp
  have "al_amount a \<in> snd ` set as" "al_invoice_id a \<in> fst ` set as" if "a \<in> set news" for a
    using that arg_cong [OF am, of set] arg_cong [OF news(2), of set] by auto
  then have "is_money (al_amount a) \<and> 0 \<le> al_amount a \<and> al_invoice_id a \<in> inv_id ` set (fin_invoices db)" if "a \<in> set news" for a
    using that w(4) check_allocations_ids [OF assms(4)] by fastforce
  with news am len le assms(3) have "news_ok db p news (add_allocations p as db)" by (auto simp: news_ok_def list_all_iff)
  with news(2) am show thesis using that by blast
qed

lemma confirm_guards:
  assumes "confirmAllocations env p u as db = Inr db'" "whole_cents as"
  obtains x db1 where "find_payment db p = Some x" "pay_status x = Posted" "check_allocations db x as = None"
    "sum_list (map snd as) \<le> roundMoney (pay_amount x - allocated_from db p) + 1 / 100"
    "recalculate_all env (map fst as) (add_allocations p as db) = Inr db1"
    "db' = (if filter (\<lambda>r. rc_payment_id r = p) (fin_receipts db1) = [] then createForPayment env p (Some u) ''en'' db1 else db1)"
proof -
  obtain x where x: "find_payment db p = Some x" using assms(1) by (auto simp: confirmAllocations_def split: option.splits)
  obtain db1 where db1: "recalculate_all env (map fst as) (add_allocations p as db) = Inr db1"
    using assms(1) x by (auto simp: confirmAllocations_def Let_def split: if_splits option.splits sum.splits)
  have "pay_status x = Posted" "check_allocations db x as = None"
    "roundMoney (foldl (\<lambda>s (i, a). s + a) 0 as) \<le> roundMoney (pay_amount x - allocated_from db p) + 1 / 100"
    "db' = (if filter (\<lambda>r. rc_payment_id r = p) (fin_receipts db1) = [] then createForPayment env p (Some u) ''en'' db1 else db1)"
    using assms(1) x db1 by (auto simp: confirmAllocations_def Let_def not_less split: if_splits option.splits)
  then show thesis using that [OF x _ _ _ db1] whole_cents_sum [OF assms(2)] by simp
qed

lemma receipt_inv [simp]: "fin_inv (createForPayment env p u l db) = fin_inv db"
  by (rule base_ok_frame) simp_all

lemma confirm_inv:
  assumes "fin_inv db" "whole_cents as" "confirmAllocations env p u as db = Inr db'"
  shows "fin_inv db'"
proof -
  obtain x db1 where g: "find_payment db p = Some x" "check_allocations db x as = None"
      "sum_list (map snd as) \<le> roundMoney (pay_amount x - allocated_from db p) + 1 / 100"
      "recalculate_all env (map fst as) (add_allocations p as db) = Inr db1"
    and db': "db' = (if filter (\<lambda>r. rc_payment_id r = p) (fin_receipts db1) = [] then createForPayment env p (Some u) ''en'' db1 else db1)"
    by (rule confirm_guards [OF assms(3,2)])
  obtain news where news: "news_ok db p news (add_allocations p as db)" "map al_invoice_id news = map fst as"
    by (rule confirm_news [OF assms(1,2) g(1-3)])
  have b: "base_ok db" "rows_ok {} db" using assms(1) by (auto simp: fin_inv_def)
  have "al_invoice_id ` set news = fst ` set as" using arg_cong [OF news(2), of set] by simp
  with recalculate_all_ok [OF allocations_added [OF b news(1)] g(4)] have "fin_inv db1" by (auto simp: fin_inv_def rows_ok_def list_all_iff)
  with db' show ?thesis by simp
qed

section \<open>The Stripe webhook and the overdue job\<close>

lemma add_allocation_news:
  assumes "base_ok db" "find_payment db p = Some x" "allocated_from db p = 0" "i \<in> inv_id ` set (fin_invoices db)"
    "is_money a" "0 \<le> a" "a \<le> pay_amount x"
  shows "news_ok db p [\<lparr>al_id = fin_next_allocation db, al_payment_id = p, al_invoice_id = i, al_amount = a\<rparr>] (add_allocation p i a db)"
  using assms by (auto simp: news_ok_def add_allocation_def)

lemma checkout_inv:
  assumes "fin_inv db" "p \<notin> pay_id ` set (fin_payments db)" "handleCheckoutCompleted env p i h c intent db = Inr db'"
  shows "fin_inv db'"
proof -
  define amount where "amount = (case c of None \<Rightarrow> 0 | Some c \<Rightarrow> roundMoney (of_int c / 100))"
  show ?thesis
  proof (cases "\<not> truthy i \<or> \<not> truthy h \<or> amount \<le> 0 \<or> filter (\<lambda>x. pay_external_event_id x = Some intent) (fin_payments db) \<noteq> []")
    case True
    with assms(1,3) show ?thesis by (auto simp: handleCheckoutCompleted_def Let_def simp flip: amount_def split: if_splits)
  next
    case False
    obtain n db1 where nn: "nextNumber ''payment'' ''PAYREF'' db = (n, db1)" by fastforce
    note fr = nextNumber_frame [OF nn]
    define x where "x = \<lparr>pay_id = p, pay_household_id = the h, pay_reference = n, pay_method = Stripe_method,
                     pay_external_event_id = Some intent, pay_amount = amount, pay_currency = fe_currency env,
                     pay_status = Posted, pay_received_at = fe_now env, pay_posted_by = None, pay_reason = None\<rparr>"
    define db2 where "db2 = db1\<lparr>fin_payments := fin_payments db1 @ [x]\<rparr>"
    have money: "is_money amount" by (simp add: amount_def split: option.splits)
    have b: "base_ok db2" "rows_ok {} db2"
      using payment_added [of db "{}" x db2] assms(1,2) money False fr by (auto simp: fin_inv_def db2_def x_def)
    have fx: "find_payment db2 p = Some x" using assms(2) fr
      by (simp add: db2_def find_row_append find_row_None_iff [THEN iffD2] find_row_Cons x_def)
    have "al_payment_id a \<noteq> p" if "a \<in> set (fin_allocations db)" for a
      using assms(1,2) that unfolding fin_inv_def base_ok_def list_all_iff allocation_ok_def by metis
    then have zero: "allocated_from db2 p = 0"
      unfolding allocated_from_alt allocations_of_def db2_def by (simp add: fr sum_filter_none)
    have step: "handleCheckoutCompleted env p i h c intent db =
      (case (case find_invoice db2 (the i) of None \<Rightarrow> Inr db2 | Some v \<Rightarrow>
          if inv_balance v > 0 then recalculateBalance env (the i) (add_allocation p (the i) (roundMoney (min amount (inv_balance v))) db2)
          else Inr db2) of Inl e \<Rightarrow> Inl e | Inr db3 \<Rightarrow> Inr (createForPayment env p None ''en'' db3))"
      unfolding handleCheckoutCompleted_def Let_def nn prod.case amount_def [symmetric] x_def [symmetric] db2_def [symmetric]
      using False by simp
    have inv2: "fin_inv db2" using b by (simp add: fin_inv_def)
    show ?thesis
    proof (cases "find_invoice db2 (the i)")
      case None with step assms(3) inv2 show ?thesis by auto
    next
      case (Some v)
      note fv = find_row_SomeD [OF Some]
      show ?thesis
      proof (cases "inv_balance v > 0")
        case False with Some step assms(3) inv2 show ?thesis by auto
      next
        case True
        let ?a = "roundMoney (min amount (inv_balance v))"
        have "is_money (inv_balance v)"
          using fin_invE [OF inv2, of v] fv money_allocated_to [OF b(1)] by (auto simp: row_ok_def invoice_money_def)
        then have a: "?a = min amount (inv_balance v)" using money by (simp add: is_money_arith(3))
        have "0 \<le> ?a" "?a \<le> pay_amount x" using True False a by (auto simp: x_def)
        then have "news_ok db2 p [\<lparr>al_id = fin_next_allocation db2, al_payment_id = p, al_invoice_id = the i, al_amount = ?a\<rparr>]
            (add_allocation p (the i) ?a db2)"
          using fv image_eqI [of "the i" inv_id v] by (intro add_allocation_news [OF b(1) fx zero]) auto
        note added = allocations_added [OF b this]
        obtain db3 where db3: "recalculateBalance env (the i) (add_allocation p (the i) ?a db2) = Inr db3"
            "db' = createForPayment env p None ''en'' db3"
          using assms(3) step Some True by (auto split: sum.splits)
        from recalculate_ok [OF added db3(1)] have "fin_inv db3" by (simp add: fin_inv_def)
        with db3(2) show ?thesis by simp
      qed
    qed
  qed
qed

lemma overdue_inv:
  assumes "fin_inv db"
  shows "fin_inv (overdue_job env as_of db)"
proof -
  define cutoff where "cutoff = (case as_of of None \<Rightarrow> fe_now env | Some t \<Rightarrow> t)"
  define f where "f = (\<lambda>v. if past_due cutoff v
     then v\<lparr>inv_status := Overdue, inv_last_overdue_notified_at := Some (fe_now env), inv_updated_at := fe_now env\<rparr> else v)"
  have f: "inv_id (f v) = inv_id v" "inv_balance (f v) = inv_balance v" "inv_total (f v) = inv_total v"
    "inv_write_off_amount (f v) = inv_write_off_amount v" "f v = v \<or> inv_status (f v) = Overdue" for v
    by (auto simp: f_def)
  let ?db = "overdue_job env as_of db"
  show ?thesis
  proof (cases "fe_finance_enabled env")
    case True
    have eq: "fin_invoices ?db = map f (fin_invoices db)" "fin_allocations ?db = fin_allocations db"
      "fin_next_allocation ?db = fin_next_allocation db" "fin_payments ?db = fin_payments db" "fin_refunds ?db = fin_refunds db"
      using True by (simp_all add: overdue_job_def Let_def cutoff_def f_def)
    have ids: "map inv_id (fin_invoices ?db) = map inv_id (fin_invoices db)" by (simp add: eq(1) f(1))
    then have idset: "inv_id ` set (fin_invoices ?db) = inv_id ` set (fin_invoices db)" by (metis set_map)
    have frames: "allocation_ok ?db = allocation_ok db" "payment_ok ?db = payment_ok db" "refund_ok ?db = refund_ok db"
      using idset eq by (auto simp: fun_eq_iff allocation_ok_def payment_ok_def refund_ok_def allocated_from_def allocations_of_def
          refund_total_def refunds_of_def)
    have "invoice_money (f v) \<and> row_ok ?db (f v)" if "v \<in> set (fin_invoices db)" for v
    proof -
      have "row_ok ?db v" using fin_invE(2) [OF assms that] row_ok_frame [OF eq(2), of v] by simp
      then show ?thesis
        using fin_invE(1) [OF assms that] status_only_row(1) [of ?db v "f v"] status_only_row(2) [of v "f v"] f [of v]
        by (metis invoice_status.distinct(9))
    qed
    then have "list_all invoice_money (fin_invoices ?db)" "rows_ok {} ?db" by (auto simp: rows_ok_def list_all_iff eq(1))
    moreover have "keys_unique inv_id (fin_invoices ?db)"
      using assms unfolding keys_unique_def ids by (simp add: fin_inv_def base_ok_def ids_ok_def keys_unique_def)
    ultimately show ?thesis
      using assms frames by (simp add: fin_inv_def base_ok_def ids_ok_def eq(2-5))
  qed (simp add: overdue_job_def Let_def assms)
qed

end
