(* ===== verification/Finance_Refunds.thy ===== *)
theory Finance_Refunds
  imports Finance_Allocations
begin

text \<open>
  Refund execution: the loop that reverses the allocations of a payment from the newest on, as a function on the
  allocation list (\<open>lifo\<close>), and the proof that executing a refund keeps the ledger invariant.
\<close>

fun lifo :: "rat \<Rightarrow> allocation list \<Rightarrow> allocation list" where
  \<comment> \<open>what is left of the allocations, newest first, after taking an amount back\<close>
  "lifo remaining [] = []"
| "lifo remaining (a # as) =
     (if remaining \<le> 0 then a # as
      else if min remaining (al_amount a) \<ge> al_amount a - 1 / 100 then lifo (remaining - min remaining (al_amount a)) as
      else a\<lparr>al_amount := al_amount a - remaining\<rparr> # as)"

section \<open>Smaller allocations\<close>

definition shrunk :: "string \<Rightarrow> fin_db \<Rightarrow> fin_db \<Rightarrow> bool" where
  \<comment> \<open>\<open>db'\<close> is \<open>db\<close> with one allocation to invoice \<open>i\<close> removed or lowered\<close>
  "shrunk i db db' \<longleftrightarrow>
     fin_invoices db' = fin_invoices db \<and> fin_payments db' = fin_payments db \<and> fin_refunds db' = fin_refunds db \<and>
     fin_next_allocation db' = fin_next_allocation db \<and>
     (\<forall>b' \<in> set (fin_allocations db'). \<exists>b \<in> set (fin_allocations db). al_id b' = al_id b \<and> al_payment_id b' = al_payment_id b \<and>
        al_invoice_id b' = al_invoice_id b \<and> is_money (al_amount b') \<and> 0 \<le> al_amount b') \<and>
     distinct (map al_id (fin_allocations db')) \<and> (\<forall>q. allocated_from db' q \<le> allocated_from db q) \<and>
     (\<forall>j. j \<noteq> i \<longrightarrow> allocated_to db' j = allocated_to db j)"

lemma shrunk_ok:
  assumes "base_ok db" "rows_ok S db" "shrunk i db db'"
  shows "base_ok db'" "rows_ok (insert i S) db'"
proof -
  have eq: "fin_invoices db' = fin_invoices db" "fin_payments db' = fin_payments db" "fin_refunds db' = fin_refunds db"
    "fin_next_allocation db' = fin_next_allocation db"
    and old: "\<And>b'. b' \<in> set (fin_allocations db') \<Longrightarrow> \<exists>b \<in> set (fin_allocations db). al_id b' = al_id b \<and> al_payment_id b' = al_payment_id b \<and>
        al_invoice_id b' = al_invoice_id b \<and> is_money (al_amount b') \<and> 0 \<le> al_amount b'"
    and d: "distinct (map al_id (fin_allocations db'))" and le: "\<And>q. allocated_from db' q \<le> allocated_from db q"
    and to: "\<And>j. j \<noteq> i \<Longrightarrow> allocated_to db' j = allocated_to db j"
    using assms(3) by (auto simp: shrunk_def)
  have al: "allocation_ok db b" if "b \<in> set (fin_allocations db)" for b using assms(1) that by (auto simp: base_ok_def list_all_iff)
  have "allocation_ok db' b'" if "b' \<in> set (fin_allocations db')" for b'
    using old [OF that] al unfolding allocation_ok_def eq by metis
  moreover have "payment_ok db' y" if "payment_ok db y" for y
    using that le [of "pay_id y"] by (auto simp: payment_ok_def refund_total_def refunds_of_def eq intro: order_trans)
  moreover have "refund_ok db' = refund_ok db" by (auto simp: fun_eq_iff refund_ok_def eq)
  ultimately show "base_ok db'" using assms(1) d by (auto simp: base_ok_def ids_ok_def list_all_iff eq)
  have sub: "al_invoice_id ` set (fin_allocations db') \<subseteq> al_invoice_id ` set (fin_allocations db)"
  proof
    fix j assume "j \<in> al_invoice_id ` set (fin_allocations db')"
    then obtain b' where "b' \<in> set (fin_allocations db')" "j = al_invoice_id b'" by blast
    with old [of b'] show "j \<in> al_invoice_id ` set (fin_allocations db)" by force
  qed
  have "row_ok db' v" if "row_ok db v" "inv_id v \<noteq> i" for v
    using that to [of "inv_id v"] sub by (auto simp: row_ok_def)
  with assms(2) show "rows_ok (insert i S) db'" by (auto simp: rows_ok_def list_all_iff eq)
qed

lemma sum_filter_le:
  fixes g :: "'r \<Rightarrow> rat"
  shows "(\<And>r. r \<in> set rs \<Longrightarrow> 0 \<le> g r) \<Longrightarrow> sum_list (map g (filter P (filter Q rs))) \<le> sum_list (map g (filter P rs))"
  by (induction rs) (auto simp: add_increasing)

lemma sum_map_le:
  fixes g :: "'r \<Rightarrow> rat"
  shows "(\<And>r. r \<in> set rs \<Longrightarrow> P (f r) = P r \<and> g (f r) \<le> g r) \<Longrightarrow> sum_list (map g (filter P (map f rs))) \<le> sum_list (map g (filter P rs))"
  by (induction rs) (auto simp: add_mono)

lemma filter_other:
  assumes "distinct (map k xs)" "a \<in> set xs" "\<not> P a"
  shows "filter P (filter (\<lambda>b. k b \<noteq> k a) xs) = filter P xs"
proof -
  have "k b \<noteq> k a" if "b \<in> set xs" "P b" for b using assms that by (metis distinct_map inj_on_def)
  then show ?thesis by (auto intro!: filter_cong)
qed

lemma filter_map_other:
  assumes "distinct (map k xs)" "a \<in> set xs" "\<not> P a" "\<And>b. P (f b) = P b"
  shows "filter P (map (\<lambda>b. if k b = k a then f b else b) xs) = filter P xs"
proof -
  have "b = a" if "b \<in> set xs" "k b = k a" for b using assms(1,2) that by (metis distinct_map inj_on_def)
  then show ?thesis using assms(3,4) by (induction xs) auto
qed

definition drop_allocation :: "nat \<Rightarrow> fin_db \<Rightarrow> fin_db" where
  "drop_allocation n db = db\<lparr>fin_allocations := filter (\<lambda>b. al_id b \<noteq> n) (fin_allocations db)\<rparr>"

definition lower_allocation :: "nat \<Rightarrow> rat \<Rightarrow> fin_db \<Rightarrow> fin_db" where
  "lower_allocation n x db =
     db\<lparr>fin_allocations := map (\<lambda>b. if al_id b = n then b\<lparr>al_amount := x\<rparr> else b) (fin_allocations db)\<rparr>"

lemma allocation_facts:
  assumes "base_ok db"
  shows "distinct (map al_id (fin_allocations db))"
    "b \<in> set (fin_allocations db) \<Longrightarrow> is_money (al_amount b) \<and> 0 \<le> al_amount b"
  using assms by (auto simp: base_ok_def ids_ok_def allocation_ok_def list_all_iff)

lemma shrunk_drop:
  assumes "base_ok db" "a \<in> set (fin_allocations db)"
  shows "shrunk (al_invoice_id a) db (drop_allocation (al_id a) db)"
proof -
  note f = allocation_facts [OF assms(1)]
  have "allocated_to (drop_allocation (al_id a) db) j = allocated_to db j" if "j \<noteq> al_invoice_id a" for j
    using filter_other [OF f(1) assms(2), of "\<lambda>b. al_invoice_id b = j"] that by (auto simp: allocated_to_def drop_allocation_def)
  moreover have "allocated_from (drop_allocation (al_id a) db) q \<le> allocated_from db q" for q
    using sum_filter_le [of "fin_allocations db" al_amount "\<lambda>b. al_payment_id b = q" "\<lambda>b. al_id b \<noteq> al_id a"] f(2)
    by (simp add: allocated_from_alt allocations_of_def drop_allocation_def)
  ultimately show ?thesis using f by (auto simp: shrunk_def drop_allocation_def distinct_map_filter)
qed

lemma shrunk_lower:
  assumes "base_ok db" "a \<in> set (fin_allocations db)" "is_money x" "0 \<le> x" "x \<le> al_amount a"
  shows "shrunk (al_invoice_id a) db (lower_allocation (al_id a) x db)"
proof -
  note f = allocation_facts [OF assms(1)]
  have same: "b = a" if "b \<in> set (fin_allocations db)" "al_id b = al_id a" for b
    using f(1) assms(2) that by (metis distinct_map inj_on_def)
  have "allocated_to (lower_allocation (al_id a) x db) j = allocated_to db j" if "j \<noteq> al_invoice_id a" for j
    using filter_map_other [OF f(1) assms(2), of "\<lambda>b. al_invoice_id b = j"] that by (auto simp: allocated_to_def lower_allocation_def)
  moreover have "allocated_from (lower_allocation (al_id a) x db) q \<le> allocated_from db q" for q
  proof -
    have "(al_payment_id (if al_id b = al_id a then b\<lparr>al_amount := x\<rparr> else b) = q) = (al_payment_id b = q) \<and>
      al_amount (if al_id b = al_id a then b\<lparr>al_amount := x\<rparr> else b) \<le> al_amount b" if "b \<in> set (fin_allocations db)" for b
      using same [OF that] assms(5) by (cases "al_id b = al_id a") auto
    then show ?thesis
      using sum_map_le [of "fin_allocations db" "\<lambda>b. al_payment_id b = q" "\<lambda>b. if al_id b = al_id a then b\<lparr>al_amount := x\<rparr> else b" al_amount]
      by (simp add: allocated_from_alt allocations_of_def lower_allocation_def)
  qed
  moreover have "map al_id (fin_allocations (lower_allocation (al_id a) x db)) = map al_id (fin_allocations db)"
    by (simp add: lower_allocation_def)
  then have "distinct (map al_id (fin_allocations (lower_allocation (al_id a) x db)))" using f(1) by (simp only:)
  moreover have "\<exists>b \<in> set (fin_allocations db). al_id b' = al_id b \<and> al_payment_id b' = al_payment_id b \<and>
      al_invoice_id b' = al_invoice_id b \<and> is_money (al_amount b') \<and> 0 \<le> al_amount b'"
    if b': "b' \<in> set (fin_allocations (lower_allocation (al_id a) x db))" for b'
  proof -
    obtain b where "b \<in> set (fin_allocations db)" "b' = (if al_id b = al_id a then b\<lparr>al_amount := x\<rparr> else b)"
      using b' by (auto simp: lower_allocation_def)
    then show ?thesis using f(2) [of b] assms(3,4) by (intro bexI [of _ b]) auto
  qed
  moreover have "fin_invoices (lower_allocation (al_id a) x db) = fin_invoices db"
    "fin_payments (lower_allocation (al_id a) x db) = fin_payments db" "fin_refunds (lower_allocation (al_id a) x db) = fin_refunds db"
    "fin_next_allocation (lower_allocation (al_id a) x db) = fin_next_allocation db"
    by (simp_all add: lower_allocation_def)
  ultimately show ?thesis by (simp add: shrunk_def)
qed

section \<open>The reversal loop\<close>

lemma reverse_loop_Cons:
  assumes "is_money remaining" "is_money (al_amount a)" "0 < remaining"
  shows "reverse_loop env (a # as) remaining db =
    (let rev_amount = min remaining (al_amount a);
         db1 = (if rev_amount \<ge> al_amount a - 1 / 100 then drop_allocation (al_id a) db
                else lower_allocation (al_id a) (al_amount a - rev_amount) db)
     in case recalculateBalance env (al_invoice_id a) db1 of
          Inl e \<Rightarrow> Inl e | Inr db2 \<Rightarrow> reverse_loop env as (remaining - rev_amount) db2)"
proof -
  have m: "roundMoney (min remaining (al_amount a)) = min remaining (al_amount a)"
    "roundMoney (remaining - min remaining (al_amount a)) = remaining - min remaining (al_amount a)"
    "roundMoney (al_amount a - min remaining (al_amount a)) = al_amount a - min remaining (al_amount a)"
    by (rule roundMoney_id, use assms in \<open>auto intro!: is_money_arith\<close>)+
  show ?thesis unfolding reverse_loop.simps Let_def m drop_allocation_def lower_allocation_def using assms(3) by simp
qed

lemma allocations_of_recalculated: "recalculateBalance env i db = Inr db' \<Longrightarrow> allocations_of db' q = allocations_of db q"
  by (auto simp: allocations_of_def recalculateBalance_def split: option.splits)

lemma reverse_loop_effect:
  assumes "base_ok db" "rows_ok {} db" "allocations_of db p = rev as" "is_money remaining" "0 \<le> remaining"
  shows "\<exists>db'. reverse_loop env as remaining db = Inr db' \<and> base_ok db' \<and> rows_ok {} db' \<and> fin_payments db' = fin_payments db \<and>
    fin_refunds db' = fin_refunds db \<and> allocations_of db' p = rev (lifo remaining as) \<and>
    \<not> (\<exists>q. q \<noteq> p \<and> allocations_of db' q \<noteq> allocations_of db q)"
  using assms
proof (induction as arbitrary: remaining db)
  case (Cons a as)
  show ?case
  proof (cases "remaining \<le> 0")
    case True with Cons.prems show ?thesis by auto
  next
    case False
    let ?rv = "min remaining (al_amount a)"
    have ain: "a \<in> set (allocations_of db p)" using Cons.prems(3) by simp
    then have a: "a \<in> set (fin_allocations db)" "al_payment_id a = p" by (auto simp: allocations_of_def)
    note f = allocation_facts [OF Cons.prems(1)]
    have am: "is_money (al_amount a)" "0 \<le> al_amount a" using f(2) a(1) by auto
    have ids: "distinct (map al_id (rev as @ [a]))"
      using f(1) Cons.prems(3) unfolding allocations_of_def by (metis distinct_map_filter rev.simps(2))
    have inv_in: "al_invoice_id a \<in> inv_id ` set (fin_invoices db)"
      using Cons.prems(1) a(1) by (auto simp: base_ok_def allocation_ok_def list_all_iff)
    show ?thesis
    proof (cases "?rv \<ge> al_amount a - 1 / 100")
      case True
      let ?db1 = "drop_allocation (al_id a) db"
      note ok1 = shrunk_ok [OF Cons.prems(1,2) shrunk_drop [OF Cons.prems(1) a(1)]]
      have "al_invoice_id a \<in> inv_id ` set (fin_invoices ?db1)" using inv_in by (simp add: drop_allocation_def)
      then obtain db2 where db2: "recalculateBalance env (al_invoice_id a) ?db1 = Inr db2" using recalculate_Inr by blast
      note ok2 = recalculate_ok [OF ok1 db2]
      have "allocations_of ?db1 p = filter (\<lambda>b. al_id b \<noteq> al_id a) (rev as @ [a])"
        by (simp add: allocations_of_def drop_allocation_def conj_commute
            flip: rev.simps(2) Cons.prems(3) [unfolded allocations_of_def])
      also have "\<dots> = rev as" using ids by (auto simp: filter_id_conv image_iff)
      finally have p1: "allocations_of db2 p = rev as" by (simp add: allocations_of_recalculated [OF db2])
      have q1: "allocations_of db2 q = allocations_of db q" if "q \<noteq> p" for q
        using filter_other [OF f(1) a(1), of "\<lambda>b. al_payment_id b = q"] a(2) that
        by (auto simp: allocations_of_recalculated [OF db2]) (simp add: allocations_of_def drop_allocation_def)
      have rest: "is_money (remaining - ?rv)" "0 \<le> remaining - ?rv" using Cons.prems(4) am by (auto intro!: is_money_arith)
      have rows2: "rows_ok {} db2" using ok2(2) by simp
      from Cons.IH [OF ok2(1) rows2 p1 rest] obtain db' where "reverse_loop env as (remaining - ?rv) db2 = Inr db'"
        "base_ok db'" "rows_ok {} db'" "fin_payments db' = fin_payments db2" "fin_refunds db' = fin_refunds db2"
        "allocations_of db' p = rev (lifo (remaining - ?rv) as)" "\<not> (\<exists>q. q \<noteq> p \<and> allocations_of db' q \<noteq> allocations_of db2 q)"
        by blast
      moreover have "reverse_loop env (a # as) remaining db = reverse_loop env as (remaining - ?rv) db2"
        using True False db2 by (subst reverse_loop_Cons [OF Cons.prems(4) am(1)]) (simp_all add: Let_def)
      moreover have "lifo remaining (a # as) = lifo (remaining - ?rv) as" using True False by simp
      moreover have "fin_payments db2 = fin_payments db" "fin_refunds db2 = fin_refunds db"
        using ok2(4,5) by (simp_all add: drop_allocation_def)
      ultimately show ?thesis using q1 by metis
    next
      case small: False
      let ?db1 = "lower_allocation (al_id a) (al_amount a - remaining) db"
      have rv: "?rv = remaining" using small by (auto simp: min_def split: if_splits)
      have x: "is_money (al_amount a - remaining)" "0 \<le> al_amount a - remaining" "al_amount a - remaining \<le> al_amount a"
        using Cons.prems(4,5) am small rv by (auto intro!: is_money_arith)
      note ok1 = shrunk_ok [OF Cons.prems(1,2) shrunk_lower [OF Cons.prems(1) a(1) x]]
      have "al_invoice_id a \<in> inv_id ` set (fin_invoices ?db1)" using inv_in by (simp add: lower_allocation_def)
      then obtain db2 where db2: "recalculateBalance env (al_invoice_id a) ?db1 = Inr db2" using recalculate_Inr by blast
      note ok2 = recalculate_ok [OF ok1 db2]
      let ?f = "\<lambda>b. if al_id b = al_id a then b\<lparr>al_amount := al_amount a - remaining\<rparr> else b"
      have comm: "filter (\<lambda>b. al_payment_id b = p) (map ?f xs) = map ?f (filter (\<lambda>b. al_payment_id b = p) xs)" for xs
        by (induction xs) auto
      have "al_id b \<noteq> al_id a" if "b \<in> set as" for b using ids that by (auto dest: sym)
      then have "map ?f (rev as) = rev as" by (intro map_idI) simp
      then have "map ?f (rev as @ [a]) = rev as @ [a\<lparr>al_amount := al_amount a - remaining\<rparr>]" by simp
      then have p1: "allocations_of db2 p = rev as @ [a\<lparr>al_amount := al_amount a - remaining\<rparr>]"
        using Cons.prems(3) by (simp add: allocations_of_recalculated [OF db2]) (simp add: allocations_of_def lower_allocation_def comm)
      have q1: "allocations_of db2 q = allocations_of db q" if "q \<noteq> p" for q
        using filter_map_other [OF f(1) a(1), of "\<lambda>b. al_payment_id b = q"] a(2) that
        by (simp add: allocations_of_recalculated [OF db2]) (simp add: allocations_of_def lower_allocation_def)
      have "reverse_loop env as 0 db2 = Inr db2" by (cases as) auto
      then have "reverse_loop env (a # as) remaining db = Inr db2"
        using small False db2 rv by (subst reverse_loop_Cons [OF Cons.prems(4) am(1)]) (simp_all add: Let_def)
      moreover have "lifo remaining (a # as) = a\<lparr>al_amount := al_amount a - remaining\<rparr> # as" using small False rv by simp
      ultimately show ?thesis
        using ok2 p1 q1 by (auto simp: lower_allocation_def simp del: reverse_loop.simps lifo.simps)
    qed
  qed
qed auto

end
