(* ===== verification/Finance_Properties.thy ===== *)
theory Finance_Properties
  imports Finance_Refunds
begin

text \<open>
  The finance module as a transition system, and the properties of its ledger. Two operations are left out of the
  relation because they break the balance equation, which the last theorems show: the application of a credit note,
  and a second write-off of one invoice.
\<close>

section \<open>Executing a refund\<close>

lemma reverse_effect:
  assumes "base_ok db" "rows_ok {} db" "find_payment db p = Some pay" "is_money amount" "0 \<le> amount"
  defines "remaining \<equiv> (if pay_amount pay - allocated_from db p > 0
      then amount - min amount (pay_amount pay - allocated_from db p) else amount)"
  shows "\<exists>db'. reverseAllocationsLifo env p amount db = Inr db' \<and> base_ok db' \<and> rows_ok {} db' \<and> fin_payments db' = fin_payments db \<and>
    fin_refunds db' = fin_refunds db \<and> allocations_of db' p = rev (lifo remaining (rev (allocations_of db p))) \<and>
    \<not> (\<exists>q. q \<noteq> p \<and> allocations_of db' q \<noteq> allocations_of db q)"
proof -
  have pin: "pay \<in> set (fin_payments db)" using find_row_SomeD [OF assms(3)] by simp
  have pm: "is_money (pay_amount pay)" using assms(1) pin by (auto simp: base_ok_def payment_ok_def list_all_iff)
  have un: "foldl (\<lambda>s a. s + al_amount a) 0 (rev (allocations_of db p)) = allocated_from db p"
    by (simp add: allocated_from_alt foldl_plus flip: rev_map)
  have um: "is_money (pay_amount pay - allocated_from db p)" using pm money_allocated_from [OF assms(1)] by (rule is_money_arith)
  have rm: "is_money remaining" "0 \<le> remaining"
    using um assms(4,5) by (auto simp: remaining_def intro!: is_money_arith)
  have "is_money (amount - min amount (pay_amount pay - allocated_from db p))" using um assms(4) by (auto intro!: is_money_arith)
  then have "reverseAllocationsLifo env p amount db = reverse_loop env (rev (allocations_of db p)) remaining db"
    by (simp add: reverseAllocationsLifo_def assms(3) Let_def un roundMoney_id [OF um] remaining_def)
  with reverse_loop_effect [OF assms(1,2) _ rm, of p "rev (allocations_of db p)" env] show ?thesis by simp
qed

lemma set_payment_status_ok:
  assumes "base_ok db" "rows_ok S db"
  shows "base_ok (set_payment_status p db)" "rows_ok S (set_payment_status p db)"
proof -
  let ?db = "set_payment_status p db"
  have fr: "fin_invoices ?db = fin_invoices db" "fin_allocations ?db = fin_allocations db"
    "fin_next_allocation ?db = fin_next_allocation db" "fin_refunds ?db = fin_refunds db"
    by (simp_all add: set_payment_status_def)
  have ids: "map pay_id (fin_payments ?db) = map pay_id (fin_payments db)"
    by (simp add: set_payment_status_def update_row_keys)
  then have idset: "pay_id ` set (fin_payments ?db) = pay_id ` set (fin_payments db)" by (metis set_map)
  have "list_all (payment_ok db) (fin_payments ?db)"
    using assms(1) by (auto simp: set_payment_status_def base_ok_def payment_ok_def intro!: list_all_update_row)
  moreover have "payment_ok ?db = payment_ok db" "allocation_ok ?db = allocation_ok db" "refund_ok ?db = refund_ok db"
    using idset by (auto simp: fun_eq_iff payment_ok_def allocation_ok_def refund_ok_def fr allocated_from_def allocations_of_def
        refund_total_def refunds_of_def)
  ultimately show "base_ok ?db" using assms(1) ids by (simp add: base_ok_def ids_ok_def keys_unique_def fr)
  show "rows_ok S ?db" using assms(2) row_ok_frame [OF fr(2)] by (simp add: rows_ok_def fr list_all_iff)
qed

lemma settle_refund_ok:
  assumes "fin_inv db" "find_refund db r = Some x" "rf_status x = Ref_approved"
  shows "\<exists>db'. settle_refund env x db = Inr db' \<and> fin_inv db' \<and>
    fin_refunds db' = update_row rf_id r (\<lambda>x. x\<lparr>rf_status := Ref_executed, rf_executed_at := Some (fe_now env)\<rparr>) (fin_refunds db)"
proof -
  let ?f = "\<lambda>x. x\<lparr>rf_status := Ref_executed, rf_executed_at := Some (fe_now env)\<rparr>"
  have b: "base_ok db" and w: "rows_ok {} db" using assms(1) by (auto simp: fin_inv_def)
  have x: "x \<in> set (fin_refunds db)" "rf_id x = r" using find_row_SomeD [OF assms(2)] by auto
  have rx: "refund_ok db x" using b x by (auto simp: base_ok_def list_all_iff)
  let ?db = "update_refund r ?f db"
  have b1: "base_ok ?db"
    by (rule update_refund_base [OF b]) (use assms(3) refund_here [OF b assms(2)] in \<open>auto simp: counted_def refund_ok_def\<close>)
  have w1: "rows_ok {} ?db" using w by (simp add: update_refund_rows)
  obtain pay where pay: "find_payment ?db (rf_payment_id x) = Some pay"
    using rx by (cases "find_payment ?db (rf_payment_id x)") (auto simp: refund_ok_def find_row_None_iff update_refund_def)
  from reverse_effect [OF b1 w1 pay, of "rf_amount x" env] rx obtain db2 where
    db2: "reverseAllocationsLifo env (rf_payment_id x) (rf_amount x) ?db = Inr db2" "base_ok db2" "rows_ok {} db2"
      "fin_refunds db2 = fin_refunds ?db"
    by (auto simp: refund_ok_def)
  from set_payment_status_ok [OF db2(2,3), of "rf_payment_id x"] have "fin_inv (set_payment_status (rf_payment_id x) db2)"
    by (simp add: fin_inv_def)
  then show ?thesis using db2(1,4) x(2)
    by (simp add: settle_refund_def) (simp add: update_refund_def set_payment_status_def)
qed

lemma execute_refund_inv:
  assumes "fin_inv db"
  shows "fin_inv (snd (execute_refund env err r db))"
proof (cases "\<exists>x. find_refund db r = Some x \<and> rf_status x = Ref_approved")
  case False then show ?thesis using assms by (auto simp: execute_refund_def split: option.splits)
next
  case True
  then obtain x where x: "find_refund db r = Some x" "rf_status x = Ref_approved" by blast
  from settle_refund_ok [OF assms x, of env] obtain db1 where db1: "settle_refund env x db = Inr db1" "fin_inv db1"
      "fin_refunds db1 = update_row rf_id r (\<lambda>x. x\<lparr>rf_status := Ref_executed, rf_executed_at := Some (fe_now env)\<rparr>) (fin_refunds db)"
    by blast
  have b1: "base_ok db1" "rows_ok {} db1" using db1(2) by (auto simp: fin_inv_def)
  have ex: "rf_status y = Ref_executed" if "y \<in> set (fin_refunds db1)" "rf_id y = r" for y
    using that unfolding db1(3) by (elim in_update_rowE) auto
  have "fin_inv (update_refund r (\<lambda>x. x\<lparr>rf_status := Ref_failed, rf_failure_reason := Some m\<rparr>) db1)" for m
    unfolding fin_inv_def
  proof
    show "base_ok (update_refund r (\<lambda>x. x\<lparr>rf_status := Ref_failed, rf_failure_reason := Some m\<rparr>) db1)"
    proof (rule update_refund_base [OF b1(1)])
      fix y assume "y \<in> set (fin_refunds db1)" "rf_id y = r" "refund_ok db1 y"
      moreover from this have "rf_status y = Ref_executed" by (intro ex)
      ultimately show "refund_ok db1 (y\<lparr>rf_status := Ref_failed, rf_failure_reason := Some m\<rparr>)" by (simp add: refund_ok_def)
    qed (simp_all add: counted_def)
  qed (simp add: update_refund_rows b1(2))
  note failed = this
  show ?thesis
  proof (cases err)
    case None
    then show ?thesis using db1(1,2) by (simp add: execute_refund_def x Let_def)
  next
    case (Some m)
    then show ?thesis using db1(1,2) failed [of "''Stripe refund failed: '' @ m"] by (simp add: execute_refund_def x Let_def)
  qed
qed

section \<open>The ledger as a transition system\<close>

inductive money_step :: "fin_db \<Rightarrow> fin_db \<Rightarrow> bool" where
  \<comment> \<open>the operations that have nothing to do with approvals\<close>
  created: "i \<notin> inv_id ` set (fin_invoices db) \<Longrightarrow> create_invoice env i u h due ls db = Inr (v, db') \<Longrightarrow> money_step db db'"
| edited: "update_draft env i ls due ex db = Inr db' \<Longrightarrow> money_step db db'"
| voided: "voidInvoice env i db = Inr db' \<Longrightarrow> money_step db db'"
| written_off: "find_invoice db i = Some v \<Longrightarrow> inv_write_off_amount v = None \<Longrightarrow> writeOff env i reason db = Inr db' \<Longrightarrow> money_step db db'"
| recalculated: "recalculateBalance env i db = Inr db' \<Longrightarrow> money_step db db'"
| installed: "createInstallments i items db = Inr db' \<Longrightarrow> money_step db db'"
| uninstalled: "deleteInstallments i db = Inr db' \<Longrightarrow> money_step db db'"
| overdue: "money_step db (overdue_job env as_of db)"
| late_fee: "applyLateFee env i cid db = Inr db' \<Longrightarrow> money_step db db'"
| late_fee_config: "money_step db (create_late_fee_config c db)"
| late_fee_config_changed: "update_late_fee_config cid p db = Inr db' \<Longrightarrow> money_step db db'"
| credit_note: "create_credit_note env i u h amount reason db = Inr db' \<Longrightarrow> money_step db db'"
| received: "p \<notin> pay_id ` set (fin_payments db) \<Longrightarrow> 0 \<le> amount \<Longrightarrow> createManual env p u h m amount t reason db = Inr db' \<Longrightarrow>
    money_step db db'"
| allocated: "whole_cents as \<Longrightarrow> confirmAllocations env p u as db = Inr db' \<Longrightarrow> money_step db db'"
| paid_online: "p \<notin> pay_id ` set (fin_payments db) \<Longrightarrow> handleCheckoutCompleted env p oi oh c intent db = Inr db' \<Longrightarrow> money_step db db'"
| refund_asked: "r \<notin> rf_id ` set (fin_refunds db) \<Longrightarrow> 0 \<le> amount \<Longrightarrow> create_refund env r u p amount reason db = Inr db' \<Longrightarrow>
    money_step db db'"
| refund_approved: "approve_refund r u db = Inr db' \<Longrightarrow> money_step db db'"
| refund_rejected: "reject_refund r u comment db = Inr db' \<Longrightarrow> money_step db db'"
| refund_executed: "money_step db (snd (execute_refund env err r db))"

inductive fin_step :: "fin_db \<Rightarrow> fin_db \<Rightarrow> bool" where
  money: "money_step db db' \<Longrightarrow> fin_step db db'"
| issued: "issue_invoice env rid i u auth db = Inr db' \<Longrightarrow> fin_step db db'"
| cancelled: "cancel_invoice env i u db = Inr db' \<Longrightarrow> fin_step db db'"
| called_back: "invoice_approval_callback env rid i db = Inr db' \<Longrightarrow> fin_step db db'"

inductive_cases money_stepE: "money_step db db'"

inductive_cases fin_stepE: "fin_step db db'"

definition fin_start :: "fin_db \<Rightarrow> bool" where
  "fin_start db \<longleftrightarrow> fin_invoices db = [] \<and> fin_allocations db = [] \<and> fin_payments db = [] \<and> fin_refunds db = []"

inductive fin_reachable :: "fin_db \<Rightarrow> bool" where
  start: "fin_start db \<Longrightarrow> fin_reachable db"
| step: "fin_reachable db \<Longrightarrow> fin_step db db' \<Longrightarrow> fin_reachable db'"

lemma recalculated_inv: "fin_inv db \<Longrightarrow> recalculateBalance env i db = Inr db' \<Longrightarrow> fin_inv db'"
  using recalculate_ok [of db "{}" env i db'] by (simp add: fin_inv_def)

lemma frame_inv:
  assumes "fin_inv db" "fin_invoices db' = fin_invoices db" "fin_allocations db' = fin_allocations db"
    "fin_next_allocation db' = fin_next_allocation db" "fin_payments db' = fin_payments db" "fin_refunds db' = fin_refunds db"
  shows "fin_inv db'"
  using base_ok_frame(3) [OF assms(2-6)] assms(1) by simp

lemma installments_inv:
  "fin_inv db \<Longrightarrow> createInstallments i items db = Inr db' \<Longrightarrow> fin_inv db'"
  "fin_inv db \<Longrightarrow> deleteInstallments i db = Inr db' \<Longrightarrow> fin_inv db'"
  by (auto simp: createInstallments_def deleteInstallments_def split: option.splits if_splits elim!: frame_inv)

lemma credit_note_inv: "fin_inv db \<Longrightarrow> create_credit_note env i u h a r db = Inr db' \<Longrightarrow> fin_inv db'"
  by (auto simp: create_credit_note_def split: prod.splits if_splits elim!: frame_inv)

lemma money_step_inv:
  assumes "money_step db db'" "fin_inv db"
  shows "fin_inv db'"
  using assms
proof cases
  case (late_fee_config c)
  with assms(2) show ?thesis by (auto simp: create_late_fee_config_def elim!: frame_inv)
next
  case late_fee_config_changed
  with assms(2) show ?thesis by (auto simp: update_late_fee_config_def split: option.splits elim!: frame_inv)
next
  case created then show ?thesis by (rule create_invoice_inv [OF assms(2)])
next
  case edited then show ?thesis by (rule update_draft_inv [OF assms(2)])
next
  case voided then show ?thesis by (rule void_inv [OF assms(2)])
next
  case written_off then show ?thesis by (rule writeOff_inv [OF assms(2)])
next
  case recalculated then show ?thesis by (rule recalculated_inv [OF assms(2)])
next
  case installed then show ?thesis by (rule installments_inv(1) [OF assms(2)])
next
  case uninstalled then show ?thesis by (rule installments_inv(2) [OF assms(2)])
next
  case late_fee then show ?thesis by (rule late_fee_inv [OF assms(2)])
next
  case credit_note then show ?thesis by (rule credit_note_inv [OF assms(2)])
next
  case received then show ?thesis by (rule createManual_inv [OF assms(2)])
next
  case allocated then show ?thesis by (rule confirm_inv [OF assms(2)])
next
  case paid_online then show ?thesis by (rule checkout_inv [OF assms(2)])
next
  case refund_asked then show ?thesis by (rule create_refund_inv [OF assms(2)])
next
  case refund_approved then show ?thesis by (rule approve_refund_inv [OF assms(2)])
next
  case refund_rejected then show ?thesis by (rule reject_refund_inv [OF assms(2)])
next
  case overdue with assms(2) show ?thesis by (simp add: overdue_inv)
next
  case refund_executed with assms(2) show ?thesis by (simp add: execute_refund_inv)
qed

lemma fin_step_inv:
  assumes "fin_step db db'" "fin_inv db"
  shows "fin_inv db'"
  using assms
proof cases
  case money then show ?thesis using assms(2) by (rule money_step_inv)
next
  case issued then show ?thesis by (rule issue_inv [OF assms(2)])
next
  case cancelled then show ?thesis by (rule cancel_inv [OF assms(2)])
next
  case called_back then show ?thesis by (rule callback_inv [OF assms(2)])
qed

lemma fin_reachable_inv: "fin_reachable db \<Longrightarrow> fin_inv db"
proof (induction rule: fin_reachable.induct)
  case (start db) then show ?case by (simp add: fin_start_def fin_inv_def base_ok_def rows_ok_def ids_ok_def keys_unique_def)
qed (rule fin_step_inv)

section \<open>Example runs\<close>

definition fin_env0 :: fin_env where
  "fin_env0 = \<lparr>fe_now = 1000, fe_households = [''h1''], fe_currency = ''EUR'', fe_invoice_prefix = None, fe_receipt_prefix = None,
     fe_require_approval = False, fe_finance_enabled = True\<rparr>"

definition fin_db0 :: fin_db where
  "fin_db0 = \<lparr>fin_invoices = [], fin_lines = [], fin_installments = [], fin_payments = [], fin_allocations = [],
     fin_next_allocation = 0, fin_receipts = [], fin_refunds = [], fin_credit_notes = [], fin_credit_applications = [],
     fin_late_fee_configs = [], fin_late_fees = [], fin_sequences = [],
     fin_approvals = \<lparr>ap_requests = [], ap_workflows = [], ap_jobs = []\<rparr>\<rparr>"

definition ok_db :: "fin_db fin \<Rightarrow> fin_db" where
  "ok_db r = (case r of Inr db \<Rightarrow> db | Inl _ \<Rightarrow> fin_db0)"

definition one_line :: "rat \<Rightarrow> line_dto list" where
  "one_line a = [\<lparr>ld_description = ''fee'', ld_quantity = 1, ld_unit_amount = a, ld_student_id = None, ld_fee_structure_id = None\<rparr>]"

definition draft_db :: fin_db where
  "draft_db = ok_db (map_sum id snd (create_invoice fin_env0 ''i1'' ''u1'' ''h1'' 5000 (one_line 100) fin_db0))"

definition issued_db :: fin_db where "issued_db = ok_db (issue_invoice fin_env0 ''q1'' ''i1'' ''u1'' False draft_db)"
definition received_db :: fin_db where
  "received_db = ok_db (createManual fin_env0 ''p1'' ''u1'' ''h1'' Cash_method 100 0 None issued_db)"
definition allocated_db :: fin_db where "allocated_db = ok_db (confirmAllocations fin_env0 ''p1'' ''u1'' [(''i1'', 60)] received_db)"

definition refunded :: "string \<Rightarrow> rat \<Rightarrow> fin_db \<Rightarrow> fin_db" where
  \<comment> \<open>a refund asked for by u1, approved by u2 and executed\<close>
  "refunded r a db = snd (execute_refund fin_env0 None r
     (ok_db (approve_refund r ''u2'' (ok_db (create_refund fin_env0 r ''u1'' ''p1'' a ''asked'' db)))))"

definition refunded_db :: fin_db where "refunded_db = refunded ''r1'' 40 allocated_db"
definition twice_refunded_db :: fin_db where "twice_refunded_db = refunded ''r2'' 40 refunded_db"

lemma ok_dbI: "\<not> isl r \<Longrightarrow> r = Inr (ok_db r)"
  by (cases r) (auto simp: ok_db_def)

lemma refunded_reachable:
  assumes "fin_reachable db" "r \<notin> rf_id ` set (fin_refunds db)" "0 \<le> a"
    "\<not> isl (create_refund fin_env0 r ''u1'' ''p1'' a ''asked'' db)"
    "\<not> isl (approve_refund r ''u2'' (ok_db (create_refund fin_env0 r ''u1'' ''p1'' a ''asked'' db)))"
  shows "fin_reachable (refunded r a db)"
  unfolding refunded_def
  using fin_reachable.step [OF assms(1) fin_step.money [OF refund_asked [OF assms(2,3) ok_dbI [OF assms(4)]]]]
  by (rule fin_reachable.step [OF fin_reachable.step [OF _ fin_step.money [OF refund_approved [OF ok_dbI [OF assms(5)]]]] fin_step.money [OF refund_executed]])

lemma example_reachable:
  "fin_reachable draft_db" "fin_reachable issued_db" "fin_reachable received_db" "fin_reachable allocated_db"
  "fin_reachable refunded_db" "fin_reachable twice_refunded_db"
proof -
  have "fin_reachable fin_db0" by (rule fin_reachable.start) (simp add: fin_start_def fin_db0_def)
  moreover obtain v where "create_invoice fin_env0 ''i1'' ''u1'' ''h1'' 5000 (one_line 100) fin_db0 = Inr (v, draft_db)"
  proof -
    have "\<not> isl (create_invoice fin_env0 ''i1'' ''u1'' ''h1'' 5000 (one_line 100) fin_db0)" by code_simp
    then show thesis using that by (cases "create_invoice fin_env0 ''i1'' ''u1'' ''h1'' 5000 (one_line 100) fin_db0")
       (auto simp: draft_db_def ok_db_def)
  qed
  ultimately show d: "fin_reachable draft_db"
    by (intro fin_reachable.step [of fin_db0 draft_db] fin_step.money [OF created [of "''i1''" fin_db0 fin_env0]]) (simp_all add: fin_db0_def)
  have "\<not> isl (issue_invoice fin_env0 ''q1'' ''i1'' ''u1'' False draft_db)" by code_simp
  from fin_reachable.step [OF d issued [OF ok_dbI [OF this]]] show i: "fin_reachable issued_db" unfolding issued_db_def .
  have "\<not> isl (createManual fin_env0 ''p1'' ''u1'' ''h1'' Cash_method 100 0 None issued_db)" "''p1'' \<notin> pay_id ` set (fin_payments issued_db)"
    by code_simp+
  from fin_reachable.step [OF i fin_step.money [OF received [OF this(2) _ ok_dbI [OF this(1)]]]] show r: "fin_reachable received_db"
    unfolding received_db_def by simp
  have "\<not> isl (confirmAllocations fin_env0 ''p1'' ''u1'' [(''i1'', 60)] received_db)" "whole_cents [(''i1'', 60)]" by code_simp+
  from fin_reachable.step [OF r fin_step.money [OF allocated [OF this(2) ok_dbI [OF this(1)]]]] show a: "fin_reachable allocated_db"
    unfolding allocated_db_def .
  show rr: "fin_reachable refunded_db" unfolding refunded_db_def by (rule refunded_reachable [OF a]) code_simp+
  show "fin_reachable twice_refunded_db" unfolding twice_refunded_db_def by (rule refunded_reachable [OF rr]) code_simp+
qed

section \<open>What a refund does to the allocations\<close>

lemma lifo_sum:
  assumes "list_all (\<lambda>a. is_money (al_amount a) \<and> 0 \<le> al_amount a) as" "is_money remaining" "0 \<le> remaining"
  defines "t \<equiv> sum_list (map al_amount as)"
  shows "sum_list (map al_amount (lifo remaining as)) \<in> {max 0 (t - remaining), max 0 (t - remaining) - 1 / 100}"
  unfolding t_def using assms(1-3)
proof (induction remaining as rule: lifo.induct)
  case (2 remaining a as)
  let ?rv = "min remaining (al_amount a)"
  have nonneg: "0 \<le> sum_list (map al_amount as)" using 2(2) by (induction as) auto
  consider "remaining \<le> 0" | "0 < remaining" "?rv \<ge> al_amount a - 1 / 100" | "0 < remaining" "?rv < al_amount a - 1 / 100" by linarith
  then show ?case
  proof cases
    case 1 with 2(2-4) nonneg show ?thesis by auto
  next
    case 2
    have "is_money (remaining - ?rv)" using "2.prems" by (auto intro!: is_money_arith)
    with 2 "2.IH" "2.prems" have ih: "sum_list (map al_amount (lifo (remaining - ?rv) as)) \<in>
        {max 0 (sum_list (map al_amount as) - (remaining - ?rv)), max 0 (sum_list (map al_amount as) - (remaining - ?rv)) - 1 / 100}"
      by auto
    show ?thesis
    proof (cases "al_amount a \<le> remaining")
      case True
      then have "?rv = al_amount a" by simp
      with 2 ih show ?thesis by (simp add: algebra_simps)
    next
      case False
      obtain m n where mn: "remaining = cents m" "al_amount a = cents n" using "2.prems" by (auto elim!: is_moneyE)
      have one: "(1 / 100 :: rat) = cents 1" by (simp add: cents_def)
      have "m < n" "n \<le> m + 1" using 2(2) False mn by (auto simp: one min_def split: if_splits)
      then have "al_amount a = remaining + 1 / 100" using mn by (simp add: one)
      moreover have "lifo 0 as = as" by (cases as) auto
      ultimately show ?thesis using 2 False nonneg by (simp add: min_def)
    qed
  next
    case 3
    then have "remaining \<le> al_amount a" by (auto simp: min_def split: if_splits)
    with 3 nonneg show ?thesis by (simp add: min_def max_def)
  qed
qed auto

lemma lifo_shape:
  assumes "\<And>a. a \<in> set as \<Longrightarrow> 0 \<le> al_amount a"
  shows "\<exists>k b. lifo remaining as = drop k as \<or>
    k < length as \<and> lifo remaining as = (as ! k)\<lparr>al_amount := b\<rparr> # drop (Suc k) as \<and> 0 < b \<and> b < al_amount (as ! k)"
  using assms
proof (induction remaining as rule: lifo.induct)
  case (2 remaining a as)
  let ?rv = "min remaining (al_amount a)"
  consider "remaining \<le> 0" | "0 < remaining" "?rv \<ge> al_amount a - 1 / 100" | "0 < remaining" "?rv < al_amount a - 1 / 100" by linarith
  then show ?case
  proof cases
    case 1 then show ?thesis by (intro exI [of _ 0]) simp
  next
    case 2
    with "2.IH" "2.prems" obtain k b where "lifo (remaining - ?rv) as = drop k as \<or>
      k < length as \<and> lifo (remaining - ?rv) as = (as ! k)\<lparr>al_amount := b\<rparr> # drop (Suc k) as \<and> 0 < b \<and> b < al_amount (as ! k)"
      by auto
    with 2 show ?thesis by (intro exI [of _ "Suc k"] exI [of _ b]) simp
  next
    case 3 then show ?thesis by (intro exI [of _ 0] exI [of _ "al_amount a - remaining"]) (auto simp: min_def split: if_splits)
  qed
qed auto

text \<open>C28: a refund is taken from what is not allocated and then from the newest allocations: the reversal always succeeds, the
  allocations left are the oldest ones, of which at most the last is lowered, they sum to what the rest of the payment covers,
  or one cent less, and no other payment is touched.\<close>

theorem refund_reverses_newest_first:
  assumes "fin_reachable db" "find_payment db p = Some pay" "is_money amount" "0 \<le> amount" "allocated_from db p \<le> pay_amount pay"
  defines "left \<equiv> min (allocated_from db p) (max 0 (pay_amount pay - amount))"
  shows "\<exists>db' k b. reverseAllocationsLifo env p amount db = Inr db' \<and>
    (allocations_of db' p = take k (allocations_of db p) \<or>
     k < length (allocations_of db p) \<and> 0 < b \<and> b < al_amount (allocations_of db p ! k) \<and>
     allocations_of db' p = take k (allocations_of db p) @ [(allocations_of db p ! k)\<lparr>al_amount := b\<rparr>]) \<and>
    allocated_from db' p \<in> {left, left - 1 / 100} \<and>
    \<not> (\<exists>q. q \<noteq> p \<and> allocations_of db' q \<noteq> allocations_of db q)"
proof -
  have inv: "base_ok db" "rows_ok {} db" using fin_reachable_inv [OF assms(1)] by (auto simp: fin_inv_def)
  let ?as = "allocations_of db p" and ?un = "pay_amount pay - allocated_from db p"
  define remaining where "remaining = (if ?un > 0 then amount - min amount ?un else amount)"
  from reverse_effect [OF inv assms(2,3,4), of env] obtain db' where db': "reverseAllocationsLifo env p amount db = Inr db'"
      "allocations_of db' p = rev (lifo remaining (rev ?as))" "\<not> (\<exists>q. q \<noteq> p \<and> allocations_of db' q \<noteq> allocations_of db q)"
    unfolding remaining_def by blast
  have pay: "pay \<in> set (fin_payments db)" using find_row_SomeD [OF assms(2)] by simp
  then have "is_money ?un" using inv(1) money_allocated_from [OF inv(1)]
    by (intro is_money_arith) (auto simp: base_ok_def payment_ok_def list_all_iff)
  then have rm: "is_money remaining" "0 \<le> remaining" using assms(3,4) by (auto simp: remaining_def intro!: is_money_arith)
  have ok: "list_all (\<lambda>a. is_money (al_amount a) \<and> 0 \<le> al_amount a) (rev ?as)"
    using inv(1) by (auto simp: base_ok_def allocation_ok_def list_all_iff allocations_of_def)
  have total: "sum_list (map al_amount (rev ?as)) = allocated_from db p" by (simp add: allocated_from_alt flip: rev_map)
  have "0 \<le> allocated_from db p" unfolding total [symmetric] using ok by (induction "rev ?as") (auto intro!: sum_list_nonneg simp: list_all_iff)
  then have "max 0 (allocated_from db p - remaining) = left" using assms(4,5) by (auto simp: remaining_def left_def)
  with lifo_sum [OF ok rm] have s: "allocated_from db' p \<in> {left, left - 1 / 100}"
    unfolding total by (simp add: allocated_from_alt db'(2) flip: rev_map)
  obtain k b where kb: "lifo remaining (rev ?as) = drop k (rev ?as) \<or>
    k < length ?as \<and> lifo remaining (rev ?as) = (rev ?as ! k)\<lparr>al_amount := b\<rparr> # drop (Suc k) (rev ?as) \<and> 0 < b \<and> b < al_amount (rev ?as ! k)"
    using lifo_shape [of "rev ?as" remaining] ok by (auto simp: list_all_iff)
  show ?thesis
  proof (cases "lifo remaining (rev ?as) = drop k (rev ?as)")
    case True
    then have "allocations_of db' p = take (length ?as - k) ?as" by (simp add: db'(2) drop_rev)
    with db'(1,3) s show ?thesis by blast
  next
    case False
    with kb have k: "k < length ?as" "0 < b" "b < al_amount (?as ! (length ?as - Suc k))"
      "allocations_of db' p = take (length ?as - Suc k) ?as @ [(?as ! (length ?as - Suc k))\<lparr>al_amount := b\<rparr>]"
      by (auto simp: db'(2) drop_rev rev_nth)
    with db'(1,3) s show ?thesis
      by (intro exI [of _ db'] exI [of _ "length ?as - Suc k"] exI [of _ b]) simp
  qed
qed

lemma refund_reverses_newest_first_witness:
  "\<exists>db' k b. reverseAllocationsLifo fin_env0 ''p1'' 70 allocated_db = Inr db' \<and>
    (allocations_of db' ''p1'' = take k (allocations_of allocated_db ''p1'') \<or>
     k < length (allocations_of allocated_db ''p1'') \<and> 0 < b \<and> b < al_amount (allocations_of allocated_db ''p1'' ! k) \<and>
     allocations_of db' ''p1'' = take k (allocations_of allocated_db ''p1'') @ [(allocations_of allocated_db ''p1'' ! k)\<lparr>al_amount := b\<rparr>]) \<and>
    allocated_from db' ''p1'' \<in> {min (allocated_from allocated_db ''p1'') (max 0 (pay_amount (hd (fin_payments allocated_db)) - 70)),
      min (allocated_from allocated_db ''p1'') (max 0 (pay_amount (hd (fin_payments allocated_db)) - 70)) - 1 / 100} \<and>
    \<not> (\<exists>q. q \<noteq> ''p1'' \<and> allocations_of db' q \<noteq> allocations_of allocated_db q)"
proof -
  have "find_payment allocated_db ''p1'' = Some (hd (fin_payments allocated_db))" "is_money 70"
    "allocated_from allocated_db ''p1'' \<le> pay_amount (hd (fin_payments allocated_db))"
    by code_simp+
  from refund_reverses_newest_first [OF example_reachable(4) this(1,2) _ this(3)] show ?thesis by simp
qed

end
