(* ===== verification/Finance_Claims.thy ===== *)
theory Finance_Claims
  imports Finance_Properties
begin

text \<open>
  The properties of the ledger that rest on its invariant, the agreement of the allocation suggestions with the
  confirmation, and runs that show where the code's books stop adding up.
\<close>

section \<open>The books\<close>





text \<open>C27: every refund that is approved, executed or failed at Stripe was approved by somebody other than the person who asked for it.\<close>

theorem refunds_have_two_people:
  assumes "fin_reachable db" and "r \<in> set (fin_refunds db)" and "rf_status r \<in> {Ref_approved, Ref_executed, Ref_failed}"
  shows "\<exists>u. rf_approved_by r = Some u \<and> u \<noteq> rf_requested_by r"
  using fin_reachable_inv [OF assms(1)] assms(2,3) by (auto simp: fin_inv_def base_ok_def refund_ok_def list_all_iff)

lemma refunds_have_two_people_witness:
  "\<exists>u. rf_approved_by (hd (fin_refunds refunded_db)) = Some u \<and> u \<noteq> rf_requested_by (hd (fin_refunds refunded_db))"
proof -
  have "hd (fin_refunds refunded_db) \<in> set (fin_refunds refunded_db)"
    "rf_status (hd (fin_refunds refunded_db)) \<in> {Ref_approved, Ref_executed, Ref_failed}" by code_simp+
  with refunds_have_two_people [OF example_reachable(5)] show ?thesis by blast
qed

section \<open>Suggestions\<close>

lemma suggest_loop_spec:
  assumes "list_all (\<lambda>v. is_money (inv_balance v) \<and> 0 < inv_balance v) vs" "is_money remaining"
  shows "whole_cents (suggest_loop vs remaining) \<and>
    sum_list (map snd (suggest_loop vs remaining)) = min (max 0 remaining) (sum_list (map inv_balance vs)) \<and>
    map fst (suggest_loop vs remaining) = take (length (suggest_loop vs remaining)) (map inv_id vs) \<and>
    map snd (butlast (suggest_loop vs remaining)) = take (length (suggest_loop vs remaining) - 1) (map inv_balance vs) \<and>
    list_all (\<lambda>((i, a), v). a \<le> inv_balance v) (zip (suggest_loop vs remaining) vs)"
  using assms
proof (induction vs remaining rule: suggest_loop.induct)
  case (2 v vs remaining)
  have nonneg: "0 \<le> sum_list (map inv_balance vs)" using 2(2) by (induction vs) auto
  show ?case
  proof (cases "remaining \<le> 0")
    case True with 2(2) nonneg show ?thesis by (auto simp: whole_cents_def)
  next
    case False
    let ?a = "min remaining (inv_balance v)" and ?rest = "suggest_loop vs (remaining - min remaining (inv_balance v))"
    have m: "is_money ?a" "is_money (remaining - ?a)" using 2(2,3) by (auto intro!: is_money_arith)
    have eq: "suggest_loop (v # vs) remaining = (inv_id v, ?a) # ?rest"
      using False by (simp add: Let_def roundMoney_id [OF m(1)] roundMoney_id [OF m(2)])
    from "2.IH" [OF False refl] m 2(2)
    have ih: "whole_cents ?rest" "sum_list (map snd ?rest) = min (max 0 (remaining - ?a)) (sum_list (map inv_balance vs))"
      "map fst ?rest = take (length ?rest) (map inv_id vs)" "map snd (butlast ?rest) = take (length ?rest - 1) (map inv_balance vs)"
      "list_all (\<lambda>((i, a), v). a \<le> inv_balance v) (zip ?rest vs)"
      by (auto simp: roundMoney_id [OF m(1)] roundMoney_id [OF m(2)])
    have pos: "0 < ?a" using False 2(2) by simp
    have "?a = inv_balance v" if "?rest \<noteq> []"
    proof (rule ccontr)
      assume "?a \<noteq> inv_balance v"
      then have "remaining - ?a \<le> 0" by (auto simp: min_def split: if_splits)
      then have "?rest = []" by (cases vs) auto
      with that show False by simp
    qed
    then have "map snd (butlast ((inv_id v, ?a) # ?rest)) = take (length ?rest) (map inv_balance (v # vs))"
      using ih(4) by (cases ?rest) (auto simp: take_Cons')
    moreover have "?a + min (max 0 (remaining - ?a)) (sum_list (map inv_balance vs)) =
        min (max 0 remaining) (inv_balance v + sum_list (map inv_balance vs))"
      using False nonneg 2(2) by (auto simp: min_def max_def)
    ultimately show ?thesis unfolding eq using ih m pos by (auto simp: whole_cents_def)
  qed
qed (auto simp: whole_cents_def)

lemma check_allocations_None:
  assumes "\<And>i a. (i, a) \<in> set as \<Longrightarrow> \<exists>v. find_invoice db i = Some v \<and> inv_household_id v = pay_household_id pay \<and>
      roundMoney a \<le> inv_balance v + 1 / 100"
  shows "check_allocations db pay as = None"
  using assms
proof (induction "as")
  case (Cons x as)
  obtain i a where x: "x = (i, a)" by fastforce
  obtain v where "find_invoice db i = Some v" "inv_household_id v = pay_household_id pay" "roundMoney a \<le> inv_balance v + 1 / 100"
    using Cons.prems [of i a] x by auto
  moreover have "check_allocations db pay as = None" using Cons.prems by (intro Cons.IH) simp
  ultimately show ?case by (simp add: x)
qed simp

definition unpaid_queue :: "fin_db \<Rightarrow> payment \<Rightarrow> invoice list" where
  "unpaid_queue db pay = sort_key inv_due_date (filter (unpaid (pay_household_id pay)) (fin_invoices db))"

text \<open>C29: the suggestions for a posted payment can be confirmed as they stand. They pay the unpaid invoices of the household in the
  order of their due dates, each but the last in full, for the smaller of the unallocated rest of the payment and what the
  household owes, and confirming them allocates exactly that.\<close>

theorem suggestions_are_accepted:
  assumes "fin_reachable db" and "find_payment db p = Some pay" and "pay_status pay = Posted" and "suggestAllocations p db = Inr sug"
  shows "\<exists>db'. confirmAllocations env p u sug db = Inr db' \<and>
    allocated_from db' p = allocated_from db p +
      min (max 0 (pay_amount pay - allocated_from db p)) (sum_list (map inv_balance (unpaid_queue db pay))) \<and>
    map fst sug = take (length sug) (map inv_id (unpaid_queue db pay)) \<and>
    map snd (butlast sug) = take (length sug - 1) (map inv_balance (unpaid_queue db pay))"
proof -
  have inv: "fin_inv db" by (rule fin_reachable_inv [OF assms(1)])
  then have b: "base_ok db" "rows_ok {} db" by (auto simp: fin_inv_def)
  let ?q = "unpaid_queue db pay" and ?rest = "pay_amount pay - allocated_from db p"
  have q: "v \<in> set (fin_invoices db)" "unpaid (pay_household_id pay) v" if "v \<in> set ?q" for v using that by (auto simp: unpaid_queue_def)
  have "is_money (inv_balance v)" if "v \<in> set ?q" for v
    using fin_invE [OF inv q(1) [OF that]] money_allocated_to [OF b(1)] by (auto simp: row_ok_def invoice_money_def)
  then have money: "list_all (\<lambda>v. is_money (inv_balance v) \<and> 0 < inv_balance v) ?q"
    using q by (auto simp: list_all_iff unpaid_def)
  then have owed: "0 \<le> sum_list (map inv_balance ?q)" by (intro sum_list_nonneg) (force simp: list_all_iff)
  have "pay \<in> set (fin_payments db)" using find_row_SomeD [OF assms(2)] by simp
  then have rm: "is_money ?rest" using b(1) money_allocated_from [OF b(1)]
    by (intro is_money_arith) (auto simp: base_ok_def payment_ok_def list_all_iff)
  have sug: "sug = suggest_loop ?q ?rest"
  proof (cases "?rest \<le> 0")
    case True with assms(2,4) rm show ?thesis by (cases ?q) (auto simp: suggestAllocations_def Let_def)
  next
    case False with assms(2,4) rm show ?thesis by (auto simp: suggestAllocations_def Let_def unpaid_queue_def)
  qed
  from suggest_loop_spec [OF money rm] have s: "whole_cents sug" "sum_list (map snd sug) = min (max 0 ?rest) (sum_list (map inv_balance ?q))"
    "map fst sug = take (length sug) (map inv_id ?q)" "map snd (butlast sug) = take (length sug - 1) (map inv_balance ?q)"
    "list_all (\<lambda>((i, a), v). a \<le> inv_balance v) (zip sug ?q)"
    by (simp_all add: sug)
  have len: "length sug \<le> length ?q" using arg_cong [OF s(3), of length] by simp
  have "check_allocations db pay sug = None"
  proof (rule check_allocations_None)
    fix i a assume "(i, a) \<in> set sug"
    then obtain n where n: "n < length sug" "sug ! n = (i, a)" by (auto simp: in_set_conv_nth)
    let ?v = "?q ! n"
    have v: "?v \<in> set ?q" using n len by simp
    have "i = inv_id ?v" using n len arg_cong [OF s(3), of "\<lambda>l. l ! n"] by simp
    moreover have "(sug ! n, ?v) \<in> set (zip sug ?q)" using n(1) len by (force simp: in_set_zip)
    then have "a \<le> inv_balance ?v" using s(5) n(2) by (auto simp: list_all_iff)
    moreover have "is_money a" using s(1) \<open>(i, a) \<in> set sug\<close> by (auto simp: whole_cents_def list_all_iff)
    moreover have "find_invoice db (inv_id ?v) = Some ?v" using b(1) q(1) [OF v] by (intro find_row_in) (simp_all add: base_ok_def ids_ok_def)
    ultimately show "\<exists>v. find_invoice db i = Some v \<and> inv_household_id v = pay_household_id pay \<and> roundMoney a \<le> inv_balance v + 1 / 100"
      using q(2) [OF v] by (auto simp: unpaid_def)
  qed
  moreover have "sum_list (map snd sug) \<le> roundMoney ?rest + 1 / 100" if "0 \<le> ?rest" using s(2) rm that by simp
  moreover have "sum_list (map snd sug) \<le> roundMoney ?rest + 1 / 100" if "\<not> 0 \<le> ?rest"
  proof -
    have "sum_list (map snd sug) = 0" using s(2) that owed by simp
    moreover have "allocated_from db p \<le> pay_amount pay + 1 / 100"
      using b(1) find_row_SomeD [OF assms(2)] by (auto simp: base_ok_def payment_ok_def list_all_iff)
    ultimately show ?thesis using rm by simp
  qed
  ultimately have chk: "check_allocations db pay sug = None" "sum_list (map snd sug) \<le> roundMoney ?rest + 1 / 100" by blast+
  obtain news where news: "news_ok db p news (add_allocations p sug db)" "map al_invoice_id news = map fst sug" "map al_amount news = map snd sug"
    by (rule confirm_news [OF inv s(1) assms(2) chk])
  note added = allocations_added [OF b news(1)]
  have "fst ` set sug \<subseteq> inv_id ` set (fin_invoices db)" by (rule check_allocations_ids [OF chk(1)])
  then obtain db1 where db1: "recalculate_all env (map fst sug) (add_allocations p sug db) = Inr db1"
    using recalculate_all_Inr [OF added, of "map fst sug" env] by auto
  define db' where "db' = (if filter (\<lambda>r. rc_payment_id r = p) (fin_receipts db1) = [] then createForPayment env p (Some u) ''en'' db1 else db1)"
  have db': "confirmAllocations env p u sug db = Inr db'" "fin_allocations db' = fin_allocations db1"
    unfolding db'_def using assms(2,3) chk db1 whole_cents_sum(2) [OF s(1)] whole_cents_sum(3) [OF s(1)]
    by (auto simp: confirmAllocations_def Let_def)
  have al: "fin_allocations (add_allocations p sug db) = fin_allocations db @ news" "list_all (\<lambda>a. al_payment_id a = p) news"
    using news(1) by (auto simp: news_ok_def list_all_iff)
  then have "filter (\<lambda>a. al_payment_id a = p) news = news" by (simp add: list_all_iff)
  then have "allocated_from (add_allocations p sug db) p = allocated_from db p + sum_list (map snd sug)"
    using allocated_from_append [OF al(1), of p] news(3) by simp
  moreover have "allocated_from db' p = allocated_from (add_allocations p sug db) p"
    using db'(2) recalculate_all_ok [OF added db1] by (simp add: allocated_from_def allocations_of_def)
  ultimately show ?thesis using db'(1) s(2-4) by auto
qed

lemma suggestions_are_accepted_witness:
  "\<exists>db'. confirmAllocations fin_env0 ''p1'' ''u1'' [(''i1'', 40)] allocated_db = Inr db' \<and>
    allocated_from db' ''p1'' = allocated_from allocated_db ''p1'' +
      min (max 0 (pay_amount (hd (fin_payments allocated_db)) - allocated_from allocated_db ''p1''))
        (sum_list (map inv_balance (unpaid_queue allocated_db (hd (fin_payments allocated_db)))))"
proof -
  have "find_payment allocated_db ''p1'' = Some (hd (fin_payments allocated_db))" "pay_status (hd (fin_payments allocated_db)) = Posted"
    "suggestAllocations ''p1'' allocated_db = Inr [(''i1'', 40)]"
    by code_simp+
  from suggestions_are_accepted [OF example_reachable(4) this] show ?thesis by blast
qed

section \<open>Where the books stop adding up\<close>




end
