(* ===== verification/Invoice_Frames.thy ===== *)
theory Invoice_Frames
  imports Finance_Claims
begin

text \<open>
  What the ledger operations leave alone of an invoice under approval: its approval request, whether it waits for an
  approval, and that only a draft is a draft afterwards.
\<close>

section \<open>What the ledger operations do to invoices under approval\<close>

definition keeps :: "invoice \<Rightarrow> invoice \<Rightarrow> bool" where
  "keeps v v' \<longleftrightarrow> inv_approval_request_id v' = inv_approval_request_id v \<and>
     (inv_status v' = Inv_pending_approval \<longleftrightarrow> inv_status v = Inv_pending_approval) \<and> (inv_status v' = Draft \<longrightarrow> inv_status v = Draft)"

definition inv_rel :: "fin_db \<Rightarrow> fin_db \<Rightarrow> bool" where
  "inv_rel db db' \<longleftrightarrow> fin_approvals db' = fin_approvals db \<and>
     (\<forall>i. case find_invoice db i of
        None \<Rightarrow> (case find_invoice db' i of None \<Rightarrow> True | Some v' \<Rightarrow> inv_status v' \<noteq> Inv_pending_approval)
      | Some v \<Rightarrow> (\<exists>v'. find_invoice db' i = Some v' \<and> keeps v v'))"

lemma keeps_refl [simp]: "keeps v v"
  by (simp add: keeps_def)

lemma keeps_trans: "keeps u v \<Longrightarrow> keeps v w \<Longrightarrow> keeps u w"
  by (auto simp: keeps_def)

lemma inv_relI:
  assumes "fin_approvals db' = fin_approvals db" "\<And>i v. find_invoice db i = Some v \<Longrightarrow> \<exists>v'. find_invoice db' i = Some v' \<and> keeps v v'"
    "\<And>i v'. find_invoice db i = None \<Longrightarrow> find_invoice db' i = Some v' \<Longrightarrow> inv_status v' \<noteq> Inv_pending_approval"
  shows "inv_rel db db'"
  using assms by (auto simp: inv_rel_def split: option.splits)

lemma inv_relD:
  assumes "inv_rel db db'"
  shows "fin_approvals db' = fin_approvals db" "find_invoice db i = Some v \<Longrightarrow> \<exists>v'. find_invoice db' i = Some v' \<and> keeps v v'"
    "find_invoice db i = None \<Longrightarrow> find_invoice db' i = Some v' \<Longrightarrow> inv_status v' \<noteq> Inv_pending_approval"
  using assms by (auto simp: inv_rel_def split: option.splits dest!: spec [of _ i])

lemma inv_rel_same: "fin_invoices db' = fin_invoices db \<Longrightarrow> fin_approvals db' = fin_approvals db \<Longrightarrow> inv_rel db db'"
  by (rule inv_relI) auto

lemma inv_rel_trans:
  assumes "inv_rel db db1" "inv_rel db1 db2"
  shows "inv_rel db db2"
proof (rule inv_relI)
  fix i v assume "find_invoice db i = Some v"
  from inv_relD(2) [OF assms(1) this] obtain v1 where v1: "find_invoice db1 i = Some v1" "keeps v v1" by blast
  from inv_relD(2) [OF assms(2) v1(1)] v1(2) show "\<exists>v'. find_invoice db2 i = Some v' \<and> keeps v v'" by (blast intro: keeps_trans)
next
  fix i v' assume n: "find_invoice db i = None" and v': "find_invoice db2 i = Some v'"
  show "inv_status v' \<noteq> Inv_pending_approval"
  proof (cases "find_invoice db1 i")
    case None from inv_relD(3) [OF assms(2) None v'] show ?thesis .
  next
    case (Some v1)
    from inv_relD(3) [OF assms(1) n Some] inv_relD(2) [OF assms(2) Some] v' show ?thesis by (auto simp: keeps_def)
  qed
qed (simp add: inv_relD(1) [OF assms(1)] inv_relD(1) [OF assms(2)])

lemma inv_rel_update:
  assumes "\<And>v. inv_id (f v) = inv_id v" "\<And>v. find_invoice db i = Some v \<Longrightarrow> keeps v (f v)"
  shows "inv_rel db (update_invoice env i f db)"
proof -
  have find: "find_invoice (update_invoice env i f db) j =
      map_option (\<lambda>v. if j = i then (f v)\<lparr>inv_updated_at := fe_now env\<rparr> else v) (find_invoice db j)" for j
    by (simp add: update_invoice_def assms(1) find_row_update)
  show ?thesis by (rule inv_relI) (use assms(2) in \<open>auto simp: find keeps_def\<close>)
qed

lemma keeps_rebalanced: "keeps v (rebalanced env db v)"
  by (auto simp: keeps_def rebalanced_def Let_def deriveInvoiceStatus_def)

lemma inv_rel_recalculate: "recalculateBalance env i db = Inr db' \<Longrightarrow> inv_rel db db'"
  by (auto simp: recalculateBalance_def split: option.splits intro!: inv_rel_update keeps_rebalanced)

lemma inv_rel_recalculate_all: "recalculate_all env is db = Inr db' \<Longrightarrow> inv_rel db db'"
  by (induction env "is" db rule: recalculate_all.induct)
     (auto split: sum.splits intro: inv_rel_trans inv_rel_recalculate inv_rel_same)

lemma add_allocation_approvals [simp]:
  "fin_approvals (add_allocation p i a db) = fin_approvals db" "fin_approvals (add_allocations p as db) = fin_approvals db"
  by (simp add: add_allocation_def) (induction p as db rule: add_allocations.induct, auto simp: add_allocation_def)

lemma createForPayment_approvals [simp]: "fin_approvals (createForPayment env p u l db) = fin_approvals db"
  by (auto simp: createForPayment_def split: prod.splits)

lemma inv_rel_receipt: "inv_rel db db1 \<Longrightarrow> inv_rel db (createForPayment env p u l db1)"
  by (erule inv_rel_trans) (auto intro: inv_rel_same)

lemma inv_rel_confirm: "whole_cents as \<Longrightarrow> confirmAllocations env p u as db = Inr db' \<Longrightarrow> inv_rel db db'"
proof -
  assume "whole_cents as" and c: "confirmAllocations env p u as db = Inr db'"
  from confirm_guards [OF c this(1)] obtain db1 where db1: "recalculate_all env (map fst as) (add_allocations p as db) = Inr db1"
      "db' = (if filter (\<lambda>r. rc_payment_id r = p) (fin_receipts db1) = [] then createForPayment env p (Some u) ''en'' db1 else db1)"
    by metis
  have "inv_rel db (add_allocations p as db)" by (rule inv_rel_same) simp_all
  from inv_rel_trans [OF this inv_rel_recalculate_all [OF db1(1)]] show "inv_rel db db'"
    using db1(2) inv_rel_receipt by simp
qed

lemma inv_rel_checkout:
  assumes "handleCheckoutCompleted env p oi oh c intent db = Inr db'"
  shows "inv_rel db db'"
proof -
  define amount where "amount = (case c of None \<Rightarrow> 0 | Some c \<Rightarrow> roundMoney (of_int c / 100))"
  show ?thesis
  proof (cases "\<not> truthy oi \<or> \<not> truthy oh \<or> amount \<le> 0 \<or> filter (\<lambda>x. pay_external_event_id x = Some intent) (fin_payments db) \<noteq> []")
    case True
    with assms have "db' = db" unfolding handleCheckoutCompleted_def Let_def amount_def [symmetric] by (simp split: if_splits)
    then show ?thesis by (simp add: inv_rel_same)
  next
    case False
    obtain n db1 where nn: "nextNumber ''payment'' ''PAYREF'' db = (n, db1)" by fastforce
    obtain x db2 where db2: "db2 = db1\<lparr>fin_payments := x\<rparr>" and res:
      "(case (case find_invoice db2 (the oi) of None \<Rightarrow> Inr db2 | Some v \<Rightarrow>
          if inv_balance v > 0 then recalculateBalance env (the oi) (add_allocation p (the oi) (roundMoney (min amount (inv_balance v))) db2)
          else Inr db2) of Inl e \<Rightarrow> Inl e | Inr db3 \<Rightarrow> Inr (createForPayment env p None ''en'' db3)) = Inr db'"
      using assms False unfolding handleCheckoutCompleted_def Let_def nn prod.case amount_def [symmetric] by auto
    have rel2: "inv_rel db db2" using nextNumber_frame [OF nn] by (intro inv_rel_same) (simp_all add: db2)
    obtain db3 where db3: "db' = createForPayment env p None ''en'' db3" and
      cs: "db3 = db2 \<or> (\<exists>a. recalculateBalance env (the oi) (add_allocation p (the oi) a db2) = Inr db3)"
      using res by (auto split: option.splits if_splits sum.splits)
    have "inv_rel db2 (add_allocation p (the oi) a db2)" for a by (rule inv_rel_same) simp_all
    with cs have "inv_rel db2 db3" by (auto intro: inv_rel_trans inv_rel_recalculate inv_rel_same)
    with rel2 have "inv_rel db db3" by (rule inv_rel_trans)
    then show ?thesis unfolding db3 by (rule inv_rel_receipt)
  qed
qed

lemma inv_rel_reverse: "reverse_loop env as rem db = Inr db' \<Longrightarrow> inv_rel db db'"
proof (induction env "as" rem db rule: reverse_loop.induct)
  case (2 env a as remaining db)
  show ?case
  proof (cases "remaining \<le> 0")
    case True with "2.prems" show ?thesis by (auto intro: inv_rel_same)
  next
    case False
    define rv where "rv = roundMoney (min remaining (al_amount a))"
    define db1 where "db1 = (if rv \<ge> al_amount a - 1 / 100
                   then db\<lparr>fin_allocations := filter (\<lambda>b. al_id b \<noteq> al_id a) (fin_allocations db)\<rparr>
                   else db\<lparr>fin_allocations := map (\<lambda>b. if al_id b = al_id a
                            then b\<lparr>al_amount := roundMoney (al_amount a - rv)\<rparr> else b) (fin_allocations db)\<rparr>)"
    obtain db2 where db2: "recalculateBalance env (al_invoice_id a) db1 = Inr db2"
        "reverse_loop env as (roundMoney (remaining - rv)) db2 = Inr db'"
      using "2.prems" False unfolding reverse_loop.simps Let_def rv_def [symmetric] db1_def [symmetric]
      by (auto split: sum.splits)
    have "inv_rel db db1" by (auto simp: db1_def intro: inv_rel_same)
    moreover have "inv_rel db2 db'"
      by (rule "2.IH" [OF False refl refl refl db2(1) [unfolded db1_def rv_def] db2(2) [unfolded rv_def]])
    ultimately show ?thesis using inv_rel_recalculate [OF db2(1)] by (blast intro: inv_rel_trans)
  qed
qed (auto intro: inv_rel_same)

lemma inv_rel_refund: "inv_rel db (snd (execute_refund env err r db))"
proof -
  have "inv_rel db db1" if st: "settle_refund env x db = Inr db1" for x db1
  proof -
    obtain db2 where db2: "reverseAllocationsLifo env (rf_payment_id x) (rf_amount x)
        (update_refund (rf_id x) (\<lambda>x. x\<lparr>rf_status := Ref_executed, rf_executed_at := Some (fe_now env)\<rparr>) db) = Inr db2"
        "db1 = set_payment_status (rf_payment_id x) db2"
      using st by (auto simp: settle_refund_def split: sum.splits)
    have "inv_rel (update_refund (rf_id x) (\<lambda>x. x\<lparr>rf_status := Ref_executed, rf_executed_at := Some (fe_now env)\<rparr>) db) db2"
      using db2(1) by (auto simp: reverseAllocationsLifo_def Let_def split: option.splits intro: inv_rel_same inv_rel_reverse)
    then have "inv_rel db db2" by (rule inv_rel_trans [OF inv_rel_same, rotated 2]) (simp_all add: update_refund_def)
    then show ?thesis by (rule inv_rel_trans) (auto simp: db2(2) set_payment_status_def intro: inv_rel_same)
  qed
  moreover have "inv_rel db (update_refund r f db1)" if "inv_rel db db1" for f db1
    by (rule inv_rel_trans [OF that], rule inv_rel_same) (simp_all add: update_refund_def)
  ultimately show ?thesis
    by (auto simp: execute_refund_def Let_def split: option.splits sum.splits intro: inv_rel_same)
qed


section \<open>Every ledger operation\<close>

lemma inv_rel_guarded:
  \<comment> \<open>an update of the row a guard has read\<close>
  assumes "find_invoice db i = Some v" "\<And>w. inv_id (f w) = inv_id w" "keeps v (f v)"
  shows "inv_rel db (update_invoice env i f db)"
  using assms by (intro inv_rel_update) auto

lemma inv_rel_appended:
  assumes "fin_approvals db' = fin_approvals db" "fin_invoices db' = fin_invoices db @ [v]" "inv_status v \<noteq> Inv_pending_approval"
  shows "inv_rel db db'"
  using assms by (intro inv_relI) (auto simp: find_row_append find_row_Cons split: if_splits option.splits)

lemma inv_rel_mapped:
  assumes "fin_approvals db' = fin_approvals db" "fin_invoices db' = map f (fin_invoices db)" "\<And>v. inv_id (f v) = inv_id v" "\<And>v. keeps v (f v)"
  shows "inv_rel db db'"
proof -
  have "find_row inv_id i (map f vs) = map_option f (find_row inv_id i vs)" for i vs
    by (induction vs) (auto simp: find_row_Cons assms(3))
  then show ?thesis using assms(1,2,4) by (intro inv_relI) auto
qed

lemma money_step_rel:
  assumes "money_step db db'"
  shows "inv_rel db db'"
  using assms
proof cases
  case (created i env u h due ls v)
  obtain n db1 where nn: "nextNumber ''invoice'' (case fe_invoice_prefix env of None \<Rightarrow> ''INV'' | Some p \<Rightarrow> p) db = (n, db1)" by fastforce
  with created(2) nextNumber_frame [OF nn] show ?thesis
    by (intro inv_rel_appended [of _ _ v]) (auto simp: create_invoice_def Let_def split: if_splits)
next
  case (edited env i ls due ex)
  then obtain v where v: "find_invoice db i = Some v" by (auto simp: update_draft_def split: option.splits)
  show ?thesis
  proof (cases ls)
    case None with edited v show ?thesis
      by (auto simp: update_draft_def keeps_def split: if_splits option.splits intro: inv_rel_same intro!: inv_rel_guarded)
  next
    case (Some l)
    let ?db = "db\<lparr>fin_lines := filter (\<lambda>l. il_invoice_id l \<noteq> i) (fin_lines db) @ map (line_of i) l\<rparr>"
    obtain f where "db' = update_invoice env i f ?db" "\<And>w. inv_id (f w) = inv_id w \<and> keeps w (f w)"
      using edited v Some by (auto simp: update_draft_def keeps_def split: if_splits)
    moreover have "inv_rel db ?db" by (rule inv_rel_same) simp_all
    ultimately show ?thesis using v by (auto intro!: inv_rel_trans [of db ?db] inv_rel_guarded)
  qed
next
  case voided then show ?thesis
    by (auto simp: voidInvoice_def isValidInvoiceTransition_def keeps_def split: option.splits if_splits intro!: inv_rel_guarded)
next
  case (written_off i v env reason) then show ?thesis
    by (auto simp: writeOff_def isValidInvoiceTransition_def keeps_def split: option.splits if_splits intro!: inv_rel_guarded)
next
  case recalculated then show ?thesis by (rule inv_rel_recalculate)
next
  case installed then show ?thesis by (auto simp: createInstallments_def split: option.splits if_splits intro: inv_rel_same)
next
  case uninstalled then show ?thesis by (auto simp: deleteInstallments_def split: option.splits intro: inv_rel_same)
next
  case (overdue env as_of)
  show ?thesis
  proof (cases "fe_finance_enabled env")
    case True then show ?thesis unfolding overdue
      by (intro inv_rel_mapped [where f = "\<lambda>v. if past_due (case as_of of None \<Rightarrow> fe_now env | Some t \<Rightarrow> t) v
            then v\<lparr>inv_status := Overdue, inv_last_overdue_notified_at := Some (fe_now env), inv_updated_at := fe_now env\<rparr> else v"])
         (auto simp: overdue_job_def Let_def keeps_def past_due_def)
  qed (simp add: overdue overdue_job_def Let_def inv_rel_same)
next
  case (late_fee env i cid)
  obtain v c where v: "find_invoice db i = Some v" and c: "find_config cid db = Some c"
    using late_fee by (auto simp: applyLateFee_def split: option.splits if_splits)
  obtain xs ys where "db' = update_invoice env i (\<lambda>w. w\<lparr>inv_total := roundMoney (inv_total w + late_fee_amount c v),
      inv_balance := roundMoney (inv_balance w + late_fee_amount c v)\<rparr>) (db\<lparr>fin_late_fees := xs, fin_lines := ys\<rparr>)"
    using late_fee v c by (auto simp: applyLateFee_def Let_def split: if_splits)
  moreover have "inv_rel db (db\<lparr>fin_late_fees := xs, fin_lines := ys\<rparr>)" by (rule inv_rel_same) simp_all
  ultimately show ?thesis using v by (auto simp: keeps_def intro!: inv_rel_trans [of db "db\<lparr>fin_late_fees := xs, fin_lines := ys\<rparr>"] inv_rel_guarded)
next
  case late_fee_config then show ?thesis by (auto simp: create_late_fee_config_def intro: inv_rel_same)
next
  case late_fee_config_changed then show ?thesis
    by (auto simp: update_late_fee_config_def split: option.splits intro: inv_rel_same)
next
  case credit_note then show ?thesis
    by (auto simp: create_credit_note_def split: if_splits prod.splits intro!: inv_rel_same)
next
  case received then show ?thesis
    by (auto simp: createManual_def split: if_splits prod.splits intro!: inv_rel_same)
next
  case allocated then show ?thesis by (rule inv_rel_confirm)
next
  case paid_online then show ?thesis using inv_rel_checkout by blast
next
  case (refund_asked r amount env u p reason)
  define pre where "pre = (if truthy (fe_receipt_prefix env) then ''REF-'' @ the (fe_receipt_prefix env) else ''REF'')"
  obtain n db1 where nn: "nextNumber ''refund'' pre db = (n, db1)" by fastforce
  with refund_asked(3) nextNumber_frame [OF nn] show ?thesis
    by (intro inv_rel_same) (auto simp: create_refund_def Let_def simp flip: pre_def split: option.splits if_splits)
next
  case refund_approved then show ?thesis
    by (auto simp: approve_refund_def update_refund_def split: option.splits if_splits intro: inv_rel_same)
next
  case refund_rejected then show ?thesis
    by (auto simp: reject_refund_def update_refund_def split: option.splits if_splits intro: inv_rel_same)
next
  case refund_executed then show ?thesis by (simp add: inv_rel_refund)
qed

end
