(* ===== verification/Approvals_Pipeline.thy ===== *)
theory Approvals_Pipeline
  imports Invoice_Frames
begin

text \<open>
  The approval of invoices from end to end, with every interleaving of the parts that the code does not run in one
  transaction: a decision reads the request, commits with a conditional update, and only then enqueues the callback;
  a retry resets the row and then enqueues; the reconciliation worker enqueues and then marks the row. A session is
  such an operation between two of its parts. The queues deliver at least once: a job stays in the queue after it ran.
\<close>

section \<open>Worlds and steps\<close>

datatype ap_session =
  Sess_decide approval_request pending_decision
| Sess_dispatch approval_request string
| Sess_retry approval_request
| Sess_retry_enqueue approval_request
| Sess_reconcile approval_request
| Sess_reconcile_mark approval_request

record world =
  w_fin :: fin_db
  w_sessions :: "ap_session list"

abbreviation requests_of :: "world \<Rightarrow> ap_db" where
  "requests_of w \<equiv> fin_approvals (w_fin w)"

definition set_ap :: "ap_db \<Rightarrow> world \<Rightarrow> world" where
  "set_ap a w = w\<lparr>w_fin := (w_fin w)\<lparr>fin_approvals := a\<rparr>\<rparr>"

definition open_session :: "ap_session \<Rightarrow> world \<Rightarrow> world" where
  "open_session s w = w\<lparr>w_sessions := w_sessions w @ [s]\<rparr>"

definition close_session :: "ap_session \<Rightarrow> world \<Rightarrow> world" where
  "close_session s w = w\<lparr>w_sessions := remove1 s (w_sessions w)\<rparr>"

definition after_decision :: "approval_request \<Rightarrow> pending_decision \<Rightarrow> world \<Rightarrow> world" where
  "after_decision r d w = (if pd_callback d then open_session (Sess_dispatch r (the (pd_approver d))) w else w)"

definition enqueue_failure :: "string \<Rightarrow> approval_request \<Rightarrow> approval_request" where
  "enqueue_failure msg r = r\<lparr>ar_callback_status := Some Cb_failed, ar_callback_error := Some msg\<rparr>"

inductive ap_step :: "world \<Rightarrow> world \<Rightarrow> bool" where
  approve_begin: "find_request (requests_of w) i = Some r \<Longrightarrow> approve_guard u r = None \<Longrightarrow>
    ap_step w (open_session (Sess_decide r (approve_decision now u c r)) w)"
| reject_begin: "find_request (requests_of w) i = Some r \<Longrightarrow> reject_guard u r = None \<Longrightarrow>
    ap_step w (open_session (Sess_decide r (reject_decision now u c)) w)"
| cancel_begin: "find_request (requests_of w) i = Some r \<Longrightarrow> cancel_guard u r = None \<Longrightarrow>
    ap_step w (open_session (Sess_decide r (cancel_decision now c)) w)"
| decide_commit: "Sess_decide r d \<in> set (w_sessions w) \<Longrightarrow> transitionPendingRequest (ar_id r) d (requests_of w) = (Inr (), a) \<Longrightarrow>
    ap_step w (after_decision r d (set_ap a (close_session (Sess_decide r d) w)))"
| decide_conflict: "Sess_decide r d \<in> set (w_sessions w) \<Longrightarrow> transitionPendingRequest (ar_id r) d (requests_of w) = (Inl e, a) \<Longrightarrow>
    ap_step w (set_ap a (close_session (Sess_decide r d) w))"
| dispatch: "Sess_dispatch r u \<in> set (w_sessions w) \<Longrightarrow>
    ap_step w (set_ap (dispatch_callback q u r (requests_of w)) (close_session (Sess_dispatch r u) w))"
| retry_begin: "find_request (requests_of w) i = Some r \<Longrightarrow> retry_guard now r = Inr False \<Longrightarrow> ap_step w (open_session (Sess_retry r) w)"
| bulk_begin: "r \<in> set (stuck_requests now filters (requests_of w)) \<Longrightarrow> buildModeACallbacks (ar_action_type r) \<noteq> None \<Longrightarrow>
    ap_step w (open_session (Sess_retry r) w)"
| retry_reset: "Sess_retry r \<in> set (w_sessions w) \<Longrightarrow>
    ap_step w (open_session (Sess_retry_enqueue r)
      (set_ap (update_request (ar_id r) reset_callback (requests_of w)) (close_session (Sess_retry r) w)))"
| retry_queued: "Sess_retry_enqueue r \<in> set (w_sessions w) \<Longrightarrow> buildModeACallbacks (ar_action_type r) = Some m \<Longrightarrow>
    ap_step w (set_ap (add_job (job_of r m (ar_approver r)) (requests_of w)) (close_session (Sess_retry_enqueue r) w))"
| retry_failed: "Sess_retry_enqueue r \<in> set (w_sessions w) \<Longrightarrow>
    ap_step w (set_ap (update_request (ar_id r) (enqueue_failure msg) (requests_of w)) (close_session (Sess_retry_enqueue r) w))"
| reconcile_begin: "r \<in> set (reconcilable now (requests_of w)) \<Longrightarrow> buildModeACallbacks (ar_action_type r) \<noteq> None \<Longrightarrow>
    ap_step w (open_session (Sess_reconcile r) w)"
| reconcile_exhausted: "Sess_reconcile r \<in> set (w_sessions w) \<Longrightarrow> ar_callback_attempts r + 1 \<ge> MAX_CALLBACK_ATTEMPTS \<Longrightarrow>
    ap_step w (set_ap (update_request (ar_id r) (exhaust_callback (ar_callback_attempts r + 1)) (requests_of w))
      (close_session (Sess_reconcile r) w))"
| reconcile_queued: "Sess_reconcile r \<in> set (w_sessions w) \<Longrightarrow> ar_callback_attempts r + 1 < MAX_CALLBACK_ATTEMPTS \<Longrightarrow>
    buildModeACallbacks (ar_action_type r) = Some m \<Longrightarrow>
    ap_step w (open_session (Sess_reconcile_mark r)
      (set_ap (add_job (job_of r m (ar_approver r)) (requests_of w)) (close_session (Sess_reconcile r) w)))"
| reconcile_failed: "Sess_reconcile r \<in> set (w_sessions w) \<Longrightarrow> ar_callback_attempts r + 1 < MAX_CALLBACK_ATTEMPTS \<Longrightarrow>
    ap_step w (set_ap (update_request (ar_id r) (requeue_failed (ar_callback_attempts r + 1) msg) (requests_of w))
      (close_session (Sess_reconcile r) w))"
| reconcile_marked: "Sess_reconcile_mark r \<in> set (w_sessions w) \<Longrightarrow>
    ap_step w (set_ap (update_request (ar_id r) (requeued_callback (ar_callback_attempts r + 1)) (requests_of w))
      (close_session (Sess_reconcile_mark r) w))"
| invoice_callback: "j \<in> set (ap_jobs (requests_of w)) \<Longrightarrow> cj_name j = ''finance:on-approval'' \<Longrightarrow>
    invoice_approval_callback env (cj_request_id j) (cj_entity_id j) (w_fin w) = Inr db' \<Longrightarrow> ap_step w (w\<lparr>w_fin := db'\<rparr>)"
| other_callback: "j \<in> set (ap_jobs (requests_of w)) \<Longrightarrow> cj_name j \<noteq> ''finance:on-approval'' \<Longrightarrow>
    f \<in> {executed_request now, healed_request now, skipped_request st} \<Longrightarrow>
    ap_step w (set_ap (update_request (cj_request_id j) f (requests_of w)) w)"
| issue: "rid \<notin> ar_id ` set (ap_requests (requests_of w)) \<Longrightarrow> issue_invoice env rid i u auth (w_fin w) = Inr db' \<Longrightarrow>
    ap_step w (w\<lparr>w_fin := db'\<rparr>)"
| cancel: "cancel_invoice env i u (w_fin w) = Inr db' \<Longrightarrow> ap_step w (w\<lparr>w_fin := db'\<rparr>)"
| other_request: "rid \<notin> ar_id ` set (ap_requests (requests_of w)) \<Longrightarrow> action \<noteq> ''invoice_issue'' \<Longrightarrow>
    checkAndCreateIfNeeded rid action etype eid u auth (requests_of w) = (Inr x, a) \<Longrightarrow> ap_step w (set_ap a w)"
| workflows: "ap_step w (set_ap ((requests_of w)\<lparr>ap_workflows := ws\<rparr>) w)"
| money: "money_step (w_fin w) db' \<Longrightarrow> ap_step w (w\<lparr>w_fin := db'\<rparr>)"

inductive_cases ap_stepE: "ap_step w w'"

definition ap_start :: "world \<Rightarrow> bool" where
  "ap_start w \<longleftrightarrow> fin_start (w_fin w) \<and> ap_requests (requests_of w) = [] \<and> ap_jobs (requests_of w) = [] \<and> w_sessions w = []"

inductive ap_reachable :: "world \<Rightarrow> bool" where
  start: "ap_start w \<Longrightarrow> ap_reachable w"
| step: "ap_reachable w \<Longrightarrow> ap_step w w' \<Longrightarrow> ap_reachable w'"


end
