(* ===== verification/Approvals_Invariants.thy ===== *)
theory Approvals_Invariants
  imports Approvals_Pipeline
begin

text \<open>
  The invariant of the approval pipeline under every interleaving of \<open>Approvals_Pipeline\<close>: requests are decided by
  somebody else, jobs and sessions point to approved requests, and an invoice waits exactly for its own request.
\<close>

section \<open>The invariant\<close>

definition mapped :: "approval_request \<Rightarrow> bool" where
  "mapped r \<longleftrightarrow> buildModeACallbacks (ar_action_type r) \<noteq> None"

definition live :: "approval_request \<Rightarrow> bool" where
  "live r \<longleftrightarrow> ar_status r \<in> {Req_approved, Req_executed}"

definition same_request :: "approval_request \<Rightarrow> approval_request \<Rightarrow> bool" where
  \<comment> \<open>the columns that no operation changes\<close>
  "same_request r r' \<longleftrightarrow> ar_id r' = ar_id r \<and> ar_action_type r' = ar_action_type r \<and> ar_entity_type r' = ar_entity_type r \<and>
     ar_entity_id r' = ar_entity_id r \<and> ar_requester r' = ar_requester r"

definition evolves :: "approval_request \<Rightarrow> approval_request \<Rightarrow> bool" where
  "evolves r r' \<longleftrightarrow> same_request r r' \<and> (live r \<longrightarrow> live r')"

definition request_ok :: "approval_request \<Rightarrow> bool" where
  "request_ok r \<longleftrightarrow>
     (ar_status r = Pending_approval \<longrightarrow> ar_approver r = None) \<and>
     (ar_approver r \<noteq> Some (ar_requester r)) \<and>
     (ar_status r \<in> {Req_approved, Req_rejected, Req_executed} \<longrightarrow> ar_approver r \<noteq> None) \<and>
     (ar_callback_status r \<noteq> None \<longrightarrow> live r \<and> mapped r) \<and>
     (ar_callback_status r = Some Cb_executed \<longrightarrow> ar_status r = Req_executed)"

definition job_ok :: "ap_db \<Rightarrow> callback_job \<Rightarrow> bool" where
  "job_ok a j \<longleftrightarrow> (\<exists>r. find_request a (cj_request_id j) = Some r \<and> live r \<and> ar_entity_id r = cj_entity_id j \<and>
     buildModeACallbacks (ar_action_type r) = Some (cj_queue j, cj_name j))"

fun session_request :: "ap_session \<Rightarrow> approval_request" where
  "session_request (Sess_decide r d) = r"
| "session_request (Sess_dispatch r u) = r"
| "session_request (Sess_retry r) = r"
| "session_request (Sess_retry_enqueue r) = r"
| "session_request (Sess_reconcile r) = r"
| "session_request (Sess_reconcile_mark r) = r"

definition decision_ok :: "approval_request \<Rightarrow> pending_decision \<Rightarrow> bool" where
  "decision_ok r d \<longleftrightarrow>
     (pd_status d \<in> {Req_approved, Req_rejected} \<and> (\<exists>u. pd_approver d = Some u \<and> u \<noteq> ar_requester r) \<or>
      pd_status d = Req_cancelled \<and> pd_approver d = None) \<and>
     (pd_callback d \<longleftrightarrow> pd_status d = Req_approved \<and> mapped r)"

definition session_ok :: "ap_db \<Rightarrow> ap_session \<Rightarrow> bool" where
  "session_ok a s \<longleftrightarrow> (\<exists>r'. find_request a (ar_id (session_request s)) = Some r' \<and> same_request (session_request s) r' \<and>
     (case s of Sess_decide r d \<Rightarrow> decision_ok r d | _ \<Rightarrow> live r' \<and> mapped r'))"

definition for_invoice :: "approval_request \<Rightarrow> bool" where
  "for_invoice r \<longleftrightarrow> ar_action_type r = ''invoice_issue''"

definition request_invoice_ok :: "fin_db \<Rightarrow> approval_request \<Rightarrow> bool" where
  "request_invoice_ok db r \<longleftrightarrow> (for_invoice r \<longrightarrow> (\<exists>v. find_invoice db (ar_entity_id r) = Some v \<and> inv_status v \<noteq> Draft \<and>
     inv_approval_request_id v = Some (ar_id r) \<and> (ar_status r = Req_executed \<longrightarrow> inv_status v \<noteq> Inv_pending_approval)))"

definition waiting_ok :: "fin_db \<Rightarrow> bool" where
  "waiting_ok db \<longleftrightarrow> (\<forall>i v. find_invoice db i = Some v \<and> inv_status v = Inv_pending_approval \<longrightarrow>
     (\<exists>q r. inv_approval_request_id v = Some q \<and> find_request (fin_approvals db) q = Some r \<and> for_invoice r \<and> ar_entity_id r = i))"

definition pipe_inv :: "world \<Rightarrow> bool" where
  "pipe_inv w \<longleftrightarrow> keys_unique ar_id (ap_requests (requests_of w)) \<and> list_all request_ok (ap_requests (requests_of w)) \<and>
     list_all (job_ok (requests_of w)) (ap_jobs (requests_of w)) \<and> list_all (session_ok (requests_of w)) (w_sessions w) \<and>
     list_all (request_invoice_ok (w_fin w)) (ap_requests (requests_of w)) \<and> waiting_ok (w_fin w)"

lemma pipe_invD:
  assumes "pipe_inv w"
  shows "keys_unique ar_id (ap_requests (requests_of w))"
    "find_request (requests_of w) i = Some r \<Longrightarrow> request_ok r \<and> request_invoice_ok (w_fin w) r \<and> ar_id r = i"
    "j \<in> set (ap_jobs (requests_of w)) \<Longrightarrow> job_ok (requests_of w) j"
    "s \<in> set (w_sessions w) \<Longrightarrow> session_ok (requests_of w) s"
    "waiting_ok (w_fin w)"
  using assms by (auto simp: pipe_inv_def list_all_iff dest!: find_row_SomeD)

lemma evolves_trans [trans]: "evolves r s \<Longrightarrow> evolves s t \<Longrightarrow> evolves r t"
  by (auto simp: evolves_def same_request_def)

lemma same_mapped: "same_request r r' \<Longrightarrow> mapped r' = mapped r"
  by (simp add: same_request_def mapped_def)

lemma same_request_trans: "same_request r s \<Longrightarrow> same_request s t \<Longrightarrow> same_request r t"
  by (simp add: same_request_def)

lemma same_request_refl [simp]: "same_request r r"
  by (simp add: same_request_def)

lemma set_ap_sel [simp]:
  "w_sessions (set_ap a w) = w_sessions w" "requests_of (set_ap a w) = a" "fin_invoices (w_fin (set_ap a w)) = fin_invoices (w_fin w)"
  by (simp_all add: set_ap_def)

lemma session_sel [simp]:
  "w_fin (open_session s w) = w_fin w" "w_fin (close_session s w) = w_fin w"
  by (simp_all add: open_session_def close_session_def)

section \<open>Updating a request\<close>

lemma update_request_tables [simp]:
  "ap_jobs (update_request i f a) = ap_jobs a" "ap_workflows (update_request i f a) = ap_workflows a"
  "ap_requests (update_request i f a) = update_row ar_id i f (ap_requests a)"
  by (simp_all add: update_request_def)

lemma job_ok_evolves:
  assumes "job_ok a j" "\<And>i r. find_request a i = Some r \<Longrightarrow> \<exists>r'. find_request a' i = Some r' \<and> evolves r r'"
  shows "job_ok a' j"
proof -
  obtain r where r: "find_request a (cj_request_id j) = Some r" "live r" "ar_entity_id r = cj_entity_id j"
    "buildModeACallbacks (ar_action_type r) = Some (cj_queue j, cj_name j)" using assms(1) by (auto simp: job_ok_def)
  from assms(2) [OF r(1)] r show ?thesis by (auto simp: job_ok_def evolves_def same_request_def)
qed

lemma session_ok_evolves:
  assumes "session_ok a s" "\<And>i r. find_request a i = Some r \<Longrightarrow> \<exists>r'. find_request a' i = Some r' \<and> evolves r r'"
  shows "session_ok a' s"
proof -
  obtain r where r: "find_request a (ar_id (session_request s)) = Some r" "same_request (session_request s) r"
    "case s of Sess_decide r d \<Rightarrow> decision_ok r d | _ \<Rightarrow> live r \<and> mapped r" using assms(1) by (auto simp: session_ok_def)
  from assms(2) [OF r(1)] obtain r' where r': "find_request a' (ar_id (session_request s)) = Some r'" "same_request r r'" "live r \<longrightarrow> live r'"
    by (auto simp: evolves_def)
  show ?thesis unfolding session_ok_def
    using r r' same_request_trans [OF r(2) r'(2)] same_mapped [OF r'(2)] by (cases s) auto
qed

lemma update_request_inv:
  assumes inv: "pipe_inv w"
    and f: "\<And>r. find_request (requests_of w) i = Some r \<Longrightarrow> request_ok r \<Longrightarrow> request_ok (f r) \<and> evolves r (f r) \<and>
      (ar_status (f r) = Req_executed \<longrightarrow> ar_status r = Req_executed \<or>
         (for_invoice r \<longrightarrow> (\<forall>v. find_invoice (w_fin w) (ar_entity_id r) = Some v \<longrightarrow> inv_status v \<noteq> Inv_pending_approval)))"
    and ids: "\<And>r. ar_id (f r) = ar_id r"
  shows "pipe_inv (set_ap (update_request i f (requests_of w)) w)"
proof -
  let ?a = "requests_of w" let ?a' = "update_request i f ?a" let ?w = "set_ap ?a' w"
  note u = pipe_invD(1) [OF inv]
  have find: "find_row ar_id j (update_row ar_id i f (ap_requests ?a)) = map_option (\<lambda>r. if j = i then f r else r) (find_request ?a j)" for j
    by (simp add: find_row_update ids)
  have here: "find_request ?a i = Some r" if "r \<in> set (ap_requests ?a)" "ar_id r = i" for r
    using find_row_in [OF u that(1)] that(2) by simp
  have ev: "\<exists>r'. find_request ?a' j = Some r' \<and> evolves r r'" if "find_request ?a j = Some r" for j r
    using f [of r] pipe_invD(2) [OF inv that] that by (auto simp: find evolves_def)
  have ok: "list_all request_ok (ap_requests ?a')"
    using inv f here by (auto simp: pipe_inv_def intro!: list_all_update_row)
  have jobs: "list_all (job_ok ?a') (ap_jobs ?a')" "list_all (session_ok ?a') (w_sessions w)"
    using inv ev by (auto simp: pipe_inv_def list_all_iff intro: job_ok_evolves session_ok_evolves)
  have "request_invoice_ok (w_fin ?w) (f r)" if "r \<in> set (ap_requests ?a)" "ar_id r = i" "request_invoice_ok (w_fin w) r" for r
    using that f [OF here [OF that(1,2)]] pipe_invD(2) [OF inv here [OF that(1,2)]]
    by (auto simp: request_invoice_ok_def for_invoice_def evolves_def same_request_def)
  moreover have "request_invoice_ok (w_fin ?w) = request_invoice_ok (w_fin w)"
    by (simp add: fun_eq_iff request_invoice_ok_def)
  ultimately have inv_ok: "list_all (request_invoice_ok (w_fin ?w)) (ap_requests ?a')"
    using inv by (auto simp: pipe_inv_def intro!: list_all_update_row)
  have "waiting_ok (w_fin ?w)"
  proof -
    have "\<exists>q r. inv_approval_request_id v = Some q \<and> find_request ?a' q = Some r \<and> for_invoice r \<and> ar_entity_id r = j"
      if v: "find_invoice (w_fin w) j = Some v" "inv_status v = Inv_pending_approval" for j v
    proof -
      obtain q r where q: "inv_approval_request_id v = Some q" "find_request ?a q = Some r" "for_invoice r" "ar_entity_id r = j"
        using pipe_invD(5) [OF inv] v unfolding waiting_ok_def by blast
      from ev [OF q(2)] q show ?thesis by (auto simp: evolves_def same_request_def for_invoice_def)
    qed
    then show ?thesis by (simp add: waiting_ok_def)
  qed
  with ok jobs inv_ok u show ?thesis by (simp add: pipe_inv_def keys_unique_update ids)
qed

section \<open>Jobs and sessions\<close>

lemma add_job_inv:
  assumes "pipe_inv w" "job_ok (requests_of w) j"
  shows "pipe_inv (set_ap (add_job j (requests_of w)) w)"
proof -
  have "job_ok (add_job j a) = job_ok a" "session_ok (add_job j a) = session_ok a" for a
    by (auto simp: fun_eq_iff job_ok_def session_ok_def add_job_def)
  moreover have "request_invoice_ok (w_fin (set_ap a w)) = request_invoice_ok (w_fin w)" for a
    by (auto simp: fun_eq_iff request_invoice_ok_def)
  ultimately show ?thesis using assms by (simp add: pipe_inv_def) (auto simp: add_job_def waiting_ok_def)
qed

lemma open_session_inv:
  assumes "pipe_inv w" "session_ok (requests_of w) s"
  shows "pipe_inv (open_session s w)"
  using assms by (simp add: pipe_inv_def) (simp add: open_session_def)

lemma close_session_inv:
  assumes "pipe_inv w"
  shows "pipe_inv (close_session s w)"
  using assms by (auto simp: pipe_inv_def close_session_def list_all_iff dest: notin_set_remove1 set_remove1_subset [THEN subsetD])

lemma job_of_ok:
  assumes "session_ok a s" "\<And>r d. s \<noteq> Sess_decide r d" "buildModeACallbacks (ar_action_type (session_request s)) = Some m"
  shows "job_ok a (job_of (session_request s) m u)"
  using assms by (cases s; cases m) (auto simp: session_ok_def job_ok_def job_of_def same_request_def)

section \<open>Invoices\<close>

definition inv_weak :: "fin_db \<Rightarrow> fin_db \<Rightarrow> bool" where
  \<comment> \<open>approval requests stay where they are, nothing starts to wait and nothing becomes a draft\<close>
  "inv_weak db db' \<longleftrightarrow> fin_approvals db' = fin_approvals db \<and>
     (\<forall>i v. find_invoice db i = Some v \<longrightarrow> (\<exists>v'. find_invoice db' i = Some v' \<and> inv_approval_request_id v' = inv_approval_request_id v \<and>
        (inv_status v' = Inv_pending_approval \<longrightarrow> inv_status v = Inv_pending_approval) \<and> (inv_status v' = Draft \<longrightarrow> inv_status v = Draft))) \<and>
     (\<forall>i v'. find_invoice db i = None \<and> find_invoice db' i = Some v' \<longrightarrow> inv_status v' \<noteq> Inv_pending_approval)"

lemma inv_rel_weak: "inv_rel db db' \<Longrightarrow> inv_weak db db'"
  unfolding inv_weak_def by (auto dest: inv_relD simp: keeps_def)

lemma inv_weak_update:
  assumes "find_invoice db i = Some v" "\<And>w. inv_id (f w) = inv_id w" "inv_approval_request_id (f v) = inv_approval_request_id v"
    "inv_status (f v) \<notin> {Inv_pending_approval, Draft}"
  shows "inv_weak db (update_invoice env i f db)"
proof -
  have find: "find_invoice (update_invoice env i f db) j =
      map_option (\<lambda>v. if j = i then (f v)\<lparr>inv_updated_at := fe_now env\<rparr> else v) (find_invoice db j)" for j
    by (simp add: update_invoice_def assms(2) find_row_update)
  show ?thesis using assms unfolding inv_weak_def by (auto simp: find)
qed

lemma weak_inv:
  assumes inv: "pipe_inv w" and weak: "inv_weak (w_fin w) db'"
  shows "pipe_inv (w\<lparr>w_fin := db'\<rparr>)"
proof -
  have ap: "fin_approvals db' = requests_of w" using weak by (simp add: inv_weak_def)
  have "request_invoice_ok db' r" if "request_invoice_ok (w_fin w) r" for r
  proof -
    { assume fi: "for_invoice r"
      with that obtain v where v: "find_invoice (w_fin w) (ar_entity_id r) = Some v" "inv_status v \<noteq> Draft"
        "inv_approval_request_id v = Some (ar_id r)" "ar_status r = Req_executed \<longrightarrow> inv_status v \<noteq> Inv_pending_approval"
        by (auto simp: request_invoice_ok_def)
      from weak v(1) obtain v' where "find_invoice db' (ar_entity_id r) = Some v'" "inv_approval_request_id v' = inv_approval_request_id v"
        "inv_status v' = Inv_pending_approval \<longrightarrow> inv_status v = Inv_pending_approval" "inv_status v' = Draft \<longrightarrow> inv_status v = Draft"
        unfolding inv_weak_def by blast
      with v have "\<exists>v. find_invoice db' (ar_entity_id r) = Some v \<and> inv_status v \<noteq> Draft \<and> inv_approval_request_id v = Some (ar_id r) \<and>
         (ar_status r = Req_executed \<longrightarrow> inv_status v \<noteq> Inv_pending_approval)" by auto }
    then show ?thesis by (simp add: request_invoice_ok_def)
  qed
  moreover have "waiting_ok db'"
    unfolding waiting_ok_def
  proof (intro allI impI, elim conjE)
    fix i v' assume v': "find_invoice db' i = Some v'" "inv_status v' = Inv_pending_approval"
    then obtain v where v: "find_invoice (w_fin w) i = Some v" using weak by (cases "find_invoice (w_fin w) i") (auto simp: inv_weak_def)
    with weak v' have "inv_status v = Inv_pending_approval" "inv_approval_request_id v' = inv_approval_request_id v"
      unfolding inv_weak_def by (metis option.inject)+
    with pipe_invD(5) [OF inv] v show "\<exists>q r. inv_approval_request_id v' = Some q \<and> find_request (fin_approvals db') q = Some r \<and>
        for_invoice r \<and> ar_entity_id r = i"
      unfolding waiting_ok_def ap by simp
  qed
  ultimately show ?thesis using inv by (auto simp: pipe_inv_def ap list_all_iff)
qed

section \<open>Decisions and callbacks\<close>

lemma stuck_requests_mem:
  "r \<in> set (stuck_requests now fs a) \<Longrightarrow> r \<in> set (ap_requests a) \<and> ar_status r = Req_approved"
  by (simp add: stuck_requests_def)

lemma reconcilable_mem: "r \<in> set (reconcilable now a) \<Longrightarrow> r \<in> set (ap_requests a) \<and> ar_status r = Req_approved"
  by (auto simp: reconcilable_def dest!: in_set_takeD stuck_requests_mem)

lemma open_begin_inv:
  \<comment> \<open>a session opened on a row that was just read\<close>
  assumes "pipe_inv w" "find_request (requests_of w) (ar_id r) = Some r" "session_request s = r"
    "case s of Sess_decide r d \<Rightarrow> decision_ok r d | _ \<Rightarrow> live r \<and> mapped r"
  shows "pipe_inv (open_session s w)"
  using assms by (intro open_session_inv) (auto simp: session_ok_def split: ap_session.splits)

definition bookkeeping :: "(approval_request \<Rightarrow> approval_request) \<Rightarrow> bool" where
  \<comment> \<open>an update of the callback columns that does not claim an execution\<close>
  "bookkeeping f \<longleftrightarrow> (\<forall>r. same_request r (f r) \<and> ar_status (f r) = ar_status r \<and> ar_approver (f r) = ar_approver r \<and>
     ar_callback_status (f r) \<noteq> Some Cb_executed)"

lemma bookkeeping_simps [simp]:
  "bookkeeping reset_callback" "bookkeeping (enqueue_failure msg)" "bookkeeping (exhaust_callback n)"
  "bookkeeping (requeued_callback n)" "bookkeeping (requeue_failed n msg)" "bookkeeping (skipped_request st)"
  "bookkeeping (\<lambda>r. r\<lparr>ar_callback_status := Some Cb_failed, ar_callback_error := e\<rparr>)"
  by (simp_all add: bookkeeping_def same_request_def reset_callback_def enqueue_failure_def exhaust_callback_def
    requeued_callback_def requeue_failed_def skipped_request_def)

lemma bookkeeping_inv:
  assumes inv: "pipe_inv w" and f: "bookkeeping f" and r: "find_request (requests_of w) i = Some r" "live r" "mapped r"
  shows "pipe_inv (set_ap (update_request i f (requests_of w)) w)"
proof (rule update_request_inv [OF inv])
  fix r' assume r': "find_request (requests_of w) i = Some r'" "request_ok r'"
  then have "same_request r' (f r')" "ar_status (f r') = ar_status r'" "ar_approver (f r') = ar_approver r'"
    "ar_callback_status (f r') \<noteq> Some Cb_executed" "r' = r" using f r(1) by (simp_all add: bookkeeping_def)
  moreover from this(1) have "mapped (f r') = mapped r'" by (rule same_mapped)
  ultimately show "request_ok (f r') \<and> evolves r' (f r') \<and> (ar_status (f r') = Req_executed \<longrightarrow> ar_status r' = Req_executed \<or>
      (for_invoice r' \<longrightarrow> (\<forall>v. find_invoice (w_fin w) (ar_entity_id r') = Some v \<longrightarrow> inv_status v \<noteq> Inv_pending_approval)))"
    using r(2,3) r'(2) by (simp add: request_ok_def evolves_def live_def) (simp add: same_request_def)
qed (use f in \<open>simp add: bookkeeping_def same_request_def\<close>)

lemma callback_session:
  assumes "\<And>r d. s \<noteq> Sess_decide r d"
  shows "session_ok a s \<longleftrightarrow> (\<exists>r'. find_request a (ar_id (session_request s)) = Some r' \<and> same_request (session_request s) r' \<and>
    live r' \<and> mapped r')"
proof (cases s)
  case (Sess_decide r d) with assms [of r d] show ?thesis by simp
qed (simp_all add: session_ok_def)

lemma session_bookkeeping_inv:
  assumes inv: "pipe_inv w" and f: "bookkeeping f" and s: "session_ok (requests_of w) s" "\<And>r d. s \<noteq> Sess_decide r d"
  shows "pipe_inv (set_ap (update_request (ar_id (session_request s)) f (requests_of w)) w)"
proof -
  obtain r where "find_request (requests_of w) (ar_id (session_request s)) = Some r" "live r" "mapped r"
    using s(1) unfolding callback_session [OF s(2)] by blast
  then show ?thesis by (rule bookkeeping_inv [OF inv f])
qed

lemma session_add_job_inv:
  assumes "pipe_inv w" "session_ok (requests_of w) s" "\<And>r d. s \<noteq> Sess_decide r d"
    "buildModeACallbacks (ar_action_type (session_request s)) = Some m"
  shows "pipe_inv (set_ap (add_job (job_of (session_request s) m u) (requests_of w)) w)"
  using assms by (intro add_job_inv job_of_ok)

lemma session_swap:
  \<comment> \<open>the next part of an operation takes the place of the last one\<close>
  assumes "pipe_inv w" "s \<in> set (w_sessions w)" "session_request s' = session_request s"
    "\<And>r d. s \<noteq> Sess_decide r d" "\<And>r d. s' \<noteq> Sess_decide r d"
  shows "pipe_inv (open_session s' (close_session s w)) \<and> session_ok (requests_of w) s'"
proof -
  have "session_ok (requests_of w) s'"
    using pipe_invD(4) [OF assms(1,2)] unfolding callback_session [OF assms(4)] callback_session [OF assms(5)] assms(3) .
  then show ?thesis using close_session_inv [OF assms(1)] by (auto intro!: open_session_inv)
qed

lemma open_set_ap: "open_session s (set_ap a w) = set_ap a (open_session s w)"
  by (simp add: open_session_def set_ap_def)

lemma apply_decision_ok:
  assumes "request_ok r" "ar_status r = Pending_approval" "decision_ok r d"
  shows "request_ok (apply_decision d r)" "evolves r (apply_decision d r)" "ar_status (apply_decision d r) \<noteq> Req_executed"
    "pd_callback d \<Longrightarrow> live (apply_decision d r) \<and> mapped (apply_decision d r)"
  using assms
  by (auto simp: request_ok_def decision_ok_def apply_decision_def evolves_def same_request_def live_def mapped_def Let_def)

lemma transition_commits:
  assumes "transitionPendingRequest i d a = (Inr (), a')" "keys_unique ar_id (ap_requests a)"
  shows "\<exists>r. find_request a i = Some r \<and> ar_status r = Pending_approval"
    "a' = update_request i (\<lambda>r. if ar_status r = Pending_approval then apply_decision d r else r) a"
proof -
  have ne: "filter (\<lambda>r. ar_id r = i \<and> ar_status r = Pending_approval) (ap_requests a) \<noteq> []"
    using assms(1) by (auto simp: transitionPendingRequest_def Let_def split: if_splits option.splits)
  then obtain r where "r \<in> set (ap_requests a)" "ar_id r = i" "ar_status r = Pending_approval" by (auto simp: filter_empty_conv)
  with find_row_in [OF assms(2)] show "\<exists>r. find_request a i = Some r \<and> ar_status r = Pending_approval" by blast
  show "a' = update_request i (\<lambda>r. if ar_status r = Pending_approval then apply_decision d r else r) a"
    using assms(1) ne by (simp add: transitionPendingRequest_def Let_def)
qed

lemma transition_fails: "transitionPendingRequest i d a = (Inl e, a') \<Longrightarrow> a' = a"
  by (auto simp: transitionPendingRequest_def Let_def split: if_splits option.splits)

lemma set_ap_same [simp]: "set_ap (requests_of w) w = w"
  by (simp add: set_ap_def)

lemma decision_inv:
  assumes inv: "pipe_inv w" and t: "transitionPendingRequest i d (requests_of w) = (Inr (), a)"
    and ok: "\<And>r. find_request (requests_of w) i = Some r \<Longrightarrow> decision_ok r d"
  shows "pipe_inv (set_ap a w)"
  unfolding transition_commits(2) [OF t pipe_invD(1) [OF inv]]
proof (rule update_request_inv [OF inv])
  fix r assume r: "find_request (requests_of w) i = Some r" "request_ok r"
  show "request_ok (if ar_status r = Pending_approval then apply_decision d r else r) \<and>
      evolves r (if ar_status r = Pending_approval then apply_decision d r else r) \<and>
      (ar_status (if ar_status r = Pending_approval then apply_decision d r else r) = Req_executed \<longrightarrow> ar_status r = Req_executed \<or>
       (for_invoice r \<longrightarrow> (\<forall>v. find_invoice (w_fin w) (ar_entity_id r) = Some v \<longrightarrow> inv_status v \<noteq> Inv_pending_approval)))"
    using apply_decision_ok [OF r(2) _ ok [OF r(1)]] r(2) by (simp add: evolves_def)
qed (simp add: apply_decision_def Let_def)

lemma decision_ok_same: "decision_ok r d \<Longrightarrow> same_request r r' \<Longrightarrow> decision_ok r' d"
  using same_mapped [of r r'] by (auto simp: decision_ok_def same_request_def)

lemma decide_commit_inv:
  assumes inv: "pipe_inv w" and s: "Sess_decide r d \<in> set (w_sessions w)"
    and t: "transitionPendingRequest (ar_id r) d (requests_of w) = (Inr (), a)"
  shows "pipe_inv (after_decision r d (set_ap a (close_session (Sess_decide r d) w)))"
proof -
  let ?w = "close_session (Sess_decide r d) w"
  obtain r' where r': "find_request (requests_of w) (ar_id r) = Some r'" "same_request r r'" "decision_ok r d"
    using pipe_invD(4) [OF inv s] by (auto simp: session_ok_def)
  have ok: "decision_ok r' d" using r' by (auto intro: decision_ok_same)
  have p: "ar_status r' = Pending_approval" using transition_commits(1) [OF t pipe_invD(1) [OF inv]] r'(1) by simp
  have committed: "pipe_inv (set_ap a ?w)"
  proof (rule decision_inv [OF close_session_inv [OF inv]])
    show "transitionPendingRequest (ar_id r) d (requests_of ?w) = (Inr (), a)" using t by simp
    show "decision_ok r1 d" if "find_request (requests_of ?w) (ar_id r) = Some r1" for r1
      using that r'(1) ok by simp
  qed
  have a: "find_request a (ar_id r) = Some (apply_decision d r')"
    unfolding transition_commits(2) [OF t pipe_invD(1) [OF inv]] using r'(1) p
    by (simp add: find_row_update apply_decision_def Let_def)
  show ?thesis
  proof (cases "pd_callback d")
    case True
    note dec = apply_decision_ok [OF conjunct1 [OF pipe_invD(2) [OF inv r'(1)]] p ok]
    have "same_request r (apply_decision d r')" using dec(2) r'(2) by (auto simp: evolves_def intro: same_request_trans)
    with committed True a dec(4) show ?thesis
      by (auto simp: after_decision_def session_ok_def intro!: open_session_inv)
  qed (simp add: after_decision_def committed)
qed

section \<open>Callbacks on invoices\<close>

definition executes :: "(approval_request \<Rightarrow> approval_request) \<Rightarrow> bool" where
  "executes f \<longleftrightarrow> (\<forall>r. same_request r (f r) \<and> ar_status (f r) = Req_executed \<and> ar_approver (f r) = ar_approver r)"

lemma executes_simps [simp]: "executes (executed_request now)" "executes (healed_request now)"
  by (simp_all add: executes_def same_request_def executed_request_def healed_request_def)

lemma execution_inv:
  assumes inv: "pipe_inv w" and f: "executes f"
    and r: "find_request (requests_of w) i = Some r" "live r" "mapped r"
    and v: "for_invoice r \<Longrightarrow> find_invoice (w_fin w) (ar_entity_id r) = Some v \<and> inv_status v \<noteq> Inv_pending_approval"
  shows "pipe_inv (set_ap (update_request i f (requests_of w)) w)"
proof (rule update_request_inv [OF inv])
  fix r' assume r': "find_request (requests_of w) i = Some r'" "request_ok r'"
  with r(1) have r: "r' = r" "live r'" "mapped r'" using r(2,3) by simp_all
  have fr: "same_request r' (f r')" "ar_status (f r') = Req_executed" "ar_approver (f r') = ar_approver r'"
    using f by (simp_all add: executes_def)
  moreover from fr(1) have "mapped (f r') = mapped r'" by (rule same_mapped)
  ultimately have "request_ok (f r') \<and> evolves r' (f r')"
    using r r'(2) by (auto simp: request_ok_def evolves_def live_def) (auto simp: same_request_def)
  with v r(1) show "request_ok (f r') \<and> evolves r' (f r') \<and> (ar_status (f r') = Req_executed \<longrightarrow>
      ar_status r' = Req_executed \<or>
      (for_invoice r' \<longrightarrow> (\<forall>v. find_invoice (w_fin w) (ar_entity_id r') = Some v \<longrightarrow> inv_status v \<noteq> Inv_pending_approval)))"
    by auto
qed (use f in \<open>simp add: executes_def same_request_def\<close>)

lemma job_request:
  assumes "pipe_inv w" "j \<in> set (ap_jobs (requests_of w))"
  obtains r where "find_request (requests_of w) (cj_request_id j) = Some r" "live r" "mapped r" "ar_entity_id r = cj_entity_id j"
    "buildModeACallbacks (ar_action_type r) = Some (cj_queue j, cj_name j)"
  using pipe_invD(3) [OF assms] by (auto simp: job_ok_def mapped_def)

lemma callback_names: "buildModeACallbacks x = Some (q, n) \<Longrightarrow> n = ''finance:on-approval'' \<longleftrightarrow> x = ''invoice_issue''"
  by (auto simp: buildModeACallbacks_def split: if_splits)

lemma set_ap_alt: "w\<lparr>w_fin := (w_fin w)\<lparr>fin_approvals := a\<rparr>\<rparr> = set_ap a w"
  by (simp add: set_ap_def)

lemma invoice_callback_inv:
  assumes inv: "pipe_inv w" and j: "j \<in> set (ap_jobs (requests_of w))" "cj_name j = ''finance:on-approval''"
    and cb: "invoice_approval_callback env (cj_request_id j) (cj_entity_id j) (w_fin w) = Inr db'"
  shows "pipe_inv (w\<lparr>w_fin := db'\<rparr>)"
proof (cases "fe_finance_enabled env")
  case True
  obtain r where r: "find_request (requests_of w) (cj_request_id j) = Some r" "live r" "mapped r" "ar_entity_id r = cj_entity_id j"
    "buildModeACallbacks (ar_action_type r) = Some (cj_queue j, cj_name j)"
    by (rule job_request [OF inv j(1)])
  obtain v where v: "find_invoice (w_fin w) (cj_entity_id j) = Some v"
    using cb True by (auto simp: invoice_approval_callback_def split: option.splits)
  show ?thesis
  proof (cases "inv_status v = Inv_pending_approval")
    case False
    then have db': "db' = (w_fin w)\<lparr>fin_approvals := update_request (cj_request_id j)
        (if inv_status v = Issued then healed_request (fe_now env) else skipped_request (inv_status v)) (requests_of w)\<rparr>"
      using cb True v r(1) by (simp add: invoice_approval_callback_def touch_request_def split: if_splits)
    show ?thesis
    proof (cases "inv_status v = Issued")
      case True
      have "pipe_inv (set_ap (update_request (cj_request_id j) (healed_request (fe_now env)) (requests_of w)) w)"
        by (rule execution_inv [OF inv _ r(1-3), of _ v]) (use v r(4) True in simp_all)
      with True show ?thesis by (simp add: db' set_ap_alt)
    next
      case False
      have "pipe_inv (set_ap (update_request (cj_request_id j) (skipped_request (inv_status v)) (requests_of w)) w)"
        by (rule bookkeeping_inv [OF inv _ r(1-3)]) simp
      with False show ?thesis by (simp add: db' set_ap_alt)
    qed
  next
    case pending: True
    let ?db = "update_invoice env (cj_entity_id j) (set_issued env) (w_fin w)" let ?w = "w\<lparr>w_fin := ?db\<rparr>"
    have "inv_weak (w_fin w) ?db" by (rule inv_weak_update [OF v]) (simp_all add: set_issued_def)
    from weak_inv [OF inv this] have inv': "pipe_inv ?w" .
    have fin: "find_invoice ?db (cj_entity_id j) = Some ((set_issued env v)\<lparr>inv_updated_at := fe_now env\<rparr>)"
      using v by (simp add: update_invoice_def set_issued_def find_row_update)
    have "pipe_inv (set_ap (update_request (cj_request_id j) (executed_request (fe_now env)) (requests_of ?w)) ?w)"
      by (rule execution_inv [OF inv', where r = r and v = "(set_issued env v)\<lparr>inv_updated_at := fe_now env\<rparr>"])
         (use r fin in \<open>simp_all add: set_issued_def update_invoice_def\<close>)
    moreover have "db' = ?db\<lparr>fin_approvals := update_request (cj_request_id j) (executed_request (fe_now env)) (requests_of w)\<rparr>"
      using cb True v r(1) pending by (simp add: invoice_approval_callback_def touch_request_def update_invoice_def)
    ultimately show ?thesis by (simp add: set_ap_def update_invoice_def)
  qed
next
  case False
  with cb have "w\<lparr>w_fin := db'\<rparr> = w" by (auto simp: invoice_approval_callback_def)
  with inv show ?thesis by simp
qed

section \<open>Requests\<close>

lemma add_request_lookup:
  assumes "rid \<notin> ar_id ` set (ap_requests a)" "ar_id r = rid"
  shows "find_row ar_id i (ap_requests a @ [r]) = (if i = rid then Some r else find_request a i)"
  using assms by (auto simp: find_row_append find_row_Cons find_row_None_iff [THEN iffD2] split: option.splits)

lemma checkAndCreate_cases:
  assumes "checkAndCreateIfNeeded rid action etype eid u auth a = (Inr x, a')"
  obtains "x = Auto_approved" "a' = a"
  | "x = Approval_needed rid" "a' = a\<lparr>ap_requests := ap_requests a @ [new_request rid action etype eid u]\<rparr>"
  using assms by (auto simp: checkAndCreateIfNeeded_def split: if_splits)

lemma add_request_inv:
  \<comment> \<open>a new request next to tables whose invoices do not wait for anything new\<close>
  assumes inv: "pipe_inv w" and fresh: "rid \<notin> ar_id ` set (ap_requests (requests_of w))"
    and n: "n = new_request rid action etype eid u" "request_invoice_ok db n"
    and ap: "fin_approvals db = (requests_of w)\<lparr>ap_requests := ap_requests (requests_of w) @ [n]\<rparr>"
    and old: "\<And>r. r \<in> set (ap_requests (requests_of w)) \<Longrightarrow> request_invoice_ok (w_fin w) r \<Longrightarrow> request_invoice_ok db r"
    and waiting: "\<And>i v. find_invoice db i = Some v \<Longrightarrow> inv_status v = Inv_pending_approval \<Longrightarrow>
      find_invoice (w_fin w) i = Some v \<or> inv_approval_request_id v = Some rid \<and> for_invoice n \<and> eid = i"
  shows "pipe_inv (w\<lparr>w_fin := db\<rparr>)"
proof -
  let ?a = "requests_of w" let ?a' = "fin_approvals db"
  have nid: "ar_id n = rid" "ar_entity_id n = eid" "request_ok n"
    by (simp_all add: n(1) new_request_def request_ok_def)
  have find: "find_request ?a' i = (if i = rid then Some n else find_request ?a i)" for i
    by (simp add: ap add_request_lookup [OF fresh nid(1)])
  have ev: "\<exists>r'. find_request ?a' i = Some r' \<and> evolves r r'" if "find_request ?a i = Some r" for i r
  proof -
    have "i \<noteq> rid" using that fresh by (auto dest!: find_row_SomeD)
    then show ?thesis using that by (simp add: find evolves_def)
  qed
  have "ap_jobs ?a' = ap_jobs ?a" "ap_requests ?a' = ap_requests ?a @ [n]" by (simp_all add: ap)
  moreover have "keys_unique ar_id (ap_requests ?a @ [n])"
    using pipe_invD(1) [OF inv] fresh nid(1) by (simp add: keys_unique_snoc)
  moreover have "list_all (job_ok ?a') (ap_jobs ?a)"
    using inv by (auto simp: pipe_inv_def list_all_iff intro: job_ok_evolves [OF _ ev])
  moreover have "list_all (session_ok ?a') (w_sessions w)"
    using inv by (auto simp: pipe_inv_def list_all_iff intro: session_ok_evolves [OF _ ev])
  moreover have "list_all (request_invoice_ok db) (ap_requests ?a @ [n])"
    using inv old n(2) by (auto simp: pipe_inv_def list_all_iff)
  moreover have "waiting_ok db"
    unfolding waiting_ok_def
  proof (intro allI impI, elim conjE)
    fix i v assume v: "find_invoice db i = Some v" "inv_status v = Inv_pending_approval"
    from waiting [OF v] show "\<exists>q r. inv_approval_request_id v = Some q \<and> find_request ?a' q = Some r \<and> for_invoice r \<and> ar_entity_id r = i"
    proof
      assume "find_invoice (w_fin w) i = Some v"
      with pipe_invD(5) [OF inv] v(2) obtain q r where q: "inv_approval_request_id v = Some q" "find_request ?a q = Some r"
        "for_invoice r" "ar_entity_id r = i" unfolding waiting_ok_def by blast
      from ev [OF q(2)] q show ?thesis by (auto simp: evolves_def same_request_def for_invoice_def)
    qed (auto simp: find nid(2))
  qed
  ultimately show ?thesis using inv nid(3) by (simp add: pipe_inv_def)
qed

lemma other_request_inv:
  assumes inv: "pipe_inv w" and "rid \<notin> ar_id ` set (ap_requests (requests_of w))" "action \<noteq> ''invoice_issue''"
    and c: "checkAndCreateIfNeeded rid action etype eid u auth (requests_of w) = (Inr x, a)"
  shows "pipe_inv (set_ap a w)"
  using c
proof (cases rule: checkAndCreate_cases)
  case 2
  have "pipe_inv (w\<lparr>w_fin := (w_fin w)\<lparr>fin_approvals := a\<rparr>\<rparr>)"
    by (rule add_request_inv [OF inv assms(2) refl])
       (use assms(3) in \<open>auto simp: 2 request_invoice_ok_def for_invoice_def new_request_def\<close>)
  then show ?thesis by (simp add: set_ap_def)
qed (simp add: inv)

lemma other_fields_inv:
  assumes "pipe_inv w" "ap_requests a = ap_requests (requests_of w)" "ap_jobs a = ap_jobs (requests_of w)"
  shows "pipe_inv (set_ap a w)"
proof -
  have "job_ok a = job_ok (requests_of w)" "session_ok a = session_ok (requests_of w)"
    using assms(2) by (auto simp: fun_eq_iff job_ok_def session_ok_def)
  moreover have "request_invoice_ok (w_fin (set_ap a w)) = request_invoice_ok (w_fin w)"
    by (auto simp: fun_eq_iff request_invoice_ok_def)
  ultimately show ?thesis using assms by (simp add: pipe_inv_def) (simp add: waiting_ok_def)
qed

lemma find_updated_invoice:
  assumes "\<And>v. inv_id (f v) = inv_id v"
  shows "find_invoice (update_invoice env i f db) j =
    map_option (\<lambda>v. if j = i then (f v)\<lparr>inv_updated_at := fe_now env\<rparr> else v) (find_invoice db j)"
  by (simp add: update_invoice_def assms find_row_update)

lemma pipe_issue_inv:
  assumes inv: "pipe_inv w" and fresh: "rid \<notin> ar_id ` set (ap_requests (requests_of w))"
    and op: "issue_invoice env rid i u auth (w_fin w) = Inr db'"
  shows "pipe_inv (w\<lparr>w_fin := db'\<rparr>)"
proof -
  obtain v where v: "find_invoice (w_fin w) i = Some v" "inv_status v = Draft"
    using op by (auto simp: issue_invoice_def split: option.splits if_splits)
  have issued: "pipe_inv (w\<lparr>w_fin := update_invoice env i (set_issued env) (w_fin w)\<rparr>)"
    by (rule weak_inv [OF inv], rule inv_weak_update [OF v(1)]) (simp_all add: set_issued_def)
  show ?thesis
  proof (cases "fe_require_approval env")
    case False with issued op v show ?thesis by (auto simp: issue_invoice_def)
  next
    case True
    then obtain x a where c: "checkAndCreateIfNeeded rid ''invoice_issue'' ''invoice'' i u auth (requests_of w) = (Inr x, a)"
      using op v by (auto simp: issue_invoice_def split: prod.splits sum.splits)
    from c show ?thesis
    proof (cases rule: checkAndCreate_cases)
      case 1 with issued op v c True show ?thesis by (auto simp: issue_invoice_def)
    next
      case 2
      let ?f = "\<lambda>v. v\<lparr>inv_status := Inv_pending_approval, inv_approval_request_id := Some rid\<rparr>"
      have db': "db' = update_invoice env i ?f ((w_fin w)\<lparr>fin_approvals := a\<rparr>)"
        using op v c True 2 by (simp add: issue_invoice_def)
      have find: "find_invoice db' j = map_option (\<lambda>v. if j = i then (?f v)\<lparr>inv_updated_at := fe_now env\<rparr> else v) (find_invoice (w_fin w) j)" for j
        unfolding db' by (simp add: find_updated_invoice)
      show ?thesis
      proof (rule add_request_inv [OF inv fresh refl])
        show "fin_approvals db' = (requests_of w)\<lparr>ap_requests := ap_requests (requests_of w) @ [new_request rid ''invoice_issue'' ''invoice'' i u]\<rparr>"
          by (simp add: db' update_invoice_def 2)
        show "request_invoice_ok db' (new_request rid ''invoice_issue'' ''invoice'' i u)"
          by (simp add: request_invoice_ok_def find v new_request_def)
        show "request_invoice_ok db' r" if "request_invoice_ok (w_fin w) r" for r
          using that v by (cases "ar_entity_id r = i") (auto simp: request_invoice_ok_def find)
        show "find_invoice (w_fin w) j = Some v \<or> inv_approval_request_id v = Some rid \<and>
            for_invoice (new_request rid ''invoice_issue'' ''invoice'' i u) \<and> i = j"
          if "find_invoice db' j = Some v" "inv_status v = Inv_pending_approval" for j v
          using that by (auto simp: find for_invoice_def new_request_def split: if_splits)
      qed
    qed
  qed
qed

lemma cancelled_weak:
  assumes "find_invoice db i = Some v"
  shows "inv_weak db (update_invoice env i (\<lambda>v. v\<lparr>inv_status := Cancelled\<rparr>) db)"
  by (rule inv_weak_update [OF assms]) simp_all

lemma pipe_cancel_inv:
  assumes inv: "pipe_inv w" and op: "cancel_invoice env i u (w_fin w) = Inr db'"
  shows "pipe_inv (w\<lparr>w_fin := db'\<rparr>)"
proof -
  obtain v where v: "find_invoice (w_fin w) i = Some v" "isValidInvoiceTransition (inv_status v) Cancelled"
    using op by (auto simp: cancel_invoice_def split: option.splits if_splits)
  show ?thesis
  proof (cases "inv_status v = Inv_pending_approval \<and> truthy (inv_approval_request_id v)")
    case False
    with op v have "db' = update_invoice env i (\<lambda>v. v\<lparr>inv_status := Cancelled\<rparr>) (w_fin w)"
      by (auto simp: cancel_invoice_def Let_def)
    with weak_inv [OF inv cancelled_weak [OF v(1)]] show ?thesis by simp
  next
    case True
    let ?q = "the (inv_approval_request_id v)"
    obtain x a where c: "cancel_request (fe_now env) ?q u None (requests_of w) = (Inr x, a)"
      "db' = update_invoice env i (\<lambda>v. v\<lparr>inv_status := Cancelled\<rparr>) ((w_fin w)\<lparr>fin_approvals := a\<rparr>)"
      using op v True by (auto simp: cancel_invoice_def Let_def split: prod.splits sum.splits)
    have t: "transitionPendingRequest ?q (cancel_decision (fe_now env) None) (requests_of w) = (Inr (), a)"
      using c(1) by (auto simp: cancel_request_def decide_def getRequest_def split: option.splits prod.splits sum.splits)
    have "pipe_inv (set_ap a w)"
      by (rule decision_inv [OF inv t]) (simp add: decision_ok_def cancel_decision_def)
    moreover have "find_invoice (w_fin (set_ap a w)) i = Some v" using v by simp
    ultimately have "pipe_inv ((set_ap a w)\<lparr>w_fin := update_invoice env i (\<lambda>v. v\<lparr>inv_status := Cancelled\<rparr>) (w_fin (set_ap a w))\<rparr>)"
      by (intro weak_inv cancelled_weak)
    then show ?thesis by (simp add: c(2) set_ap_def)
  qed
qed

section \<open>Every step\<close>

lemma session_moves:
  assumes "pipe_inv w" "s \<in> set (w_sessions w)" "\<And>r d. s \<noteq> Sess_decide r d"
  shows "bookkeeping f \<Longrightarrow> pipe_inv (set_ap (update_request (ar_id (session_request s)) f (requests_of w)) (close_session s w))"
    "buildModeACallbacks (ar_action_type (session_request s)) = Some m \<Longrightarrow>
      pipe_inv (set_ap (add_job (job_of (session_request s) m u) (requests_of w)) (close_session s w))"
  using session_bookkeeping_inv [OF close_session_inv [OF assms(1), of s], of f s] assms(3)
    session_add_job_inv [OF close_session_inv [OF assms(1), of s], of s m u] pipe_invD(4) [OF assms(1,2)] by simp_all

lemma session_moves_on:
  assumes "pipe_inv w" "s \<in> set (w_sessions w)" "session_request s' = session_request s"
    "\<And>r d. s \<noteq> Sess_decide r d" "\<And>r d. s' \<noteq> Sess_decide r d"
  shows "bookkeeping f \<Longrightarrow> pipe_inv (open_session s' (set_ap (update_request (ar_id (session_request s)) f (requests_of w)) (close_session s w)))"
    "buildModeACallbacks (ar_action_type (session_request s)) = Some m \<Longrightarrow>
      pipe_inv (open_session s' (set_ap (add_job (job_of (session_request s) m u) (requests_of w)) (close_session s w)))"
  using session_bookkeeping_inv [OF conjunct1 [OF session_swap [OF assms]], of f s'] assms(3,5)
    session_add_job_inv [OF conjunct1 [OF session_swap [OF assms]], of s' m u] session_swap [OF assms]
  by (simp_all add: open_set_ap)

lemma step_inv:
  assumes "ap_step w w'" and inv: "pipe_inv w"
  shows "pipe_inv w'"
  using assms(1)
proof cases
  case (approve_begin i r u now c)
  with find_row_SomeD [OF approve_begin(2)] show ?thesis
    by (auto intro!: open_begin_inv [OF inv] simp: decision_ok_def approve_decision_def approve_guard_def mapped_def split: if_splits)
next
  case (reject_begin i r u now c)
  with find_row_SomeD [OF reject_begin(2)] show ?thesis
    by (auto intro!: open_begin_inv [OF inv] simp: decision_ok_def reject_decision_def reject_guard_def split: if_splits)
next
  case (cancel_begin i r u now c)
  with find_row_SomeD [OF cancel_begin(2)] show ?thesis
    by (auto intro!: open_begin_inv [OF inv] simp: decision_ok_def cancel_decision_def cancel_guard_def split: if_splits)
next
  case (decide_commit r d a)
  then show ?thesis using decide_commit_inv [OF inv] by blast
next
  case (decide_conflict r d e a)
  then show ?thesis using close_session_inv [OF inv, of "Sess_decide r d"] transition_fails [OF decide_conflict(3)]
    set_ap_same [of "close_session (Sess_decide r d) w"] by simp
next
  case (dispatch r u q)
  note s = pipe_invD(4) [OF inv dispatch(2)]
  then obtain m where m: "buildModeACallbacks (ar_action_type r) = Some m"
    by (auto simp: callback_session mapped_def same_request_def)
  with session_moves(1) [OF inv dispatch(2)] session_moves(2) [OF inv dispatch(2), where m = m] dispatch show ?thesis
    by (cases q) (simp_all add: dispatch_callback_def markCallbackFailure_def)
next
  case (retry_begin i r now)
  with find_row_SomeD [OF retry_begin(2)] show ?thesis
    by (auto intro!: open_begin_inv [OF inv] simp: retry_guard_def live_def mapped_def split: if_splits)
next
  case (bulk_begin r now fs)
  with stuck_requests_mem [OF bulk_begin(2)] find_row_in [OF pipe_invD(1) [OF inv]] show ?thesis
    by (auto intro!: open_begin_inv [OF inv] simp: live_def mapped_def)
next
  case (retry_reset r)
  with session_moves_on(1) [OF inv retry_reset(2), of "Sess_retry_enqueue r"] show ?thesis by simp
next
  case (retry_queued r m)
  with session_moves(2) [OF inv retry_queued(2)] show ?thesis by simp
next
  case (retry_failed r msg)
  with session_moves(1) [OF inv retry_failed(2)] show ?thesis by simp
next
  case (reconcile_begin r now)
  with reconcilable_mem [OF reconcile_begin(2)] find_row_in [OF pipe_invD(1) [OF inv]] show ?thesis
    by (auto intro!: open_begin_inv [OF inv] simp: live_def mapped_def)
next
  case (reconcile_exhausted r)
  with session_moves(1) [OF inv reconcile_exhausted(2)] show ?thesis by simp
next
  case (reconcile_queued r m)
  with session_moves_on(2) [OF inv reconcile_queued(2), of "Sess_reconcile_mark r"] show ?thesis by simp
next
  case (reconcile_failed r msg)
  with session_moves(1) [OF inv reconcile_failed(2)] show ?thesis by simp
next
  case (reconcile_marked r)
  with session_moves(1) [OF inv reconcile_marked(2)] show ?thesis by simp
next
  case (invoice_callback j env db') then show ?thesis using invoice_callback_inv [OF inv] by blast
next
  case (other_callback j f now st)
  obtain r where r: "find_request (requests_of w) (cj_request_id j) = Some r" "live r" "mapped r"
    "buildModeACallbacks (ar_action_type r) = Some (cj_queue j, cj_name j)"
    by (rule job_request [OF inv other_callback(2)])
  have n: "\<not> for_invoice r" using callback_names [OF r(4)] other_callback(3) by (simp add: for_invoice_def)
  have "executes f \<or> bookkeeping f" using other_callback(4) by auto
  with execution_inv [OF inv _ r(1-3)] bookkeeping_inv [OF inv _ r(1-3)] n other_callback(1) show ?thesis by blast
next
  case (issue rid env i u auth db') then show ?thesis using pipe_issue_inv [OF inv] by blast
next
  case (cancel env i u db') then show ?thesis using pipe_cancel_inv [OF inv] by blast
next
  case (other_request rid action etype eid u auth x a) then show ?thesis using other_request_inv [OF inv] by blast
next
  case (workflows ws) then show ?thesis by (auto intro!: other_fields_inv [OF inv])
next
  case (money db') with weak_inv [OF inv inv_rel_weak [OF money_step_rel]] show ?thesis by simp
qed

theorem ap_reachable_inv: "ap_reachable w \<Longrightarrow> pipe_inv w"
proof (induction rule: ap_reachable.induct)
  case (start w)
  then show ?case by (simp add: ap_start_def pipe_inv_def waiting_ok_def fin_start_def keys_unique_def)
qed (rule step_inv)

end
