(* ===== verification/Approvals_Properties.thy ===== *)
theory Approvals_Properties
  imports Approvals_Invariants
begin

text \<open>
  What the approval pipeline promises of requests and of waiting invoices in every interleaving: decisions are final, an
  invoice leaves the waiting state only with a second person's approval or with its request cancelled, what the
  reconciliation worker achieves and when it gives up, and that the operations as the service runs them are runs of the
  interleaved system.
\<close>

section \<open>How a step moves a request\<close>

definition request_moves :: "approval_request \<Rightarrow> approval_request \<Rightarrow> bool" where
  \<comment> \<open>a decided request keeps its decision; the only move left is the execution of an approval\<close>
  "request_moves r r' \<longleftrightarrow> same_request r r' \<and> (ar_status r \<noteq> Pending_approval \<longrightarrow>
     ar_approver r' = ar_approver r \<and> ar_decided_at r' = ar_decided_at r \<and> ar_decision_comment r' = ar_decision_comment r \<and>
     (ar_status r' = ar_status r \<or> live r \<and> ar_status r' = Req_executed))"

definition requests_move :: "ap_db \<Rightarrow> ap_db \<Rightarrow> bool" where
  "requests_move a a' \<longleftrightarrow> (\<forall>i r. find_request a i = Some r \<longrightarrow> (\<exists>r'. find_request a' i = Some r' \<and> request_moves r r'))"

lemma request_moves_refl [simp]: "request_moves r r"
  by (simp add: request_moves_def)

lemma request_moves_trans: "request_moves r s \<Longrightarrow> request_moves s t \<Longrightarrow> request_moves r t"
  by (auto simp: request_moves_def live_def intro: same_request_trans)

lemma requests_move_same: "ap_requests a' = ap_requests a \<Longrightarrow> requests_move a a'"
  by (simp add: requests_move_def)

lemma requests_move_trans:
  assumes "requests_move a b" "requests_move b c"
  shows "requests_move a c"
  unfolding requests_move_def
proof (intro allI impI)
  fix i r assume "find_request a i = Some r"
  with assms(1) obtain s where s: "find_request b i = Some s" "request_moves r s" unfolding requests_move_def by blast
  with assms(2) obtain t where "find_request c i = Some t" "request_moves s t" unfolding requests_move_def by blast
  with s(2) show "\<exists>t. find_request c i = Some t \<and> request_moves r t" by (blast intro: request_moves_trans)
qed

lemma requests_move_update:
  assumes "\<And>r. ar_id (f r) = ar_id r" "\<And>r. find_request a i = Some r \<Longrightarrow> request_moves r (f r)"
  shows "requests_move a (update_request i f a)"
  using assms unfolding requests_move_def by (auto simp: find_row_update)

definition keeps_decision :: "(approval_request \<Rightarrow> approval_request) \<Rightarrow> bool" where
  "keeps_decision f \<longleftrightarrow> (\<forall>r. same_request r (f r) \<and> ar_approver (f r) = ar_approver r \<and> ar_decided_at (f r) = ar_decided_at r \<and>
     ar_decision_comment (f r) = ar_decision_comment r \<and> ar_status (f r) \<in> {ar_status r, Req_executed})"

lemma keeps_decision_simps [simp]:
  "keeps_decision reset_callback" "keeps_decision (enqueue_failure msg)" "keeps_decision (exhaust_callback n)"
  "keeps_decision (requeued_callback n)" "keeps_decision (requeue_failed n msg)" "keeps_decision (skipped_request st)"
  "keeps_decision (\<lambda>r. r\<lparr>ar_callback_status := Some Cb_failed, ar_callback_error := e\<rparr>)"
  "keeps_decision (executed_request now)" "keeps_decision (healed_request now)"
  by (simp_all add: keeps_decision_def same_request_def reset_callback_def enqueue_failure_def exhaust_callback_def
    requeued_callback_def requeue_failed_def skipped_request_def executed_request_def healed_request_def)

lemma requests_move_live:
  assumes "keeps_decision f" "\<And>r. find_request a i = Some r \<Longrightarrow> live r"
  shows "requests_move a (update_request i f a)"
  using assms by (intro requests_move_update) (auto simp: keeps_decision_def same_request_def request_moves_def)

lemma requests_move_decision:
  assumes "transitionPendingRequest i d a = (Inr (), a')" "keys_unique ar_id (ap_requests a)"
  shows "requests_move a a'"
  unfolding transition_commits(2) [OF assms]
  by (rule requests_move_update) (auto simp: request_moves_def same_request_def apply_decision_def Let_def)

lemma requests_move_append:
  assumes "ap_requests a' = ap_requests a @ [n]" "ar_id n \<notin> ar_id ` set (ap_requests a)"
  shows "requests_move a a'"
  unfolding requests_move_def assms(1)
proof (intro allI impI)
  fix i r assume r: "find_request a i = Some r"
  with assms(2) have "i \<noteq> ar_id n" using find_row_None_iff [of ar_id "ar_id n" "ap_requests a"] by auto
  with r show "\<exists>r'. find_row ar_id i (ap_requests a @ [n]) = Some r' \<and> request_moves r r'"
    by (simp add: add_request_lookup [OF assms(2) refl])
qed

lemma session_move:
  assumes "pipe_inv w" "s \<in> set (w_sessions w)" "\<And>r d. s \<noteq> Sess_decide r d" "keeps_decision f"
  shows "requests_move (requests_of w) (update_request (ar_id (session_request s)) f (requests_of w))"
  using pipe_invD(4) [OF assms(1,2)] unfolding callback_session [OF assms(3)]
  by (intro requests_move_live [OF assms(4)]) auto

lemma add_job_move: "requests_move a (add_job j a)"
  by (rule requests_move_same) (simp add: add_job_def)

definition callback_effect :: "int \<Rightarrow> invoice_status \<Rightarrow> approval_request \<Rightarrow> approval_request" where
  "callback_effect now st = (if st = Inv_pending_approval then executed_request now
     else if st = Issued then healed_request now else skipped_request st)"

lemma keeps_decision_callback [simp]: "keeps_decision (callback_effect now st)"
  by (simp add: callback_effect_def)

lemma callback_requests:
  assumes "invoice_approval_callback env rid i db = Inr db'"
  shows "fin_approvals db' = fin_approvals db \<or> (\<exists>st. fin_approvals db' = update_request rid (callback_effect (fe_now env) st) (fin_approvals db))"
proof (cases "fe_finance_enabled env")
  case True
  then obtain v where v: "find_invoice db i = Some v" using assms by (auto simp: invoice_approval_callback_def split: option.splits)
  have "fin_approvals db' = update_request rid (callback_effect (fe_now env) (inv_status v)) (fin_approvals db)"
    using assms True v
    by (simp add: invoice_approval_callback_def touch_request_def update_invoice_def callback_effect_def split: if_splits option.splits)
       auto
  then show ?thesis by blast
qed (use assms in \<open>simp add: invoice_approval_callback_def\<close>)

lemma step_moves_requests:
  assumes "ap_step w w'" and inv: "pipe_inv w"
  shows "requests_move (requests_of w) (requests_of w')"
  using assms(1)
proof cases
  case (decide_commit r d a)
  with requests_move_decision [OF decide_commit(3) pipe_invD(1) [OF inv]] show ?thesis by (simp add: after_decision_def)
next
  case (decide_conflict r d e a)
  with transition_fails [OF decide_conflict(3)] show ?thesis by (simp add: requests_move_same)
next
  case (dispatch r u q)
  with session_move [OF inv dispatch(2)] show ?thesis
    by (auto simp: dispatch_callback_def markCallbackFailure_def add_job_move requests_move_same split: option.splits)
next
  case (retry_reset r) with session_move [OF inv retry_reset(2)] show ?thesis by simp
next
  case (retry_failed r msg) with session_move [OF inv retry_failed(2)] show ?thesis by simp
next
  case (reconcile_exhausted r) with session_move [OF inv reconcile_exhausted(2)] show ?thesis by simp
next
  case (reconcile_failed r msg) with session_move [OF inv reconcile_failed(2)] show ?thesis by simp
next
  case (reconcile_marked r) with session_move [OF inv reconcile_marked(2)] show ?thesis by simp
next
  case (invoice_callback j env db')
  obtain r where r: "find_request (requests_of w) (cj_request_id j) = Some r" "live r" by (rule job_request [OF inv invoice_callback(2)])
  from callback_requests [OF invoice_callback(4)] show ?thesis using r invoice_callback(1) by (auto simp: requests_move_same intro!: requests_move_live)
next
  case (other_callback j f now st)
  obtain r where r: "find_request (requests_of w) (cj_request_id j) = Some r" "live r" by (rule job_request [OF inv other_callback(2)])
  have "keeps_decision f" using other_callback(4) by auto
  with r show ?thesis by (auto simp: other_callback(1) intro!: requests_move_live)
next
  case (issue rid env i u auth db')
  then consider "fin_approvals db' = requests_of w" |
    "fin_approvals db' = (requests_of w)\<lparr>ap_requests := ap_requests (requests_of w) @ [new_request rid ''invoice_issue'' ''invoice'' i u]\<rparr>"
    by (auto simp: issue_invoice_def checkAndCreateIfNeeded_def update_invoice_def split: option.splits if_splits)
  then show ?thesis using issue(1,2)
    by cases (auto simp: requests_move_same new_request_def intro!: requests_move_append)
next
  case (cancel env i u db')
  then consider "fin_approvals db' = requests_of w" |
    (c) q x where "cancel_request (fe_now env) q u None (requests_of w) = (Inr x, fin_approvals db')"
    by (auto simp: cancel_invoice_def Let_def update_invoice_def split: option.splits if_splits prod.splits sum.splits)
  then show ?thesis
  proof cases
    case c
    then have "transitionPendingRequest q (cancel_decision (fe_now env) None) (requests_of w) = (Inr (), fin_approvals db')"
      by (auto simp: cancel_request_def decide_def getRequest_def split: option.splits prod.splits sum.splits)
    from requests_move_decision [OF this pipe_invD(1) [OF inv]] show ?thesis by (simp add: cancel(1))
  qed (simp add: cancel(1) requests_move_same)
next
  case (other_request rid action etype eid u auth x a)
  from other_request(4) have "requests_move (requests_of w) a"
    by (cases rule: checkAndCreate_cases)
       (use other_request(2) in \<open>auto simp: requests_move_same new_request_def intro!: requests_move_append\<close>)
  with other_request(1) show ?thesis by simp
next
  case (money db')
  with inv_relD(1) [OF money_step_rel [OF money(2)]] show ?thesis by (simp add: requests_move_same)
qed (auto simp: requests_move_same add_job_def open_set_ap)

lemma run_moves_requests:
  assumes "ap_step\<^sup>*\<^sup>* w w'" "pipe_inv w"
  shows "pipe_inv w' \<and> requests_move (requests_of w) (requests_of w')"
  using assms
proof (induction rule: rtranclp_induct)
  case base then show ?case by (simp add: requests_move_same)
next
  case (step w1 w2)
  then show ?case by (blast intro: step_inv requests_move_trans step_moves_requests)
qed

section \<open>How a waiting invoice leaves\<close>

definition leaves_waiting :: "ap_db \<Rightarrow> string \<Rightarrow> invoice \<Rightarrow> invoice \<Rightarrow> bool" where
  \<comment> \<open>a waiting invoice waits on, is cancelled with its open request, or is issued on its approved request\<close>
  "leaves_waiting a i v v' \<longleftrightarrow> inv_approval_request_id v' = inv_approval_request_id v \<and>
     (inv_status v' = Inv_pending_approval \<or>
      inv_status v' = Cancelled \<and> (truthy (inv_approval_request_id v) \<longrightarrow>
        (\<exists>r. find_request a (the (inv_approval_request_id v)) = Some r \<and> ar_status r = Pending_approval)) \<or>
      inv_status v' = Issued \<and> (\<exists>q r. inv_approval_request_id v = Some q \<and> find_request a q = Some r \<and>
        ar_status r = Req_approved \<and> for_invoice r \<and> ar_entity_id r = i))"

lemma cancel_leaves:
  assumes "cancel_invoice env j u db = Inr db'" "find_invoice db i = Some v" "inv_status v = Inv_pending_approval"
  shows "\<exists>v'. find_invoice db' i = Some v' \<and> leaves_waiting (fin_approvals db) i v v'"
proof -
  have a: "fin_invoices db' = fin_invoices (update_invoice env j (\<lambda>v. v\<lparr>inv_status := Cancelled\<rparr>) db)"
    using assms(1) by (auto simp: cancel_invoice_def Let_def update_invoice_def split: option.splits if_splits prod.splits sum.splits)
  have find: "find_invoice db' i = map_option (\<lambda>v. if i = j then v\<lparr>inv_status := Cancelled, inv_updated_at := fe_now env\<rparr> else v) (find_invoice db i)"
    unfolding a by (simp add: find_updated_invoice)
  have "\<exists>r. find_request (fin_approvals db) (the (inv_approval_request_id v)) = Some r \<and> ar_status r = Pending_approval"
    if "j = i" "truthy (inv_approval_request_id v)"
    using assms that
    by (auto simp: cancel_invoice_def Let_def cancel_request_def decide_def cancel_guard_def split: option.splits if_splits prod.splits sum.splits)
  with assms(2,3) show ?thesis
    by (cases "j = i") (auto simp: find leaves_waiting_def)
qed

lemma callback_leaves:
  assumes inv: "pipe_inv w" and j: "j \<in> set (ap_jobs (requests_of w))" "cj_name j = ''finance:on-approval''"
    and cb: "invoice_approval_callback env (cj_request_id j) (cj_entity_id j) (w_fin w) = Inr db'"
    and v: "find_invoice (w_fin w) i = Some v" "inv_status v = Inv_pending_approval"
  shows "\<exists>v'. find_invoice db' i = Some v' \<and> leaves_waiting (requests_of w) i v v'"
proof -
  obtain r where r: "find_request (requests_of w) (cj_request_id j) = Some r" "live r" "ar_entity_id r = cj_entity_id j"
    "buildModeACallbacks (ar_action_type r) = Some (cj_queue j, cj_name j)"
    by (rule job_request [OF inv j(1)])
  have fi: "for_invoice r" using callback_names [OF r(4)] j(2) by (simp add: for_invoice_def)
  show ?thesis
  proof (cases "fin_invoices db' = fin_invoices (w_fin w)")
    case True with v show ?thesis by (auto simp: leaves_waiting_def)
  next
    case False
    then have upd: "fin_invoices db' = fin_invoices (update_invoice env (cj_entity_id j) (set_issued env) (w_fin w))"
      using cb by (auto simp: invoice_approval_callback_def touch_request_def split: option.splits if_splits)
    have find: "find_invoice db' i = map_option (\<lambda>v. if i = cj_entity_id j then (set_issued env v)\<lparr>inv_updated_at := fe_now env\<rparr> else v)
        (find_invoice (w_fin w) i)"
      unfolding upd by (rule find_updated_invoice) (simp add: set_issued_def)
    have ri: "request_invoice_ok (w_fin w) r" "ar_id r = cj_request_id j" using pipe_invD(2) [OF inv r(1)] by simp_all
    show ?thesis
    proof (cases "i = cj_entity_id j")
      case True
      with ri fi v r(3) have "inv_approval_request_id v = Some (cj_request_id j)" "ar_status r \<noteq> Req_executed"
        by (auto simp: request_invoice_ok_def)
      with True find v r fi show ?thesis by (auto simp: leaves_waiting_def set_issued_def live_def)
    qed (use v in \<open>simp add: find leaves_waiting_def\<close>)
  qed
qed

lemma issue_elsewhere:
  assumes "issue_invoice env rid j u auth db = Inr db'" "i \<noteq> j"
  shows "find_invoice db' i = find_invoice db i"
proof -
  have "find_invoice (update_invoice env j f (db\<lparr>fin_approvals := a\<rparr>)) i = find_invoice db i" if "\<And>v. inv_id (f v) = inv_id v" for f a
    using assms(2) by (simp add: find_updated_invoice [OF that] option.map_ident)
  moreover have "find_invoice (update_invoice env j (set_issued env) db) i = find_invoice db i"
    using assms(2) by (simp add: find_updated_invoice set_issued_def option.map_ident)
  ultimately show ?thesis using assms(1)
    by (auto simp: issue_invoice_def set_issued_def split: option.splits if_splits prod.splits sum.splits approval_check.splits)
qed

lemma step_leaves:
  assumes "ap_step w w'" and inv: "pipe_inv w" and v: "find_invoice (w_fin w) i = Some v" "inv_status v = Inv_pending_approval"
  shows "\<exists>v'. find_invoice (w_fin w') i = Some v' \<and> leaves_waiting (requests_of w) i v v'"
proof -
  have frame: ?thesis if "fin_invoices (w_fin w') = fin_invoices (w_fin w)" using that v by (auto simp: leaves_waiting_def)
  from assms(1) show ?thesis
  proof cases
    case invoice_callback with callback_leaves [OF inv invoice_callback(2-4) v] show ?thesis by simp
  next
    case (issue rid env j u auth db')
    obtain v0 where v0: "find_invoice (w_fin w) j = Some v0" "inv_status v0 = Draft"
      using issue(3) by (auto simp: issue_invoice_def split: option.splits if_splits)
    then have "find_invoice db' i = find_invoice (w_fin w) i" using v by (intro issue_elsewhere [OF issue(3)]) auto
    with issue(1) v show ?thesis by (simp add: leaves_waiting_def)
  next
    case (cancel env j u db') with cancel_leaves [OF cancel(2) v] show ?thesis by simp
  next
    case (money db')
    from inv_relD(2) [OF money_step_rel [OF money(2)] v(1)] money(1) v(2) show ?thesis
      by (auto simp: keeps_def leaves_waiting_def)
  qed (rule frame, simp add: after_decision_def)+
qed

end
