(* ===== verification/Approvals_Refinement.thy ===== *)
theory Approvals_Refinement
  imports Approvals_Invariants "HOL-Library.Multiset"
begin

text \<open>
  The operations as \<open>approval-requests.service.ts\<close> and the reconciliation worker run them, uninterrupted, are runs of
  the interleaved system of \<open>Approvals_Pipeline\<close>: what holds of every step holds of them.
\<close>

section \<open>Runs that leave the sessions as they were\<close>

definition runs_to :: "world \<Rightarrow> ap_db \<Rightarrow> bool" where
  "runs_to w a \<longleftrightarrow> (\<exists>w'. ap_step\<^sup>*\<^sup>* w w' \<and> w_fin w' = (w_fin w)\<lparr>fin_approvals := a\<rparr> \<and> mset (w_sessions w') = mset (w_sessions w))"

lemma runs_to_refl [simp]: "runs_to w (requests_of w)"
  unfolding runs_to_def by (intro exI [of _ w]) simp

definition holds_sessions :: "world \<Rightarrow> ap_session multiset \<Rightarrow> world \<Rightarrow> ap_db \<Rightarrow> bool" where
  \<comment> \<open>a run from the first world reached the second one, with these sessions more and these approval tables\<close>
  "holds_sessions w S w' a \<longleftrightarrow> ap_step\<^sup>*\<^sup>* w w' \<and> w_fin w' = (w_fin w)\<lparr>fin_approvals := a\<rparr> \<and>
     mset (w_sessions w') = mset (w_sessions w) + S"

lemma holds_start: "holds_sessions w {#} w (requests_of w)"
  by (simp add: holds_sessions_def)

lemma holds_runs_to: "holds_sessions w {#} w' a \<Longrightarrow> runs_to w a"
  by (auto simp: holds_sessions_def runs_to_def)

lemma holds_requests: "holds_sessions w S w' a \<Longrightarrow> requests_of w' = a"
  by (simp add: holds_sessions_def)

lemma holds_session: "holds_sessions w (add_mset s S) w' a \<Longrightarrow> s \<in> set (w_sessions w')"
  by (auto simp: holds_sessions_def simp flip: set_mset_mset)

lemma holds_open:
  assumes "holds_sessions w S w' a" "ap_step w' (open_session s w')"
  shows "holds_sessions w (add_mset s S) (open_session s w') a"
  using assms by (auto simp: holds_sessions_def open_session_def)

lemma holds_close:
  assumes "holds_sessions w (add_mset s S) w' a" "ap_step w' (set_ap a' (close_session s w'))"
  shows "holds_sessions w S (set_ap a' (close_session s w')) a'"
  using assms by (auto simp: holds_sessions_def close_session_def set_ap_def)

lemma holds_swap:
  assumes "holds_sessions w (add_mset s S) w' a" "ap_step w' (open_session s' (set_ap a' (close_session s w')))"
  shows "holds_sessions w (add_mset s' S) (open_session s' (set_ap a' (close_session s w'))) a'"
  using assms by (auto simp: holds_sessions_def close_session_def open_session_def set_ap_def)

section \<open>Decisions\<close>

lemma decision_runs:
  assumes "holds_sessions w {#Sess_decide r d#} w1 (requests_of w)" "ar_id r = i"
    and "transitionPendingRequest i d (requests_of w) = (x, a)"
  shows "\<exists>w2. holds_sessions w (case x of Inr _ \<Rightarrow> if pd_callback d then {#Sess_dispatch r (the (pd_approver d))#} else {#} | Inl _ \<Rightarrow> {#}) w2 a"
proof (cases x)
  case (Inl e)
  have "ap_step w1 (set_ap a (close_session (Sess_decide r d) w1))"
    by (rule decide_conflict [OF holds_session [OF assms(1)]]) (use assms Inl holds_requests [OF assms(1)] in simp)
  from holds_close [OF assms(1) this] Inl show ?thesis by auto
next
  case (Inr y)
  have "ap_step w1 (after_decision r d (set_ap a (close_session (Sess_decide r d) w1)))"
    by (rule decide_commit [OF holds_session [OF assms(1)]]) (use assms Inr holds_requests [OF assms(1)] in simp)
  with holds_close [OF assms(1), of a] holds_swap [OF assms(1), of "Sess_dispatch r (the (pd_approver d))" a] Inr
  show ?thesis by (auto simp: after_decision_def split: if_splits)
qed

lemma approve_runs: "runs_to w (snd (approve now q i u c (requests_of w)))"
proof -
  let ?a = "requests_of w"
  have base: ?thesis if "snd (approve now q i u c ?a) = ?a" using that by simp
  show ?thesis
  proof (cases "find_request ?a i")
    case (Some r)
    show ?thesis
    proof (cases "approve_guard u r")
      case None
      let ?d = "approve_decision now u c r"
      have i: "ar_id r = i" using find_row_SomeD [OF Some] by simp
      have h: "holds_sessions w {#Sess_decide r ?d#} (open_session (Sess_decide r ?d) w) ?a"
        by (rule holds_open [OF holds_start approve_begin [OF Some None]])
      obtain x a where t: "transitionPendingRequest i ?d ?a = (x, a)" by fastforce
      have "the (pd_approver ?d) = u" by (simp add: approve_decision_def)
      from decision_runs [OF h i t, unfolded this] obtain w2 where
        w2: "holds_sessions w (case x of Inr _ \<Rightarrow> if pd_callback ?d then {#Sess_dispatch r u#} else {#} | Inl _ \<Rightarrow> {#}) w2 a"
        by blast
      show ?thesis
      proof (cases x)
        case (Inl e) with w2 t Some None show ?thesis by (auto simp: approve_def intro: holds_runs_to)
      next
        case (Inr y)
        have res: "snd (approve now q i u c ?a) = dispatch_callback q u r a"
          using t Some None Inr by (simp add: approve_def getRequest_def split: option.splits)
        show ?thesis
        proof (cases "pd_callback ?d")
          case True
          with w2 Inr have w2: "holds_sessions w {#Sess_dispatch r u#} w2 a" by simp
          have "ap_step w2 (set_ap (dispatch_callback q u r a) (close_session (Sess_dispatch r u) w2))"
            using dispatch [OF holds_session [OF w2], of q] holds_requests [OF w2] by simp
          from holds_runs_to [OF holds_close [OF w2 this]] show ?thesis by (simp add: res)
        next
          case False
          then have "dispatch_callback q u r a = a"
            by (cases "buildModeACallbacks (ar_action_type r)") (simp_all add: approve_decision_def dispatch_callback_def)
          with w2 Inr False show ?thesis by (auto simp: res intro: holds_runs_to)
        qed
      qed
    qed (use Some in \<open>auto intro!: base simp: approve_def\<close>)
  qed (auto intro!: base simp: approve_def)
qed

lemma decide_runs:
  assumes "\<And>i r. find_request (requests_of w) i = Some r \<Longrightarrow> guard r = None \<Longrightarrow> ap_step w (open_session (Sess_decide r d) w)"
    and "\<not> pd_callback d"
  shows "runs_to w (snd (decide guard d i (requests_of w)))"
proof (cases "find_request (requests_of w) i")
  case (Some r)
  show ?thesis
  proof (cases "guard r")
    case None
    obtain x a where t: "transitionPendingRequest i d (requests_of w) = (x, a)" by fastforce
    have "ar_id r = i" using find_row_SomeD [OF Some] by simp
    from decision_runs [OF holds_open [OF holds_start assms(1) [OF Some None]] this t] assms(2)
    have "runs_to w a" by (auto split: sum.splits intro: holds_runs_to)
    then show ?thesis using t Some None by (cases x) (simp_all add: decide_def getRequest_def split: option.splits)
  qed (use Some in \<open>simp add: decide_def\<close>)
qed (simp add: decide_def)

lemma reject_runs: "runs_to w (snd (reject_request now i u c (requests_of w)))"
  unfolding reject_request_def by (rule decide_runs, rule reject_begin) (simp_all add: reject_decision_def)

lemma cancel_runs: "runs_to w (snd (cancel_request now i u c (requests_of w)))"
  unfolding cancel_request_def by (rule decide_runs, rule cancel_begin) (simp_all add: cancel_decision_def)

section \<open>Retries\<close>

lemma retry_session_runs:
  \<comment> \<open>one callback retried: the row is reset, then the queue takes the job or fails\<close>
  assumes h: "holds_sessions w (add_mset (Sess_retry r) S) w1 a" and m: "buildModeACallbacks (ar_action_type r) = Some m"
  shows "\<exists>w2. holds_sessions w S w2 (case q of
       None \<Rightarrow> add_job (job_of r m (ar_approver r)) (update_request (ar_id r) reset_callback a)
     | Some msg \<Rightarrow> update_request (ar_id r) (enqueue_failure (pre @ msg)) (update_request (ar_id r) reset_callback a))"
proof -
  let ?a1 = "update_request (ar_id r) reset_callback a"
  let ?w2 = "open_session (Sess_retry_enqueue r) (set_ap ?a1 (close_session (Sess_retry r) w1))"
  have h2: "holds_sessions w (add_mset (Sess_retry_enqueue r) S) ?w2 ?a1"
    by (rule holds_swap [OF h]) (use retry_reset [OF holds_session [OF h]] holds_requests [OF h] in simp)
  show ?thesis
  proof (cases q)
    case None
    have "ap_step ?w2 (set_ap (add_job (job_of r m (ar_approver r)) ?a1) (close_session (Sess_retry_enqueue r) ?w2))"
      using retry_queued [OF holds_session [OF h2] m] unfolding holds_requests [OF h2] .
    from holds_close [OF h2 this] None show ?thesis by auto
  next
    case (Some msg)
    have "ap_step ?w2 (set_ap (update_request (ar_id r) (enqueue_failure (pre @ msg)) ?a1) (close_session (Sess_retry_enqueue r) ?w2))"
      using retry_failed [OF holds_session [OF h2]] unfolding holds_requests [OF h2] .
    from holds_close [OF h2 this] Some show ?thesis by auto
  qed
qed

lemma retry_runs: "runs_to w (snd (retryCallback now q i (requests_of w)))"
proof (cases "find_request (requests_of w) i")
  case (Some r)
  show ?thesis
  proof (cases "retry_guard now r = Inr False")
    case True
    then obtain m where m: "buildModeACallbacks (ar_action_type r) = Some m" by (auto simp: retry_guard_def split: if_splits)
    have i: "ar_id r = i" using find_row_SomeD [OF Some] by simp
    have failure: "enqueue_failure (''Manual retry enqueue failed: '' @ msg) =
        (\<lambda>r. r\<lparr>ar_callback_status := Some Cb_failed, ar_callback_error := Some (''Manual retry enqueue failed: '' @ msg)\<rparr>)" for msg
      by (rule ext) (simp only: enqueue_failure_def)
    have "holds_sessions w {#Sess_retry r#} (open_session (Sess_retry r) w) (requests_of w)"
      by (rule holds_open [OF holds_start retry_begin [OF Some True]])
    from retry_session_runs [OF this m, where q = q and pre = "''Manual retry enqueue failed: ''"]
    have r: "runs_to w (case q of None \<Rightarrow> add_job (job_of r m (ar_approver r)) (update_request i reset_callback (requests_of w))
        | Some msg \<Rightarrow> update_request i (enqueue_failure (''Manual retry enqueue failed: '' @ msg))
            (update_request i reset_callback (requests_of w)))"
      unfolding i by (blast intro: holds_runs_to)
    show ?thesis
    proof (cases q)
      case None
      with r Some True m show ?thesis by (auto simp: retryCallback_def Let_def getRequest_def split: option.splits)
    next
      case (Some msg)
      with r \<open>find_request (requests_of w) i = Some r\<close> True show ?thesis
        by (simp add: retryCallback_def Let_def del: append.simps flip: failure)
    qed
  next
    case False
    then have "snd (retryCallback now q i (requests_of w)) = requests_of w"
      using Some by (cases "retry_guard now r") (auto simp: retryCallback_def)
    then show ?thesis by simp
  qed
qed (simp add: retryCallback_def)

definition with_callback :: "approval_request list \<Rightarrow> approval_request list" where
  "with_callback rs = filter (\<lambda>r. buildModeACallbacks (ar_action_type r) \<noteq> None) rs"

lemma open_all:
  \<comment> \<open>a loop reads all its rows first\<close>
  assumes "\<And>w' r. requests_of w' = requests_of w \<Longrightarrow> r \<in> set rs \<Longrightarrow> ap_step w' (open_session (S r) w')"
  shows "\<exists>w'. holds_sessions w (mset (map S rs)) w' (requests_of w)"
  using assms
proof (induction rs)
  case Nil show ?case by (auto intro: holds_start)
next
  case (Cons r rs)
  then obtain w' where h: "holds_sessions w (mset (map S rs)) w' (requests_of w)" by auto
  from holds_open [OF h Cons.prems] holds_requests [OF h] show ?case by auto
qed

lemma bulk_loop_runs:
  "holds_sessions w (mset (map Sess_retry (with_callback rs))) w1 a \<Longrightarrow> \<exists>w2. holds_sessions w {#} w2 (snd (bulk_retry_all q rs counts a))"
proof (induction q rs counts a arbitrary: w1 rule: bulk_retry_all.induct)
  case (1 q counts a) then show ?case by (auto simp: with_callback_def)
next
  case (2 q r rs retried skipped a)
  show ?case
  proof (cases "buildModeACallbacks (ar_action_type r)")
    case None with 2 show ?thesis by (auto simp: with_callback_def)
  next
    case (Some m)
    with "2.prems" have "holds_sessions w (add_mset (Sess_retry r) (mset (map Sess_retry (with_callback rs)))) w1 a"
      by (simp add: with_callback_def)
    from retry_session_runs [OF this Some, where q = "q (ar_id r)" and pre = "''Bulk retry enqueue failed: ''"] obtain w2 where
      w2: "holds_sessions w (mset (map Sess_retry (with_callback rs))) w2 (case q (ar_id r) of
         None \<Rightarrow> add_job (job_of r m (ar_approver r)) (update_request (ar_id r) reset_callback a)
       | Some msg \<Rightarrow> update_request (ar_id r) (enqueue_failure (''Bulk retry enqueue failed: '' @ msg)) (update_request (ar_id r) reset_callback a))"
      by blast
    have failure: "enqueue_failure (''Bulk retry enqueue failed: '' @ msg) =
        (\<lambda>r. r\<lparr>ar_callback_status := Some Cb_failed, ar_callback_error := Some (''Bulk retry enqueue failed: '' @ msg)\<rparr>)" for msg
      by (rule ext) (simp only: enqueue_failure_def)
    show ?thesis
    proof (cases "q (ar_id r)")
      case None
      with w2 "2.IH"(2) [OF Some refl None] Some show ?thesis by (simp add: Let_def)
    next
      case (Some msg)
      with w2 "2.IH"(3) [OF \<open>buildModeACallbacks (ar_action_type r) = Some m\<close> refl Some] \<open>buildModeACallbacks (ar_action_type r) = Some m\<close>
      show ?thesis unfolding failure by (simp add: Let_def)
    qed
  qed
qed

lemma bulk_runs: "runs_to w (snd (bulkRetryCallbacks now q st n (requests_of w)))"
proof -
  let ?fs = "case st of None \<Rightarrow> [Cb_failed, Cb_pending] | Some s \<Rightarrow> [s]"
  let ?rs = "take n (stuck_requests now ?fs (requests_of w))"
  have "\<exists>w'. holds_sessions w (mset (map Sess_retry (with_callback ?rs))) w' (requests_of w)"
    by (rule open_all) (auto intro!: bulk_begin [where filters = ?fs] simp: with_callback_def dest: in_set_takeD)
  then show ?thesis using bulk_loop_runs [of w ?rs _ "requests_of w" q "(0, 0)"]
    by (auto simp: bulkRetryCallbacks_def Let_def intro: holds_runs_to)
qed

section \<open>The reconciliation worker\<close>

lemma reconcile_loop_runs:
  "holds_sessions w (mset (map Sess_reconcile (with_callback rs))) w1 a \<Longrightarrow> \<exists>w2. holds_sessions w {#} w2 (reconcile_all q rs a)"
proof (induction q rs a arbitrary: w1 rule: reconcile_all.induct)
  case (1 q a) then show ?case by (auto simp: with_callback_def)
next
  case (2 q r rs a)
  show ?case
  proof (cases "buildModeACallbacks (ar_action_type r)")
    case None with 2 show ?thesis by (simp add: with_callback_def reconcile_one_def)
  next
    case (Some m)
    let ?S = "mset (map Sess_reconcile (with_callback rs))" let ?n = "ar_callback_attempts r + 1"
    from "2.prems" Some have h: "holds_sessions w (add_mset (Sess_reconcile r) ?S) w1 a" by (simp add: with_callback_def)
    note steps = holds_session [OF h] and a = holds_requests [OF h]
    have "\<exists>w2. holds_sessions w ?S w2 (reconcile_one (q (ar_id r)) r a)"
    proof (cases "?n \<ge> MAX_CALLBACK_ATTEMPTS")
      case True
      from holds_close [OF h reconcile_exhausted [OF steps True, unfolded a]] Some True show ?thesis
        by (auto simp: reconcile_one_def Let_def)
    next
      case False
      then have n: "?n < MAX_CALLBACK_ATTEMPTS" by simp
      show ?thesis
      proof (cases "q (ar_id r)")
        case None
        note h2 = holds_swap [OF h reconcile_queued [OF steps n Some, unfolded a]]
        from holds_close [OF h2 reconcile_marked [OF holds_session [OF h2], unfolded holds_requests [OF h2]]] None False Some
        show ?thesis by (auto simp: reconcile_one_def Let_def)
      next
        case (Some msg)
        from holds_close [OF h reconcile_failed [OF steps n, unfolded a]] Some False \<open>buildModeACallbacks (ar_action_type r) = Some m\<close>
        show ?thesis by (auto simp: reconcile_one_def Let_def)
      qed
    qed
    then show ?thesis using "2.IH" by auto
  qed
qed

lemma reconciliation_runs: "runs_to w (reconciliation_run now q (requests_of w))"
proof -
  have "\<exists>w'. holds_sessions w (mset (map Sess_reconcile (with_callback (reconcilable now (requests_of w))))) w' (requests_of w)"
    by (rule open_all) (auto intro!: reconcile_begin [where now = now] simp: with_callback_def)
  then show ?thesis using reconcile_loop_runs [of w _ _ "requests_of w" q]
    by (auto simp: reconciliation_run_def intro: holds_runs_to)
qed


end
