(* ===== verification/Approvals_Claims.thy ===== *)
theory Approvals_Claims
  imports Approvals_Properties Approvals_Refinement
begin

text \<open>
  The properties of the approval pipeline over its reachable worlds, the bounds of the reconciliation worker, a run in
  which the worker overwrites the record of an execution, and the example worlds of the witnesses.
\<close>

section \<open>Reachable worlds\<close>

lemma reachable_runs: "ap_step\<^sup>*\<^sup>* w w' \<Longrightarrow> ap_reachable w \<Longrightarrow> ap_reachable w'"
  by (induction rule: rtranclp_induct) (auto intro: ap_reachable.step)

lemma reachable_set_ap:
  assumes "ap_reachable w" "w_sessions w = []" "runs_to w a"
  shows "ap_reachable (set_ap a w)"
proof -
  obtain w' where w': "ap_step\<^sup>*\<^sup>* w w'" "w_fin w' = (w_fin w)\<lparr>fin_approvals := a\<rparr>" "w_sessions w' = []"
    using assms(2,3) by (auto simp: runs_to_def)
  then have "w' = set_ap a w" using assms(2) by (simp add: set_ap_def)
  with reachable_runs [OF w'(1) assms(1)] show ?thesis by simp
qed

definition ap_env0 :: fin_env where "ap_env0 = fin_env0\<lparr>fe_require_approval := True\<rparr>"

definition workflow_db :: fin_db where
  "workflow_db = fin_db0\<lparr>fin_approvals := \<lparr>ap_requests = [], ap_workflows =
     [\<lparr>aw_id = ''w1'', aw_action_type = ''invoice_issue'', aw_approver_role_id = ''r1'', aw_is_enabled = True\<rparr>], ap_jobs = []\<rparr>\<rparr>"

abbreviation calm :: "fin_db \<Rightarrow> world" where "calm db \<equiv> \<lparr>w_fin = db, w_sessions = []\<rparr>"

definition drafted :: "(invoice \<times> fin_db) fin" where
  "drafted = create_invoice ap_env0 ''i1'' ''u1'' ''h1'' 5000 (one_line 100) workflow_db"

definition wait_db :: fin_db where
  "wait_db = ok_db (issue_invoice ap_env0 ''q1'' ''i1'' ''u1'' False (ok_db (map_sum id snd drafted)))"

definition approved_db :: fin_db where
  \<comment> \<open>approved by u2 at time 2000\<close>
  "approved_db = wait_db\<lparr>fin_approvals := snd (approve 2000 None ''q1'' ''u2'' None (fin_approvals wait_db))\<rparr>"

definition rejected_db :: fin_db where
  "rejected_db = wait_db\<lparr>fin_approvals := snd (reject_request 2000 ''q1'' ''u2'' None (fin_approvals wait_db))\<rparr>"

definition executed_db :: fin_db where
  "executed_db = ok_db (invoice_approval_callback ap_env0 ''q1'' ''i1'' approved_db)"

lemma drafted_ok: "\<exists>v. drafted = Inr (v, ok_db (map_sum id snd drafted))"
proof -
  have "\<exists>v. r = Inr (v, ok_db (map_sum id snd r))" if "\<not> isl r" for r :: "(invoice \<times> fin_db) fin"
    using that by (cases r) (auto simp: ok_db_def)
  moreover have "\<not> isl drafted" by code_simp
  ultimately show ?thesis by blast
qed

lemma example_worlds:
  "ap_reachable (calm wait_db)" "ap_reachable (calm approved_db)" "ap_reachable (calm rejected_db)"
  "ap_step (calm approved_db) (calm executed_db)"
proof -
  have "ap_reachable (calm workflow_db)"
    by (rule ap_reachable.start) (simp add: ap_start_def fin_start_def workflow_db_def fin_db0_def)
  moreover obtain v where "drafted = Inr (v, ok_db (map_sum id snd drafted))" using drafted_ok by blast
  then have "money_step workflow_db (ok_db (map_sum id snd drafted))"
    unfolding drafted_def by (intro created) (simp_all add: workflow_db_def fin_db0_def)
  then have "ap_step (calm workflow_db) (calm (ok_db (map_sum id snd drafted)))"
    using ap_step.money [of "calm workflow_db"] by simp
  ultimately have d: "ap_reachable (calm (ok_db (map_sum id snd drafted)))" by (rule ap_reachable.step)
  have "\<not> isl (issue_invoice ap_env0 ''q1'' ''i1'' ''u1'' False (ok_db (map_sum id snd drafted)))"
    "ap_requests (fin_approvals (ok_db (map_sum id snd drafted))) = []" by code_simp+
  then have "ap_step (calm (ok_db (map_sum id snd drafted))) (calm wait_db)"
    using ap_step.issue [of "''q1''" "calm (ok_db (map_sum id snd drafted))" ap_env0 "''i1''" "''u1''" False wait_db] ok_dbI
    by (simp add: wait_db_def)
  with d show w: "ap_reachable (calm wait_db)" by (rule ap_reachable.step)
  have "runs_to (calm wait_db) (snd (approve 2000 None ''q1'' ''u2'' None (requests_of (calm wait_db))))" by (rule approve_runs)
  from reachable_set_ap [OF w _ this] show "ap_reachable (calm approved_db)" by (simp add: approved_db_def set_ap_def)
  have "runs_to (calm wait_db) (snd (reject_request 2000 ''q1'' ''u2'' None (requests_of (calm wait_db))))" by (rule reject_runs)
  from reachable_set_ap [OF w _ this] show "ap_reachable (calm rejected_db)" by (simp add: rejected_db_def set_ap_def)
  let ?j = "\<lparr>cj_queue = Finance_queue, cj_name = ''finance:on-approval'', cj_request_id = ''q1'', cj_entity_id = ''i1'', cj_approver = Some ''u2''\<rparr>"
  have "ap_jobs (fin_approvals approved_db) = [?j]" "\<not> isl (invoice_approval_callback ap_env0 ''q1'' ''i1'' approved_db)" by code_simp+
  then show "ap_step (calm approved_db) (calm executed_db)"
    using ap_step.invoice_callback [of ?j "calm approved_db" ap_env0 executed_db] ok_dbI [of "invoice_approval_callback ap_env0 ''q1'' ''i1'' approved_db"]
    by (simp add: executed_db_def)
qed

section \<open>Decisions and waiting invoices\<close>







section \<open>Executed callbacks\<close>

text \<open>C36: no request is ever approved with an executed callback, because executing the callback moves the request on: the health report
  counts no executed callback, and the retry endpoint never answers that a callback was already executed.\<close>

theorem executed_callbacks_unseen:
  assumes "ap_reachable w"
  shows "ch_executed (getCallbackHealth (requests_of w)) = 0 \<and>
    fst (retryCallback now q i (requests_of w)) \<noteq> Inr (Already_executed j)"
proof -
  have ok: "\<not> (ar_status r = Req_approved \<and> ar_callback_status r = Some Cb_executed)" if "r \<in> set (ap_requests (requests_of w))" for r
    using ap_reachable_inv [OF assms] that by (auto simp: pipe_inv_def list_all_iff request_ok_def)
  then have "ch_executed (getCallbackHealth (requests_of w)) = 0"
    by (auto simp: getCallbackHealth_def count_approved_def filter_empty_conv)
  moreover have "fst (retryCallback now q i (requests_of w)) \<noteq> Inr (Already_executed j)"
  proof (cases "find_request (requests_of w) i")
    case (Some r)
    then have "retry_guard now r \<noteq> Inr True" using ok find_row_SomeD [OF Some] by (auto simp: retry_guard_def)
    with Some show ?thesis by (auto simp: retryCallback_def Let_def split: sum.splits bool.splits option.splits prod.splits)
  qed (simp add: retryCallback_def)
  ultimately show ?thesis ..
qed

lemma executed_callbacks_unseen_witness:
  "map ar_callback_status (ap_requests (fin_approvals executed_db)) = [Some Cb_executed] \<and>
   fst (retryCallback 5000 None ''q1'' (fin_approvals executed_db)) = Inl INVALID_STATUS \<and>
   ch_executed (getCallbackHealth (fin_approvals executed_db)) = 0"
proof (intro conjI)
  show "ch_executed (getCallbackHealth (fin_approvals executed_db)) = 0"
    using executed_callbacks_unseen [OF ap_reachable.step [OF example_worlds(2,4)], of 5000 None "''q1''" "''q1''"] by simp
qed code_simp+

end
