(* ===== verification/Approvals_Reconciliation.thy ===== *)
theory Approvals_Reconciliation
  imports Approvals_Claims
begin

text \<open>
  The reconciliation worker (\<open>callback-reconciliation.processor.ts\<close>): what one run does to a stuck request, that the
  attempts of a request bound the runs that pick it, that a run gets an approved invoice issued, and a run in which it
  overwrites the record of an execution.
\<close>

section \<open>One run\<close>

lemma distinct_sorted_rows: "distinct (map key rows) \<Longrightarrow> distinct (map key (sort_key k rows))"
  by (simp add: distinct_map)

lemma reconcilable_distinct: "keys_unique ar_id (ap_requests a) \<Longrightarrow> distinct (map ar_id (reconcilable now a))"
  unfolding reconcilable_def stuck_requests_def keys_unique_def take_map [symmetric]
  by (intro distinct_take distinct_map_filter distinct_sorted_rows)

definition next_attempt :: "string \<Rightarrow> approval_request list \<Rightarrow> int \<Rightarrow> int" where
  "next_attempt i rs n = (case List.find (\<lambda>r. ar_id r = i) (with_callback rs) of None \<Rightarrow> n | Some r \<Rightarrow> ar_callback_attempts r + 1)"

lemma reconcile_one_row:
  assumes "find_request a i = Some r0"
  shows "\<exists>r'. find_request (reconcile_one q r a) i = Some r' \<and> same_request r0 r' \<and>
    ar_callback_attempts r' = (if mapped r \<and> ar_id r = i then ar_callback_attempts r + 1 else ar_callback_attempts r0)"
proof (cases "buildModeACallbacks (ar_action_type r)")
  case (Some m)
  let ?n = "ar_callback_attempts r + 1"
  have f: "\<And>x. same_request x (f x)" "\<And>x. ar_callback_attempts (f x) = ?n"
    if "f = exhaust_callback ?n \<or> f = requeued_callback ?n \<or> (\<exists>msg. f = requeue_failed ?n msg)" for f
    using that by (auto simp: same_request_def exhaust_callback_def requeued_callback_def requeue_failed_def)
  obtain f b where fb: "reconcile_one q r a = update_request (ar_id r) f b" "ap_requests b = ap_requests a"
    "f = exhaust_callback ?n \<or> f = requeued_callback ?n \<or> (\<exists>msg. f = requeue_failed ?n msg)"
  proof -
    consider "MAX_CALLBACK_ATTEMPTS \<le> ?n" | "\<not> MAX_CALLBACK_ATTEMPTS \<le> ?n" "q = None" | msg where "\<not> MAX_CALLBACK_ATTEMPTS \<le> ?n" "q = Some msg"
      by (cases q) auto
    then show thesis
    proof cases
      case 1 with Some show thesis by (intro that [of "exhaust_callback ?n" a]) (simp_all add: reconcile_one_def Let_def)
    next
      case 2 with Some show thesis
        by (intro that [of "requeued_callback ?n" "add_job (job_of r m (ar_approver r)) a"]) (simp_all add: reconcile_one_def Let_def add_job_def)
    next
      case (3 msg) with Some show thesis by (intro that [of "requeue_failed ?n msg" a]) (auto simp: reconcile_one_def Let_def)
    qed
  qed
  then have "find_request (reconcile_one q r a) i = Some (if i = ar_id r then f r0 else r0)"
    using assms f(1) [OF fb(3)] by (simp add: find_row_update same_request_def)
  moreover have "mapped r" using Some by (simp add: mapped_def)
  ultimately show ?thesis using f [OF fb(3)] by simp
qed (use assms in \<open>simp add: reconcile_one_def mapped_def\<close>)

lemma reconcile_all_row:
  assumes "find_request a i = Some r0" "distinct (map ar_id rs)"
  shows "\<exists>r'. find_request (reconcile_all q rs a) i = Some r' \<and> same_request r0 r' \<and>
    ar_callback_attempts r' = next_attempt i rs (ar_callback_attempts r0)"
  using assms
proof (induction q rs a arbitrary: r0 rule: reconcile_all.induct)
  case (1 q a) then show ?case by (simp add: next_attempt_def with_callback_def)
next
  case (2 q r rs a)
  obtain r1 where r1: "find_request (reconcile_one (q (ar_id r)) r a) i = Some r1" "same_request r0 r1"
    "ar_callback_attempts r1 = (if mapped r \<and> ar_id r = i then ar_callback_attempts r + 1 else ar_callback_attempts r0)"
    using reconcile_one_row [OF "2.prems"(1)] by blast
  from "2.IH" [OF r1(1)] "2.prems"(2) obtain r2 where r2: "find_request (reconcile_all q rs (reconcile_one (q (ar_id r)) r a)) i = Some r2"
    "same_request r1 r2" "ar_callback_attempts r2 = next_attempt i rs (ar_callback_attempts r1)" by auto
  have "List.find (\<lambda>x. ar_id x = i) (with_callback rs) = None" if "ar_id r = i"
    using "2.prems"(2) that by (auto simp: find_None_iff with_callback_def image_iff)
  with r2(3) r1(3) have "ar_callback_attempts r2 = next_attempt i (r # rs) (ar_callback_attempts r0)"
    by (auto simp: next_attempt_def with_callback_def mapped_def)
  with r2(1) same_request_trans [OF r1(2) r2(2)] show ?case by auto
qed

lemma reconciliation_row:
  assumes inv: "pipe_inv w" and r: "find_request (requests_of w) i = Some r"
  shows "\<exists>r'. find_request (reconciliation_run now q (requests_of w)) i = Some r' \<and> same_request r r' \<and>
    ar_callback_attempts r' = (if i \<in> ar_id ` set (reconcilable now (requests_of w)) then ar_callback_attempts r + 1 else ar_callback_attempts r)"
proof -
  let ?rs = "reconcilable now (requests_of w)"
  note u = pipe_invD(1) [OF inv]
  have row: "x = r" if "x \<in> set ?rs" "ar_id x = i" for x
    using reconcilable_mem [OF that(1)] find_row_in [OF u, of x] that(2) r by simp
  have map: "mapped x" if "x \<in> set ?rs" for x
  proof -
    have "x \<in> set (ap_requests (requests_of w))" "ar_callback_status x \<noteq> None"
      using that by (auto simp: reconcilable_def stuck_requests_def dest!: in_set_takeD split: option.splits)
    with inv show ?thesis by (auto simp: pipe_inv_def list_all_iff request_ok_def)
  qed
  then have "with_callback ?rs = ?rs" by (auto simp: with_callback_def mapped_def intro!: filter_True)
  then have "next_attempt i ?rs (ar_callback_attempts r) =
      (if i \<in> ar_id ` set ?rs then ar_callback_attempts r + 1 else ar_callback_attempts r)"
    using row by (auto simp: next_attempt_def find_None_iff find_Some_iff split: option.splits) (metis nth_mem)+
  with reconcile_all_row [OF r reconcilable_distinct [OF u, of now], where q = q] show ?thesis
    unfolding reconciliation_run_def by metis
qed

section \<open>The attempts bound the runs\<close>

fun picked :: "string \<Rightarrow> (int \<times> (string \<Rightarrow> enqueue_outcome)) list \<Rightarrow> ap_db \<Rightarrow> nat" where
  \<comment> \<open>in how many of the runs, at these times and with these queues, the worker picks a request\<close>
  "picked i [] a = 0"
| "picked i ((now, q) # runs) a =
     (if i \<in> ar_id ` set (reconcilable now a) then 1 else 0) + picked i runs (reconciliation_run now q a)"

text \<open>C37: the reconciliation worker gives up on a request: however many runs there are, whenever they come and whatever the queues
  answer, the runs that pick a request are at most the attempts that are left of its five.\<close>

theorem reconciliation_gives_up:
  assumes "ap_reachable w" and "find_request (requests_of w) i = Some r"
  shows "picked i runs (requests_of w) \<le> nat (MAX_CALLBACK_ATTEMPTS - ar_callback_attempts r)"
  using assms
proof (induction i runs "requests_of w" arbitrary: w r rule: picked.induct)
  case (2 i now q runs w)
  let ?a = "reconciliation_run now q (requests_of w)"
  obtain w' where w': "ap_step\<^sup>*\<^sup>* w w'" "requests_of w' = ?a"
    using reconciliation_runs [of w now q] by (auto simp: runs_to_def)
  have inv: "pipe_inv w" by (rule ap_reachable_inv [OF "2.prems"(1)])
  from reconciliation_row [OF inv "2.prems"(2), of now q] obtain r' where r': "find_request ?a i = Some r'"
    "ar_callback_attempts r' = (if i \<in> ar_id ` set (reconcilable now (requests_of w)) then ar_callback_attempts r + 1 else ar_callback_attempts r)"
    by blast
  have "picked i runs ?a \<le> nat (MAX_CALLBACK_ATTEMPTS - ar_callback_attempts r')"
    using "2.hyps" [OF w'(2) [symmetric] reachable_runs [OF w'(1) "2.prems"(1)]] r'(1) w'(2) by simp
  moreover have "ar_callback_attempts r < MAX_CALLBACK_ATTEMPTS" if "i \<in> ar_id ` set (reconcilable now (requests_of w))"
  proof -
    from that obtain x where x: "x \<in> set (reconcilable now (requests_of w))" "ar_id x = i" by auto
    with reconcilable_mem [OF x(1)] find_row_in [OF pipe_invD(1) [OF inv], of x] "2.prems"(2) have "x = r" by simp
    with x(1) show ?thesis by (auto simp: reconcilable_def dest!: in_set_takeD)
  qed
  ultimately show ?case using r'(2) by (auto split: if_splits)
qed simp

lemma reconciliation_gives_up_witness:
  "picked ''q1'' (replicate 8 (2000000, \<lambda>_. None)) (fin_approvals approved_db) = 5 \<and>
   picked ''q1'' (replicate 8 (2000000, \<lambda>_. None)) (fin_approvals approved_db) \<le> nat (MAX_CALLBACK_ATTEMPTS - 0)"
proof
  show "picked ''q1'' (replicate 8 (2000000, \<lambda>_. None)) (fin_approvals approved_db) = 5" by code_simp
  let ?r = "hd (ap_requests (fin_approvals approved_db))"
  have "find_request (fin_approvals approved_db) ''q1'' = Some ?r" "ar_callback_attempts ?r = 0" by code_simp+
  with reconciliation_gives_up [OF example_worlds(2), of "''q1''" ?r]
  show "picked ''q1'' (replicate 8 (2000000, \<lambda>_. None)) (fin_approvals approved_db) \<le> nat (MAX_CALLBACK_ATTEMPTS - 0)" by simp
qed

section \<open>What a run achieves\<close>

lemma reconcile_one_jobs: "set (ap_jobs a) \<subseteq> set (ap_jobs (reconcile_one q r a))"
  by (auto simp: reconcile_one_def Let_def add_job_def split: option.splits)

lemma reconcile_all_jobs: "set (ap_jobs a) \<subseteq> set (ap_jobs (reconcile_all q rs a))"
  by (induction q rs a rule: reconcile_all.induct) (simp, use reconcile_one_jobs in \<open>simp, blast\<close>)

lemma reconcile_all_queues:
  assumes "r \<in> set rs" "buildModeACallbacks (ar_action_type r) = Some m" "ar_callback_attempts r + 1 < MAX_CALLBACK_ATTEMPTS"
  shows "job_of r m (ar_approver r) \<in> set (ap_jobs (reconcile_all (\<lambda>_. None) rs a))"
  using assms
proof (induction rs arbitrary: a)
  case (Cons x rs)
  show ?case
  proof (cases "x = r")
    case True
    with Cons.prems have "job_of r m (ar_approver r) \<in> set (ap_jobs (reconcile_one None r a))"
      by (simp add: reconcile_one_def Let_def add_job_def)
    with True reconcile_all_jobs show ?thesis by (auto dest: subsetD)
  qed (use Cons in auto)
qed simp

text \<open>C38: the reconciliation worker recovers a lost callback: when it picks the approved request of a waiting invoice with attempts to
  spare and the queues accept, the queue afterwards holds a job for the request, and running that job issues the invoice and
  marks the request executed.\<close>

theorem reconciliation_recovers:
  assumes "ap_reachable w" and "r \<in> set (reconcilable now (requests_of w))" and "ar_action_type r = ''invoice_issue''"
    and "ar_callback_attempts r + 1 < MAX_CALLBACK_ATTEMPTS" and "fe_finance_enabled env"
    and "find_invoice (w_fin w) (ar_entity_id r) = Some v" and "inv_status v = Inv_pending_approval"
  shows "\<exists>j db' v' r'. j \<in> set (ap_jobs (reconciliation_run now (\<lambda>_. None) (requests_of w))) \<and> cj_request_id j = ar_id r \<and>
    invoice_approval_callback env (cj_request_id j) (cj_entity_id j)
      ((w_fin w)\<lparr>fin_approvals := reconciliation_run now (\<lambda>_. None) (requests_of w)\<rparr>) = Inr db' \<and>
    find_invoice db' (ar_entity_id r) = Some v' \<and> inv_status v' = Issued \<and>
    find_request (fin_approvals db') (ar_id r) = Some r' \<and> ar_status r' = Req_executed"
proof -
  let ?a = "reconciliation_run now (\<lambda>_. None) (requests_of w)" and ?m = "(Finance_queue, ''finance:on-approval'')"
  let ?j = "job_of r ?m (ar_approver r)"
  have inv: "pipe_inv w" by (rule ap_reachable_inv [OF assms(1)])
  have "buildModeACallbacks (ar_action_type r) = Some ?m" by (simp add: assms(3) buildModeACallbacks_def)
  from reconcile_all_queues [OF assms(2) this assms(4)] have j: "?j \<in> set (ap_jobs ?a)" unfolding reconciliation_run_def .
  have jsel: "cj_request_id ?j = ar_id r" "cj_entity_id ?j = ar_entity_id r" by (simp_all add: job_of_def)
  have "find_request (requests_of w) (ar_id r) = Some r"
    using reconcilable_mem [OF assms(2)] find_row_in [OF pipe_invD(1) [OF inv]] by blast
  from reconciliation_row [OF inv this] obtain r1 where r1: "find_request ?a (ar_id r) = Some r1" by blast
  let ?db = "update_invoice env (ar_entity_id r) (set_issued env) ((w_fin w)\<lparr>fin_approvals := ?a\<rparr>)"
  let ?db' = "?db\<lparr>fin_approvals := update_request (ar_id r) (executed_request (fe_now env)) ?a\<rparr>"
  have "find_invoice ?db' (ar_entity_id r) = Some ((set_issued env v)\<lparr>inv_updated_at := fe_now env\<rparr>)"
    using assms(6) by (simp add: update_invoice_def set_issued_def find_row_update)
  moreover have "find_request (fin_approvals ?db') (ar_id r) = Some (executed_request (fe_now env) r1)"
    using r1 by (simp add: find_row_update executed_request_def)
  moreover have "invoice_approval_callback env (cj_request_id ?j) (cj_entity_id ?j) ((w_fin w)\<lparr>fin_approvals := ?a\<rparr>) = Inr ?db'"
    using assms(5-7) r1 by (simp add: jsel invoice_approval_callback_def touch_request_def update_invoice_def)
  ultimately show ?thesis using j jsel(1)
    by (intro exI [of _ ?j] exI [of _ ?db'] exI [of _ "(set_issued env v)\<lparr>inv_updated_at := fe_now env\<rparr>"]
        exI [of _ "executed_request (fe_now env) r1"]) (simp add: set_issued_def executed_request_def)
qed

lemma reconciliation_recovers_witness:
  "\<exists>j db' v' r'. j \<in> set (ap_jobs (reconciliation_run 2000000 (\<lambda>_. None) (fin_approvals approved_db))) \<and> cj_request_id j = ''q1'' \<and>
    invoice_approval_callback ap_env0 (cj_request_id j) (cj_entity_id j)
      (approved_db\<lparr>fin_approvals := reconciliation_run 2000000 (\<lambda>_. None) (fin_approvals approved_db)\<rparr>) = Inr db' \<and>
    find_invoice db' ''i1'' = Some v' \<and> inv_status v' = Issued \<and>
    find_request (fin_approvals db') ''q1'' = Some r' \<and> ar_status r' = Req_executed"
proof -
  let ?r = "hd (reconcilable 2000000 (fin_approvals approved_db))" and ?v = "hd (fin_invoices approved_db)"
  have r: "?r \<in> set (reconcilable 2000000 (fin_approvals approved_db))"
  proof (rule hd_in_set)
    have "map ar_id (reconcilable 2000000 (fin_approvals approved_db)) = [''q1'']" by code_simp
    then show "reconcilable 2000000 (fin_approvals approved_db) \<noteq> []" by auto
  qed
  have "ar_action_type ?r = ''invoice_issue''" "ar_callback_attempts ?r + 1 < MAX_CALLBACK_ATTEMPTS" "fe_finance_enabled ap_env0"
    "find_invoice approved_db (ar_entity_id ?r) = Some ?v" "inv_status ?v = Inv_pending_approval"
    and sel: "ar_id ?r = ''q1''" "ar_entity_id ?r = ''i1''" by code_simp+
  from reconciliation_recovers [OF example_worlds(2), of ?r 2000000 ap_env0 ?v] this r show ?thesis unfolding sel by simp
qed

section \<open>A lost record of an execution\<close>

definition late_request :: approval_request where "late_request = hd (reconcilable 2000000 (fin_approvals approved_db))"

definition late_job :: callback_job where
  "late_job = job_of late_request (Finance_queue, ''finance:on-approval'') (ar_approver late_request)"

definition late_queued :: world where
  \<comment> \<open>the worker has enqueued and not yet marked the row\<close>
  "late_queued = open_session (Sess_reconcile_mark late_request) (set_ap (add_job late_job (fin_approvals approved_db))
     (close_session (Sess_reconcile late_request) (open_session (Sess_reconcile late_request) (calm approved_db))))"

definition late_executed :: world where
  "late_executed = late_queued\<lparr>w_fin := ok_db (invoice_approval_callback ap_env0 ''q1'' ''i1'' (w_fin late_queued))\<rparr>"

definition late_marked :: world where
  "late_marked = set_ap (update_request (ar_id late_request) (requeued_callback (ar_callback_attempts late_request + 1))
     (requests_of late_executed)) (close_session (Sess_reconcile_mark late_request) late_executed)"

lemma late_reachable: "ap_reachable late_marked"
proof -
  have m: "buildModeACallbacks (ar_action_type late_request) = Some (Finance_queue, ''finance:on-approval'')"
    "ar_callback_attempts late_request + 1 < MAX_CALLBACK_ATTEMPTS"
    "map ar_id (reconcilable 2000000 (fin_approvals approved_db)) = [''q1'']" by code_simp+
  then have "reconcilable 2000000 (fin_approvals approved_db) \<noteq> []" by auto
  then have "late_request \<in> set (reconcilable 2000000 (requests_of (calm approved_db)))" by (simp add: late_request_def)
  then have s1: "ap_step (calm approved_db) (open_session (Sess_reconcile late_request) (calm approved_db))"
    by (rule reconcile_begin) (simp add: m)
  have "Sess_reconcile late_request \<in> set (w_sessions (open_session (Sess_reconcile late_request) (calm approved_db)))"
    by (simp add: open_session_def)
  from reconcile_queued [OF this m(2,1)]
  have s2: "ap_step (open_session (Sess_reconcile late_request) (calm approved_db)) late_queued"
    by (simp add: late_queued_def late_job_def)
  have cb: "\<not> isl (invoice_approval_callback ap_env0 ''q1'' ''i1'' (w_fin late_queued))" by code_simp
  have "late_job \<in> set (ap_jobs (requests_of late_queued))" by (simp add: late_queued_def add_job_def)
  then have s3: "ap_step late_queued late_executed"
    unfolding late_executed_def
  proof (rule invoice_callback)
    show "cj_name late_job = ''finance:on-approval''" by (simp add: late_job_def job_of_def)
    have "cj_request_id late_job = ''q1''" "cj_entity_id late_job = ''i1''" by code_simp+
    then show "invoice_approval_callback ap_env0 (cj_request_id late_job) (cj_entity_id late_job) (w_fin late_queued) =
        Inr (ok_db (invoice_approval_callback ap_env0 ''q1'' ''i1'' (w_fin late_queued)))"
      using ok_dbI [OF cb] by simp
  qed
  have "Sess_reconcile_mark late_request \<in> set (w_sessions late_executed)"
    by (simp add: late_executed_def late_queued_def open_session_def)
  then have s4: "ap_step late_executed late_marked" unfolding late_marked_def by (rule reconcile_marked)
  show ?thesis
    by (rule ap_reachable.step [OF ap_reachable.step [OF ap_reachable.step [OF ap_reachable.step [OF example_worlds(2) s1] s2] s3] s4])
qed

text \<open>C39: the worker enqueues before it marks the row, so its mark can come after the callback: a request that is executed, with
  its invoice issued, then reads as one whose callback is still pending.\<close>

theorem execution_record_overwritten:
  "\<exists>w r. ap_reachable w \<and> find_request (requests_of w) ''q1'' = Some r \<and> ar_status r = Req_executed \<and>
    ar_callback_status r = Some Cb_pending \<and> map inv_status (fin_invoices (w_fin w)) = [Issued]"
proof -
  have rows: "map (\<lambda>r. (ar_id r, ar_status r, ar_callback_status r)) (ap_requests (requests_of late_marked)) =
      [(''q1'', Req_executed, Some Cb_pending)]"
    and inv: "map inv_status (fin_invoices (w_fin late_marked)) = [Issued]" by code_simp+
  from rows obtain r where "ap_requests (requests_of late_marked) = [r]" "ar_id r = ''q1''" "ar_status r = Req_executed"
    "ar_callback_status r = Some Cb_pending" by (auto simp: map_eq_Cons_conv)
  then have "find_request (requests_of late_marked) ''q1'' = Some r \<and> ar_status r = Req_executed \<and> ar_callback_status r = Some Cb_pending"
    by (simp add: find_row_Cons)
  with late_reachable inv show ?thesis by (intro exI [of _ late_marked] exI [of _ r] conjI) simp_all
qed

end
