(* ===== verification/Spec2Isabelle.thy ===== *)
theory Spec2Isabelle
  imports Timetable_Validation Teacher_Candidates Risk_Worker Admissions_Properties Approvals_Reconciliation
begin

text \<open>
  A model of the decision logic of School OS (EduPod), a multi-tenant school administration system:
  NestJS services under \<open>apps/api\<close>, queue workers under \<open>apps/worker\<close>, and a shared library under
  \<open>packages/shared\<close>.
\<close>

end
